(* ===== verification/Prelude.thy ===== *)
theory Prelude
  imports Main "HOL-Library.Word"
begin

text \<open>
  What every theory of the development shares: the names of the machine integers, the ways
  a C++ call can fail, the sequencing of calls that can fail, and arrays with the bounds of
  every access written out (an access outside an array is undefined behaviour in C++, and a
  value of its own here, never an arbitrary element).
\<close>

unbundle bit_operations_syntax

section \<open>Machine integers\<close>

type_synonym u8 = "8 word"
type_synonym u16 = "16 word"
type_synonym u32 = "32 word"
type_synonym u64 = "64 word"

section \<open>Failures and sequencing\<close>

text \<open>
  The exceptions are the classes of the C++ standard library that the code throws, and
  \<open>Json_error\<close> those of the JSON library for a member that is missing or of another type;
  \<open>Undefined_behaviour\<close> is an access outside the bounds of an array.
\<close>

datatype failure =
    Domain_error
  | Invalid_argument
  | Runtime_error
  | Logic_error
  | Out_of_range
  | Length_error
  | Future_error
  | Json_error
  | Undefined_behaviour

type_synonym 'a res = "failure + 'a"

definition and_then :: "('e + 'a) \<Rightarrow> ('a \<Rightarrow> 'e + 'b) \<Rightarrow> 'e + 'b" where
  "and_then m f = (case m of Inl e \<Rightarrow> Inl e | Inr x \<Rightarrow> f x)"

lemma and_then_Inl [simp]: "and_then (Inl e) f = Inl e"
  by (simp add: and_then_def)

lemma and_then_Inr [simp]: "and_then (Inr x) f = f x"
  by (simp add: and_then_def)

lemma and_then_eq_Inr:
  "and_then m f = Inr y \<longleftrightarrow> (\<exists>x. m = Inr x \<and> f x = Inr y)"
  by (cases m) auto

lemma and_then_InrE:
  assumes "and_then m f = Inr y"
  obtains x where "m = Inr x" and "f x = Inr y"
  using assms by (cases m) auto

lemma and_then_pairE:
  assumes "and_then m f = Inr y"
  obtains a b where "m = Inr (a, b)" and "f (a, b) = Inr y"
  using assms by (cases m) auto

lemma and_then_eq_Inl:
  "and_then m f = Inl e \<longleftrightarrow> m = Inl e \<or> (\<exists>x. m = Inr x \<and> f x = Inl e)"
  by (cases m) auto

lemma and_then_cong [fundef_cong]:
  "m = m' \<Longrightarrow> (\<And>x. m' = Inr x \<Longrightarrow> f x = g x) \<Longrightarrow> and_then m f = and_then m' g"
  by (cases m') auto

section \<open>Arrays\<close>

definition vget :: "'a list \<Rightarrow> int \<Rightarrow> 'a res" where
  "vget xs i =
     (if 0 \<le> i \<and> i < int (length xs) then Inr (xs ! nat i) else Inl Undefined_behaviour)"

definition vset :: "'a list \<Rightarrow> int \<Rightarrow> 'a \<Rightarrow> 'a list res" where
  "vset xs i x =
     (if 0 \<le> i \<and> i < int (length xs) then Inr (xs[nat i := x]) else Inl Undefined_behaviour)"

text \<open>\<open>vread xs i n\<close> reads \<open>n\<close> consecutive elements, \<open>vwrite xs i ys\<close> copies \<open>ys\<close> into
  the array from index \<open>i\<close> on (\<open>memcpy\<close>).\<close>

definition vread :: "'a list \<Rightarrow> int \<Rightarrow> int \<Rightarrow> 'a list res" where
  "vread xs i n =
     (if 0 \<le> i \<and> 0 \<le> n \<and> i + n \<le> int (length xs)
      then Inr (take (nat n) (drop (nat i) xs)) else Inl Undefined_behaviour)"

definition vwrite :: "'a list \<Rightarrow> int \<Rightarrow> 'a list \<Rightarrow> 'a list res" where
  "vwrite xs i ys =
     (if 0 \<le> i \<and> i + int (length ys) \<le> int (length xs)
      then Inr (take (nat i) xs @ ys @ drop (nat i + length ys) xs)
      else Inl Undefined_behaviour)"

named_theorems array_simps \<open>accesses inside the bounds of an array\<close>

lemma vget_in [array_simps]: "0 \<le> i \<Longrightarrow> i < int (length xs) \<Longrightarrow> vget xs i = Inr (xs ! nat i)"
  by (simp add: vget_def)

lemma vset_in [array_simps]: "0 \<le> i \<Longrightarrow> i < int (length xs) \<Longrightarrow> vset xs i x = Inr (xs[nat i := x])"
  by (simp add: vset_def)

lemma vget_out: "i < 0 \<or> int (length xs) \<le> i \<Longrightarrow> vget xs i = Inl Undefined_behaviour"
  by (auto simp: vget_def)

lemma vset_out: "i < 0 \<or> int (length xs) \<le> i \<Longrightarrow> vset xs i x = Inl Undefined_behaviour"
  by (auto simp: vset_def)

lemma vset_length: "vset xs i x = Inr ys \<Longrightarrow> length ys = length xs"
  by (auto simp: vset_def split: if_splits)

lemma vget_vset_same: "vset xs i x = Inr ys \<Longrightarrow> vget ys i = Inr x"
  by (auto simp: vset_def vget_def split: if_splits)

lemma vget_vset_other: "vset xs i x = Inr ys \<Longrightarrow> j \<noteq> i \<Longrightarrow> vget ys j = vget xs j"
  by (auto simp: vset_def vget_def split: if_splits)

lemma vget_cong_drop:
  assumes "drop k ys = drop k xs" and "length ys = length xs" and "int k \<le> i"
  shows "vget ys i = vget xs i"
proof (cases "i < int (length xs)")
  case True
  with assms(3) have k: "k \<le> nat i" "nat i < length xs" by linarith+
  then have "drop k ys ! (nat i - k) = ys ! nat i" "drop k xs ! (nat i - k) = xs ! nat i"
    using assms(2) by (simp_all add: nth_drop)
  then have "ys ! nat i = xs ! nat i"
    using assms(1) by simp
  then show ?thesis by (simp add: vget_def assms(2))
next
  case False
  then show ?thesis by (simp add: vget_def assms(2))
qed

lemma vwrite_in:
  "0 \<le> i \<Longrightarrow> i + int (length ys) \<le> int (length xs) \<Longrightarrow>
   vwrite xs i ys = Inr (take (nat i) xs @ ys @ drop (nat i + length ys) xs)"
  by (simp add: vwrite_def)

lemma vread_in:
  "0 \<le> i \<Longrightarrow> 0 \<le> n \<Longrightarrow> i + n \<le> int (length xs) \<Longrightarrow>
   vread xs i n = Inr (take (nat n) (drop (nat i) xs))"
  by (simp add: vread_def)

lemma vwrite_length: "vwrite xs i ys = Inr zs \<Longrightarrow> length zs = length xs"
  by (auto simp: vwrite_def split: if_splits)

lemma vread_length: "vread xs i n = Inr ys \<Longrightarrow> int (length ys) = n"
  by (auto simp: vread_def split: if_splits)

lemma vread_vwrite_same:
  "vwrite xs i ys = Inr zs \<Longrightarrow> vread zs i (int (length ys)) = Inr ys"
  by (auto simp: vwrite_def vread_def min_def split: if_splits)

lemma nth_vwrite:
  assumes "vwrite xs i ys = Inr zs" and "k < length xs"
  shows "zs ! k = (if i \<le> int k \<and> int k < i + int (length ys) then ys ! (k - nat i) else xs ! k)"
proof -
  from assms(1) have b: "0 \<le> i" "i + int (length ys) \<le> int (length xs)"
    and zs: "zs = take (nat i) xs @ ys @ drop (nat i + length ys) xs"
    by (auto simp: vwrite_def split: if_splits)
  show ?thesis
    using b assms(2) by (auto simp: zs nth_append min_def)
qed

section \<open>Bytes and 16-bit words\<close>

text \<open>\<open>hi_byte\<close> and \<open>lo_byte\<close> are \<open>value >> 8\<close> and \<open>value & 0xFF\<close> stored to a byte;
  \<open>word_be\<close> is \<open>(hi << 8) + lo\<close> converted to 16 bits.\<close>

definition hi_byte :: "u16 \<Rightarrow> u8" where
  "hi_byte w = ucast (drop_bit 8 w)"

definition lo_byte :: "u16 \<Rightarrow> u8" where
  "lo_byte w = ucast w"

definition word_be :: "u8 \<Rightarrow> u8 \<Rightarrow> u16" where
  "word_be hi lo = push_bit 8 (ucast hi) + ucast lo"

lemma uint_eq_iff: "uint a = uint b \<longleftrightarrow> a = b"
  by (metis unsigned_word_eqI)

lemma u8_less: "unat (b :: u8) < 256"
  using unsigned_less [of b, where ?'a = nat] by simp

lemma u16_less: "unat (w :: u16) < 65536"
  using unsigned_less [of w, where ?'a = nat] by simp

lemma unat_hi_byte: "unat (hi_byte w) = unat w div 256"
  using u16_less [of w]
  by (simp add: hi_byte_def unsigned_ucast_eq take_bit_eq_mod drop_bit_eq_div unat_div_distrib)

lemma unat_lo_byte: "unat (lo_byte w) = unat w mod 256"
  by (simp add: lo_byte_def unsigned_ucast_eq take_bit_eq_mod)

lemma unat_word_be: "unat (word_be hi lo) = unat hi * 256 + unat lo"
proof -
  have "unat (push_bit 8 (ucast hi :: u16)) = unat hi * 256"
    using u8_less [of hi]
    by (simp add: unat_word_ariths unsigned_ucast_eq take_bit_eq_mod push_bit_eq_mult)
  then show ?thesis
    using u8_less [of hi] u8_less [of lo]
    by (simp add: word_be_def unat_word_ariths unsigned_ucast_eq take_bit_eq_mod)
qed

lemma word_be_split [simp]: "word_be (hi_byte w) (lo_byte w) = w"
  by (simp add: word_eq_iff_unsigned [where ?'a = nat] unat_word_be unat_hi_byte unat_lo_byte)

lemma hi_byte_word_be [simp]: "hi_byte (word_be hi lo) = hi"
  using u8_less [of lo]
  by (simp add: word_eq_iff_unsigned [where ?'a = nat] unat_word_be unat_hi_byte)

lemma lo_byte_word_be [simp]: "lo_byte (word_be hi lo) = lo"
  using u8_less [of lo]
  by (simp add: word_eq_iff_unsigned [where ?'a = nat] unat_word_be unat_lo_byte)

lemma word_be_inject: "word_be a b = word_be c d \<longleftrightarrow> a = c \<and> b = d"
  by (metis hi_byte_word_be lo_byte_word_be)

lemma word_be_or: "word_be hi lo = push_bit 8 (ucast hi) OR ucast lo"
proof -
  have "push_bit 8 (ucast hi) AND (ucast lo :: u16) = 0"
    by (rule bit_word_eqI) (auto simp: bit_simps dest: bit_imp_le_length [of lo])
  then show ?thesis
    by (simp add: word_be_def disjunctive_add_eq_or)
qed

lemma bit_word_be: "bit (word_be hi lo) n \<longleftrightarrow> (if n < 8 then bit lo n else bit hi (n - 8))"
  by (auto simp: word_be_or bit_simps dest: bit_imp_le_length)

lemma word_be_xor: "word_be a b XOR word_be c d = word_be (a XOR c) (b XOR d)"
  by (rule bit_word_eqI) (simp add: bit_word_be bit_xor_iff)

lemma word_be_0 [simp]: "word_be 0 0 = 0"
  by (simp add: word_be_def)

lemma ucast_word_be: "ucast b = word_be 0 b"
  by (simp add: word_be_def)

end
