(* ===== verification/Modbus_Types.thy ===== *)
theory Modbus_Types
  imports Prelude
begin

text \<open>
  The enumerations and constants of \<open>include/modbuspp/global.h\<close>, and what the library takes
  from libmodbus, which is not part of the repository: constants and the header length of a
  context are fields of the record \<open>mb_consts\<close>, an argument of the definitions that need them.
\<close>

section \<open>Enumerations\<close>

datatype Net = Rtu | Tcp | NoNet

datatype Endian = EndianBigBig | EndianBigLittle | EndianLittleBig | EndianLittleLittle

datatype Table = DiscreteInput | Coil | InputRegister | HoldingRegister

datatype DataEnum =
  Uint16 | Uint32 | Uint64 | Int16 | Int32 | Int64 | Float | Double | LongDouble

text \<open>
  The function codes of the Modbus protocol. A value of the C++ enumeration is obtained by a
  cast of any byte of a message, so every byte that is not one of the enumerators is kept.
\<close>

datatype Function =
    ReadCoils
  | ReadDiscreteInputs
  | ReadHoldingRegisters
  | ReadInputRegisters
  | WriteSingleCoil
  | WriteSingleRegister
  | ReadExceptionStatus
  | WriteMultipleCoils
  | WriteMultipleRegisters
  | ReportServerId
  | MaskWriteRegister
  | ReadWriteMultipleRegisters
  | OtherFunction u8

definition function_of_byte :: "u8 \<Rightarrow> Function" where
  "function_of_byte b =
     (if b = 1 then ReadCoils
      else if b = 2 then ReadDiscreteInputs
      else if b = 3 then ReadHoldingRegisters
      else if b = 4 then ReadInputRegisters
      else if b = 5 then WriteSingleCoil
      else if b = 6 then WriteSingleRegister
      else if b = 7 then ReadExceptionStatus
      else if b = 15 then WriteMultipleCoils
      else if b = 16 then WriteMultipleRegisters
      else if b = 17 then ReportServerId
      else if b = 22 then MaskWriteRegister
      else if b = 23 then ReadWriteMultipleRegisters
      else OtherFunction b)"

fun byte_of_function :: "Function \<Rightarrow> u8" where
  "byte_of_function ReadCoils = 1"
| "byte_of_function ReadDiscreteInputs = 2"
| "byte_of_function ReadHoldingRegisters = 3"
| "byte_of_function ReadInputRegisters = 4"
| "byte_of_function WriteSingleCoil = 5"
| "byte_of_function WriteSingleRegister = 6"
| "byte_of_function ReadExceptionStatus = 7"
| "byte_of_function WriteMultipleCoils = 15"
| "byte_of_function WriteMultipleRegisters = 16"
| "byte_of_function ReportServerId = 17"
| "byte_of_function MaskWriteRegister = 22"
| "byte_of_function ReadWriteMultipleRegisters = 23"
| "byte_of_function (OtherFunction b) = b"

lemma byte_of_function_of_byte [simp]: "byte_of_function (function_of_byte b) = b"
  by (simp add: function_of_byte_def)

definition ExceptionFlag :: u8 where
  "ExceptionFlag = 0x80"

section \<open>Constants of libmodbus\<close>

text \<open>
  \<open>hdr_rtu\<close> and \<open>hdr_tcp\<close> are what \<open>modbus_get_header_length\<close> returns for a context of either
  kind; the others are the macros of the same name in \<open>modbus.h\<close>.
\<close>

record mb_consts =
  hdr_rtu :: nat
  hdr_tcp :: nat
  MODBUS_RTU_MAX_ADU_LENGTH :: u16
  MODBUS_TCP_MAX_ADU_LENGTH :: u16
  MODBUS_MAX_PDU_LENGTH :: u16
  MODBUS_TCP_SLAVE :: int
  MODBUS_BROADCAST_ADDRESS :: int

text \<open>The values that libmodbus documents.\<close>

definition libmodbus_values :: mb_consts where
  "libmodbus_values =
     \<lparr> hdr_rtu = 1, hdr_tcp = 7, MODBUS_RTU_MAX_ADU_LENGTH = 256,
       MODBUS_TCP_MAX_ADU_LENGTH = 260, MODBUS_MAX_PDU_LENGTH = 253,
       MODBUS_TCP_SLAVE = 255, MODBUS_BROADCAST_ADDRESS = 0 \<rparr>"

text \<open>
  What the code relies on: the address byte precedes the function code in both headers, the
  TCP header is the 7 bytes that \<open>Message::transactionIdentifier\<close> and \<open>Message::Private\<close>
  assume, and a whole PDU, the header and the CRC fit the largest ADU.
\<close>

definition consts_ok :: "mb_consts \<Rightarrow> bool" where
  "consts_ok K \<longleftrightarrow>
     1 \<le> hdr_rtu K \<and> hdr_tcp K = 7 \<and>
     hdr_rtu K + unat (MODBUS_MAX_PDU_LENGTH K) + 2 \<le> unat (MODBUS_RTU_MAX_ADU_LENGTH K) \<and>
     hdr_tcp K + unat (MODBUS_MAX_PDU_LENGTH K) \<le> unat (MODBUS_TCP_MAX_ADU_LENGTH K) \<and>
     6 \<le> unat (MODBUS_MAX_PDU_LENGTH K)"

lemma consts_ok_values: "consts_ok libmodbus_values"
  by (simp add: consts_ok_def libmodbus_values_def)

section \<open>errno\<close>

datatype errno =
    EINVAL | ENOMEM | EBADF | ECONNRESET | EPIPE | EMBBADCRC | EMBBADDATA | ENOERR
  | OtherErrno int

end
