(* ===== verification/Stores.thy ===== *)
theory Stores
  imports Prelude
begin

text \<open>
  The interface of the indexed accessors: a getter and a setter over a state, each of which can
  fail, with the laws every such pair of the code keeps. Clients are the loops over a 16-bit
  index that the message classes run over their registers and bits.
\<close>

section \<open>Loops of the code over an accessor\<close>

text \<open>\<open>for (uint16_t i = 0; i < quantity; i++) put (index + i, values[i]);\<close> where the index wraps
  at 16 bits and reading past the array of values is undefined behaviour.\<close>

fun set_loop :: "('s \<Rightarrow> u16 \<Rightarrow> 'v \<Rightarrow> 's res) \<Rightarrow> 's \<Rightarrow> u16 \<Rightarrow> nat \<Rightarrow> 'v list \<Rightarrow> 's res" where
  "set_loop put s index 0 values = Inr s"
| "set_loop put s index (Suc n) [] = Inl Undefined_behaviour"
| "set_loop put s index (Suc n) (v # values) =
     and_then (put s index v) (\<lambda>s'. set_loop put s' (index + 1) n values)"

fun get_loop :: "('s \<Rightarrow> u16 \<Rightarrow> 'v res) \<Rightarrow> 's \<Rightarrow> u16 \<Rightarrow> nat \<Rightarrow> 'v list res" where
  "get_loop get s index 0 = Inr []"
| "get_loop get s index (Suc n) =
     and_then (get s index) (\<lambda>v. and_then (get_loop get s (index + 1) n) (\<lambda>vs. Inr (v # vs)))"

text \<open>The indexes a loop visits.\<close>

definition span :: "u16 \<Rightarrow> nat \<Rightarrow> u16 set" where
  "span index n = (\<lambda>i. index + of_nat i) ` {..<n}"

lemma span_0 [simp]: "span index 0 = {}"
  by (simp add: span_def)

lemma span_Suc: "span index (Suc n) = insert index (span (index + 1) n)"
proof -
  have "{..<Suc n} = insert 0 (Suc ` {..<n})"
    by (rule lessThan_Suc_eq_insert_0)
  then show ?thesis
    by (simp add: span_def image_image add.assoc)
qed

lemma span_next: "n \<le> 65535 \<Longrightarrow> index \<notin> span (index + 1) n"
proof
  assume n: "n \<le> 65535" and "index \<in> span (index + 1) n"
  then obtain i where i: "i < n" and "index = index + (1 + of_nat i)"
    by (auto simp: span_def add.assoc)
  then have "(of_nat (Suc i) :: u16) = 0"
    by (metis add_cancel_right_right of_nat_Suc)
  then show False
    using i n of_nat_neq_0 [of "Suc i", where ?'a = 16] by simp
qed

lemma get_loop_cong:
  "(\<And>j. j \<in> span i n \<Longrightarrow> get s j = get s' j) \<Longrightarrow> get_loop get s i n = get_loop get s' i n"
  by (induction n arbitrary: i) (simp_all add: span_Suc)

section \<open>The interface\<close>

locale indexed_store =
  fixes get :: "'s \<Rightarrow> 'i \<Rightarrow> 'v res"
    and put :: "'s \<Rightarrow> 'i \<Rightarrow> 'v \<Rightarrow> 's res"
  assumes get_set_same: "put s i v = Inr s' \<Longrightarrow> get s' i = Inr v"
    and get_set_other: "put s i v = Inr s' \<Longrightarrow> j \<noteq> i \<Longrightarrow> get s' j = get s j"
    and set_defined: "get s i = Inr x \<Longrightarrow> \<exists>s'. put s i v = Inr s'"
begin

lemma get_set: "put s i v = Inr s' \<Longrightarrow> get s' j = (if j = i then Inr v else get s j)"
  using get_set_same get_set_other by auto

lemma set_keeps_defined: "put s i v = Inr s' \<Longrightarrow> get s j = Inr x \<Longrightarrow> \<exists>y. get s' j = Inr y"
  by (auto simp: get_set)

end

text \<open>The accessors of the message classes take a 16-bit index.\<close>

locale word_store = indexed_store get put
  for get :: "'s \<Rightarrow> u16 \<Rightarrow> 'v res"
  and put :: "'s \<Rightarrow> u16 \<Rightarrow> 'v \<Rightarrow> 's res"
begin

lemma set_loop_SucE:
  assumes "set_loop put s index (Suc n) vs = Inr s'"
  obtains v ws t where "vs = v # ws" "put s index v = Inr t" "set_loop put t (index + 1) n ws = Inr s'"
  using assms by (cases vs) (auto simp: and_then_eq_Inr)

lemma set_loop_other:
  "set_loop put s index n vs = Inr s' \<Longrightarrow> j \<notin> span index n \<Longrightarrow> get s' j = get s j"
proof (induction n arbitrary: s index vs)
  case (Suc n)
  from Suc.prems(1) obtain v ws t where "put s index v = Inr t"
    "set_loop put t (index + 1) n ws = Inr s'"
    by (rule set_loop_SucE)
  with Suc show ?case
    by (auto simp: span_Suc get_set)
qed simp

lemma get_loop_set_loop:
  "set_loop put s index n vs = Inr s' \<Longrightarrow> n \<le> 65536 \<Longrightarrow>
   get_loop get s' index n = Inr (take n vs)"
proof (induction n arbitrary: s index vs)
  case (Suc n)
  from Suc.prems(1) obtain v ws t where t: "vs = v # ws" "put s index v = Inr t"
    "set_loop put t (index + 1) n ws = Inr s'"
    by (rule set_loop_SucE)
  then have "get s' index = Inr v"
    using Suc.prems(2) set_loop_other [OF t(3)] span_next [of n index] get_set_same by simp
  with Suc t show ?case by simp
qed simp

lemma set_loop_defined:
  "(\<And>j. j \<in> span index n \<Longrightarrow> \<exists>x. get s j = Inr x) \<Longrightarrow> n \<le> length vs \<Longrightarrow>
   \<exists>s'. set_loop put s index n vs = Inr s'"
proof (induction n arbitrary: s index vs)
  case (Suc n)
  then obtain v ws where vs: "vs = v # ws" by (cases vs) auto
  have "\<exists>x. get s index = Inr x"
    by (rule Suc.prems(1)) (simp add: span_Suc)
  then obtain t where t: "put s index v = Inr t"
    using set_defined by blast
  then have "\<exists>x. get t j = Inr x" if "j \<in> span (index + 1) n" for j
    using Suc.prems(1) [of j] that by (auto simp: span_Suc get_set)
  with Suc.IH [of "index + 1" t ws] Suc.prems(2) t vs show ?case by simp
qed simp

end

end
