(* ===== verification/Message_Model.thy ===== *)
theory Message_Model
  imports Modbus_Types Stores
begin

text \<open>
  The class \<open>Message\<close> of \<open>src/message.cpp\<close>: the ADU buffer of a request or a response, the
  offset of the PDU in it, and the accessors of the fields that all functions share. Offsets
  are C \<open>int\<close>s relative to the PDU, so the header is at negative offsets. Every access goes
  through the bounds of the vector. \<open>Message::prepareToSend\<close> needs the network layers and is
  in the theory \<open>Net_Layer\<close>.
\<close>

section \<open>State\<close>

text \<open>\<open>backend\<close> tells whether the pointer to a network layer is set.\<close>

record message =
  net :: Net
  pduBegin :: int
  aduSize :: nat
  maxAduLength :: u16
  isResponse :: bool
  backend :: bool
  transactionId :: u16
  adu :: "u8 list"

section \<open>Bytes and words\<close>

definition Message_byte :: "message \<Rightarrow> int \<Rightarrow> u8 res" where
  "Message_byte m i = vget (adu m) (pduBegin m + i)"

definition Message_word :: "message \<Rightarrow> int \<Rightarrow> u16 res" where
  "Message_word m i =
     and_then (vget (adu m) (pduBegin m + i)) (\<lambda>hi.
     and_then (vget (adu m) (pduBegin m + i + 1)) (\<lambda>lo.
     Inr (word_be hi lo)))"

definition Message_setWord :: "message \<Rightarrow> int \<Rightarrow> u16 \<Rightarrow> message res" where
  "Message_setWord m pduOffset value =
     (let index = pduBegin m + pduOffset
      in and_then (vset (adu m) index (hi_byte value)) (\<lambda>a.
         and_then (vset a (index + 1) (lo_byte value)) (\<lambda>a'.
         Inr (m\<lparr>adu := a', aduSize := max (aduSize m) (nat (index + 2))\<rparr>))))"

definition Message_setByte :: "message \<Rightarrow> int \<Rightarrow> u8 \<Rightarrow> message res" where
  "Message_setByte m pduOffset value =
     (let index = pduBegin m + pduOffset
      in and_then (vset (adu m) index value) (\<lambda>a.
         Inr (m\<lparr>adu := a, aduSize := max (aduSize m) (nat (index + 1))\<rparr>)))"

section \<open>Sizes\<close>

definition Message_size :: "message \<Rightarrow> nat" where
  "Message_size m =
     (if pduBegin m < int (aduSize m) then nat (int (aduSize m) - pduBegin m) else 0)"

definition Message_setSize :: "message \<Rightarrow> nat \<Rightarrow> message" where
  "Message_setSize m n = m\<lparr>aduSize := nat (pduBegin m + int n)\<rparr>"

definition Message_setAduSize :: "message \<Rightarrow> nat \<Rightarrow> message" where
  "Message_setAduSize m n = m\<lparr>aduSize := n\<rparr>"

definition Message_aduHeaderLength :: "message \<Rightarrow> u16" where
  "Message_aduHeaderLength m = word_of_int (pduBegin m)"

section \<open>Fields of the header and of the PDU\<close>

definition Message_setSlaveId :: "message \<Rightarrow> int \<Rightarrow> message res" where
  "Message_setSlaveId m ident = Message_setByte m (-1) (word_of_int (ident AND 0xFF))"

definition Message_slave :: "message \<Rightarrow> u8 res" where
  "Message_slave m = Message_byte m (-1)"

definition Message_function :: "message \<Rightarrow> Function res" where
  "Message_function m = and_then (Message_byte m 0) (\<lambda>b. Inr (function_of_byte b))"

definition Message_setFunction :: "message \<Rightarrow> Function \<Rightarrow> message res" where
  "Message_setFunction m func = Message_setByte m 0 (byte_of_function func)"

definition Message_startingAddress :: "message \<Rightarrow> u16 res" where
  "Message_startingAddress m = Message_word m 1"

definition Message_quantity :: "message \<Rightarrow> u16 res" where
  "Message_quantity m = Message_word m 3"

definition Message_setStartingAdress :: "message \<Rightarrow> u16 \<Rightarrow> message res" where
  "Message_setStartingAdress m addr = Message_setWord m 1 addr"

definition Message_setQuantity :: "message \<Rightarrow> u16 \<Rightarrow> message res" where
  "Message_setQuantity m n = Message_setWord m 3 n"

definition Message_transactionIdentifier :: "message \<Rightarrow> u16 res" where
  "Message_transactionIdentifier m =
     (if net m \<noteq> Tcp then Inl Domain_error else Message_word m (-7))"

definition Message_setTransactionIdentifier :: "message \<Rightarrow> u16 \<Rightarrow> message res" where
  "Message_setTransactionIdentifier m tid =
     (if net m \<noteq> Tcp then Inl Domain_error else Message_setWord m (-7) tid)"

text \<open>\<open>size() - 2\<close> is computed on \<open>size_t\<close> and converted to \<open>int\<close>: below 2 it is negative.\<close>

definition Message_crc :: "message \<Rightarrow> u16 res" where
  "Message_crc m =
     (if net m \<noteq> Rtu then Inl Domain_error
      else if aduSize m \<ge> 4 then Inl Invalid_argument
      else Message_word m (int (Message_size m) - 2))"

section \<open>The PDU as a block\<close>

text \<open>\<open>adu.resize (n, 0)\<close>.\<close>

definition vresize :: "u8 list \<Rightarrow> nat \<Rightarrow> u8 list" where
  "vresize xs n = take n xs @ replicate (n - length xs) 0"

definition Message_setPdu :: "message \<Rightarrow> u8 list \<Rightarrow> nat \<Rightarrow> message res" where
  "Message_setPdu m data len =
     and_then (vread data 0 (int len)) (\<lambda>d.
     and_then (vwrite (adu m) (pduBegin m) d) (\<lambda>a.
     Inr (Message_setSize (m\<lparr>adu := a\<rparr>) len)))"

definition Message_setPdu_from :: "message \<Rightarrow> message \<Rightarrow> message res" where
  "Message_setPdu_from m src =
     and_then (vread (adu src) (uint (Message_aduHeaderLength src)) (int (Message_size src))) (\<lambda>d.
     and_then (vwrite (adu m) (pduBegin m) d) (\<lambda>a.
     Inr (Message_setSize (m\<lparr>adu := a\<rparr>) (Message_size src))))"

definition Message_clear :: "mb_consts \<Rightarrow> message \<Rightarrow> message res" where
  "Message_clear K m =
     (let m' = m\<lparr>adu := vresize (adu m) (unat (maxAduLength m)), aduSize := 0\<rparr>
      in if net m = Tcp then Message_setSlaveId m' (MODBUS_TCP_SLAVE K) else Inr m')"

definition Message_setResponseFlag :: "message \<Rightarrow> bool \<Rightarrow> message" where
  "Message_setResponseFlag m flag = m\<lparr>isResponse := flag\<rparr>"

section \<open>Printing\<close>

definition hex_digit :: "nat \<Rightarrow> char" where
  "hex_digit d = (if d < 10 then char_of (48 + d) else char_of (55 + d))"

definition print_byte :: "char \<Rightarrow> char \<Rightarrow> u8 \<Rightarrow> string" where
  "print_byte prefix suffix b =
     [prefix, hex_digit (unat b div 16), hex_digit (unat b mod 16), suffix]"

fun print_loop :: "u8 list \<Rightarrow> nat \<Rightarrow> char \<Rightarrow> char \<Rightarrow> string res" where
  "print_loop buf 0 prefix suffix = Inr []"
| "print_loop [] (Suc n) prefix suffix = Inl Undefined_behaviour"
| "print_loop (b # buf) (Suc n) prefix suffix =
     and_then (print_loop buf n prefix suffix) (\<lambda>s. Inr (print_byte prefix suffix b @ s))"

definition Message_print_with :: "message \<Rightarrow> char \<Rightarrow> char \<Rightarrow> string res" where
  "Message_print_with m prefix suffix = print_loop (adu m) (aduSize m) prefix suffix"

definition Message_print :: "message \<Rightarrow> string res" where
  "Message_print m =
     (if isResponse m then Message_print_with m (CHR ''['') (CHR '']'')
      else Message_print_with m (CHR ''<'') (CHR ''>''))"

section \<open>Constructors\<close>

text \<open>
  \<open>Message::Private\<close> takes the network, the header length and the largest ADU from a layer:
  the one it is given (\<open>backend\<close> set), or one it creates for \<open>net\<close> and deletes.
\<close>

definition Message_Private ::
    "mb_consts \<Rightarrow> Net \<Rightarrow> nat \<Rightarrow> u16 \<Rightarrow> bool \<Rightarrow> message res" where
  "Message_Private K n hdr maxlen has_backend =
     (let a = vresize [] (unat maxlen);
          m = \<lparr>net = n, pduBegin = int hdr, aduSize = 0, maxAduLength = maxlen,
               isResponse = False, backend = has_backend, transactionId = 1, adu = a\<rparr>
      in if n = Tcp
         then and_then (vset a 6 (word_of_int (MODBUS_TCP_SLAVE K))) (\<lambda>a'. Inr (m\<lparr>adu := a'\<rparr>))
         else Inr m)"

definition Message_Private_net :: "mb_consts \<Rightarrow> Net \<Rightarrow> message res" where
  "Message_Private_net K n =
     (case n of
        Tcp \<Rightarrow> Message_Private K Tcp (hdr_tcp K) (MODBUS_TCP_MAX_ADU_LENGTH K) False
      | Rtu \<Rightarrow> Message_Private K Rtu (hdr_rtu K) (MODBUS_RTU_MAX_ADU_LENGTH K) False
      | NoNet \<Rightarrow> Inl Invalid_argument)"

text \<open>The two other constructors continue from the first: with the bytes of an ADU, or with
  a function code.\<close>

definition Message_Private_adu :: "message \<Rightarrow> u8 list \<Rightarrow> message" where
  "Message_Private_adu m bytes = m\<lparr>adu := bytes, aduSize := length bytes\<rparr>"

definition Message_Private_func :: "message \<Rightarrow> Function \<Rightarrow> message res" where
  "Message_Private_func m func =
     and_then (vset (adu m) (pduBegin m) (byte_of_function func)) (\<lambda>a. Inr (m\<lparr>adu := a\<rparr>))"

section \<open>What a write leaves alone\<close>

text \<open>A message after a write differs in the contents of its buffer and in the ADU size only.\<close>

definition same_shape :: "message \<Rightarrow> message \<Rightarrow> bool" where
  "same_shape m m' \<longleftrightarrow>
     net m' = net m \<and> pduBegin m' = pduBegin m \<and> maxAduLength m' = maxAduLength m \<and>
     isResponse m' = isResponse m \<and> backend m' = backend m \<and>
     transactionId m' = transactionId m \<and> length (adu m') = length (adu m)"

lemma same_shapeD:
  assumes "same_shape m m'"
  shows "net m' = net m" "pduBegin m' = pduBegin m" "maxAduLength m' = maxAduLength m"
    "isResponse m' = isResponse m" "backend m' = backend m"
    "transactionId m' = transactionId m" "length (adu m') = length (adu m)"
  using assms unfolding same_shape_def by blast+

lemma same_shape_refl [simp, intro]: "same_shape m m"
  by (simp add: same_shape_def)

lemma same_shape_trans: "same_shape a b \<Longrightarrow> same_shape b c \<Longrightarrow> same_shape a c"
  by (simp add: same_shape_def)

text \<open>The well-formed messages: the buffer has the length of the largest ADU, the size stays
  within it and the PDU starts after the address byte.\<close>

definition msg_wf :: "message \<Rightarrow> bool" where
  "msg_wf m \<longleftrightarrow> 1 \<le> pduBegin m \<and> pduBegin m < int (length (adu m)) \<and>
     length (adu m) = unat (maxAduLength m) \<and> aduSize m \<le> length (adu m)"

definition in_buf :: "message \<Rightarrow> int \<Rightarrow> int \<Rightarrow> bool" where
  "in_buf m off n \<longleftrightarrow> 0 \<le> pduBegin m + off \<and> pduBegin m + off + n \<le> int (length (adu m))"

lemma in_buf_same: "same_shape m m' \<Longrightarrow> in_buf m' off n = in_buf m off n"
  by (simp add: in_buf_def same_shapeD)

section \<open>Bytes: the laws of the store\<close>

lemma setByte_shape: "Message_setByte m i b = Inr m' \<Longrightarrow> same_shape m m'"
  by (auto simp: Message_setByte_def Let_def and_then_eq_Inr same_shape_def dest: vset_length)

lemma setByte_size:
  "Message_setByte m i b = Inr m' \<Longrightarrow> aduSize m' = max (aduSize m) (nat (pduBegin m + i + 1))"
  by (auto simp: Message_setByte_def Let_def and_then_eq_Inr)

interpretation msg_bytes: indexed_store Message_byte Message_setByte
proof
  fix m m' :: message and i j :: int and b x :: u8
  show "Message_setByte m i b = Inr m' \<Longrightarrow> Message_byte m' i = Inr b"
    by (auto simp: Message_setByte_def Message_byte_def Let_def and_then_eq_Inr
        dest: vget_vset_same)
  show "Message_setByte m i b = Inr m' \<Longrightarrow> j \<noteq> i \<Longrightarrow> Message_byte m' j = Message_byte m j"
    by (auto simp: Message_setByte_def Message_byte_def Let_def and_then_eq_Inr vget_vset_other)
  show "Message_byte m i = Inr x \<Longrightarrow> \<exists>m'. Message_setByte m i b = Inr m'"
    by (auto simp: Message_setByte_def Message_byte_def Let_def vget_def vset_def split: if_splits)
qed

lemma byte_defined: "(\<exists>b. Message_byte m i = Inr b) \<longleftrightarrow> in_buf m i 1"
  by (auto simp: Message_byte_def vget_def in_buf_def)

lemma setByte_defined: "(\<exists>m'. Message_setByte m i b = Inr m') \<longleftrightarrow> in_buf m i 1"
  by (auto simp: Message_setByte_def Let_def vset_def in_buf_def)

section \<open>Words\<close>

text \<open>A word is two bytes, the high one first.\<close>

lemma word_bytes:
  "Message_word m i =
     and_then (Message_byte m i) (\<lambda>hi. and_then (Message_byte m (i + 1)) (\<lambda>lo. Inr (word_be hi lo)))"
  by (simp add: Message_word_def Message_byte_def add.assoc)

lemma setWord_bytes:
  "Message_setWord m i w =
     and_then (Message_setByte m i (hi_byte w)) (\<lambda>m'. Message_setByte m' (i + 1) (lo_byte w))"
proof (cases "vset (adu m) (pduBegin m + i) (hi_byte w)")
  case (Inr a)
  then have "0 \<le> pduBegin m + i"
    by (simp add: vset_def split: if_splits)
  with Inr show ?thesis
    by (cases "vset a (pduBegin m + i + 1) (lo_byte w)")
       (simp_all add: Message_setWord_def Message_setByte_def Let_def add.assoc max_def)
qed (simp add: Message_setWord_def Message_setByte_def Let_def)

lemma setWordE:
  assumes "Message_setWord m i w = Inr m'"
  obtains t where "Message_setByte m i (hi_byte w) = Inr t"
    "Message_setByte t (i + 1) (lo_byte w) = Inr m'"
  using assms by (auto simp: setWord_bytes and_then_eq_Inr)

lemma setWord_shape: "Message_setWord m i w = Inr m' \<Longrightarrow> same_shape m m'"
  by (erule setWordE) (blast dest: setByte_shape intro: same_shape_trans)

lemma setWord_size:
  "Message_setWord m i w = Inr m' \<Longrightarrow> aduSize m' = max (aduSize m) (nat (pduBegin m + i + 2))"
  by (auto simp: Message_setWord_def Let_def and_then_eq_Inr)

lemma setWord_byte:
  assumes "Message_setWord m i w = Inr m'"
  shows "Message_byte m' j =
    (if j = i then Inr (hi_byte w) else if j = i + 1 then Inr (lo_byte w) else Message_byte m j)"
  using assms by (rule setWordE) (simp add: msg_bytes.get_set)

lemma setWord_same: "Message_setWord m i w = Inr m' \<Longrightarrow> Message_word m' i = Inr w"
  by (simp add: word_bytes setWord_byte)

lemma setWord_other:
  "Message_setWord m i w = Inr m' \<Longrightarrow> j + 1 < i \<or> i + 1 < j \<Longrightarrow> Message_word m' j = Message_word m j"
  by (auto simp: word_bytes setWord_byte)

lemma word_defined: "(\<exists>w. Message_word m i = Inr w) \<longleftrightarrow> in_buf m i 2"
proof -
  have "in_buf m i 2 \<longleftrightarrow> in_buf m i 1 \<and> in_buf m (i + 1) 1"
    by (auto simp: in_buf_def)
  then show ?thesis
    by (auto simp: word_bytes and_then_eq_Inr simp flip: byte_defined)
qed

lemma setWord_defined: "(\<exists>m'. Message_setWord m i w = Inr m') \<longleftrightarrow> in_buf m i 2"
proof -
  have split: "in_buf m i 2 \<longleftrightarrow> in_buf m i 1 \<and> in_buf m (i + 1) 1"
    by (auto simp: in_buf_def)
  show ?thesis
  proof (cases "Message_setByte m i (hi_byte w)")
    case (Inl e)
    then have "\<not> in_buf m i 1"
      using setByte_defined [of m i "hi_byte w"] by simp
    with Inl split show ?thesis by (simp add: setWord_bytes)
  next
    case (Inr t)
    then have "in_buf m i 1" "in_buf t (i + 1) 1 = in_buf m (i + 1) 1"
      using setByte_defined [of m i "hi_byte w"] by (auto simp: in_buf_same dest: setByte_shape)
    with Inr split show ?thesis by (simp add: setWord_bytes setByte_defined)
  qed
qed

section \<open>Well-formedness is kept\<close>

lemma shape_wf: "same_shape m m' \<Longrightarrow> msg_wf m \<Longrightarrow> aduSize m' \<le> length (adu m) \<Longrightarrow> msg_wf m'"
  by (simp add: msg_wf_def same_shape_def del: of_nat_unat)

lemma setByte_wf:
  assumes "msg_wf m" and "Message_setByte m i b = Inr m'"
  shows "msg_wf m'"
proof -
  have "in_buf m i 1" using assms(2) setByte_defined by blast
  then have "nat (pduBegin m + i + 1) \<le> length (adu m)"
    by (simp add: in_buf_def nat_le_iff)
  moreover have "aduSize m \<le> length (adu m)"
    using assms(1) by (simp add: msg_wf_def)
  ultimately have "aduSize m' \<le> length (adu m)"
    using setByte_size [OF assms(2)] by simp
  then show ?thesis
    using assms by (blast intro: shape_wf setByte_shape)
qed

lemma setWord_wf: "msg_wf m \<Longrightarrow> Message_setWord m i w = Inr m' \<Longrightarrow> msg_wf m'"
  by (erule setWordE) (blast intro: setByte_wf)

lemma vresize_length [simp]: "length (vresize xs n) = n"
  by (simp add: vresize_def)

lemma Message_size_le: "msg_wf m \<Longrightarrow> int (Message_size m) + pduBegin m \<le> int (length (adu m))"
  by (simp add: Message_size_def msg_wf_def del: of_nat_unat)

end
