(* ===== verification/Request_Model.thy ===== *)
theory Request_Model
  imports Message_Model
begin

text \<open>
  The class \<open>Request\<close> of \<open>src/request.cpp\<close>: registers at \<open>pdu[6 + 2 * index]\<close>, coils packed
  eight to a byte from \<open>pdu[6]\<close> on, single values at \<open>pdu[3]\<close>, and the loops over ranges of
  them. The interpretations show that both kinds of accessors keep the laws of \<open>Stores\<close>.
\<close>

section \<open>Single values\<close>

definition Request_registerValue :: "message \<Rightarrow> u16 res" where
  "Request_registerValue m = Message_word m 3"

definition Request_coilValue :: "message \<Rightarrow> bool res" where
  "Request_coilValue m = and_then (Message_word m 3) (\<lambda>w. Inr (w = 0xFF00))"

definition Request_byteCount :: "message \<Rightarrow> u8 res" where
  "Request_byteCount m = Message_byte m 5"

definition Request_setByteCount :: "message \<Rightarrow> u8 \<Rightarrow> message res" where
  "Request_setByteCount m n = Message_setByte m 5 n"

definition Request_setRegisterValue :: "message \<Rightarrow> u16 \<Rightarrow> message res" where
  "Request_setRegisterValue m value = Message_setWord m 3 value"

definition Request_setCoilValue :: "message \<Rightarrow> bool \<Rightarrow> message res" where
  "Request_setCoilValue m value = Message_setWord m 3 (if value then 0xFF00 else 0x0000)"

section \<open>Registers\<close>

definition Request_registerValue_at :: "message \<Rightarrow> u16 \<Rightarrow> u16 res" where
  "Request_registerValue_at m index = Message_word m (6 + uint index * 2)"

definition Request_registerValues :: "message \<Rightarrow> u16 \<Rightarrow> u16 \<Rightarrow> u16 list res" where
  "Request_registerValues m index quantity = get_loop Request_registerValue_at m index (unat quantity)"

definition Request_setRegisterValue_at :: "message \<Rightarrow> u16 \<Rightarrow> u16 \<Rightarrow> message res" where
  "Request_setRegisterValue_at m index value = Message_setWord m (6 + uint index * 2) value"

definition Request_setRegisterValues :: "message \<Rightarrow> u16 \<Rightarrow> u16 \<Rightarrow> u16 list \<Rightarrow> message res" where
  "Request_setRegisterValues m index quantity values =
     set_loop Request_setRegisterValue_at m index (unat quantity) values"

section \<open>Coils\<close>

text \<open>\<open>(b & (1 << bit)) != 0\<close>, and \<open>b &= ~ (1 << bit); b |= (value ? 1 : 0) << bit;\<close>.\<close>

definition get_bit :: "u8 \<Rightarrow> nat \<Rightarrow> bool" where
  "get_bit b n \<longleftrightarrow> b AND push_bit n 1 \<noteq> 0"

definition put_bit :: "u8 \<Rightarrow> nat \<Rightarrow> bool \<Rightarrow> u8" where
  "put_bit b n value =
     (let b' = b AND NOT (push_bit n 1) in b' OR push_bit n (if value then 1 else 0))"

definition Request_coilValue_at :: "message \<Rightarrow> u16 \<Rightarrow> bool res" where
  "Request_coilValue_at m index =
     (let bt = unat (index mod 8); index' = index div 8
      in and_then (Message_byte m (uint index' + 6)) (\<lambda>b. Inr (get_bit b bt)))"

definition Request_coilValues :: "message \<Rightarrow> u16 \<Rightarrow> u16 \<Rightarrow> bool list res" where
  "Request_coilValues m index quantity = get_loop Request_coilValue_at m index (unat quantity)"

definition Request_setCoilValue_at :: "message \<Rightarrow> u16 \<Rightarrow> bool \<Rightarrow> message res" where
  "Request_setCoilValue_at m index value =
     (let bt = unat (index mod 8); index' = index div 8
      in and_then (Message_byte m (uint index' + 6)) (\<lambda>b.
         Message_setByte m (uint index' + 6) (put_bit b bt value)))"

definition Request_setCoilValues :: "message \<Rightarrow> u16 \<Rightarrow> u16 \<Rightarrow> bool list \<Rightarrow> message res" where
  "Request_setCoilValues m index quantity values =
     set_loop Request_setCoilValue_at m index (unat quantity) values"

section \<open>Bits of a byte\<close>

lemma get_bit_bit: "get_bit b n = bit b n"
proof -
  have "bit (b AND push_bit n 1) k \<longleftrightarrow> k = n \<and> bit b n" for k
    by (auto simp: bit_and_iff bit_push_bit_iff bit_1_iff simp del: push_bit_of_1
        dest: bit_imp_le_length)
  then have "b AND push_bit n 1 = 0 \<longleftrightarrow> \<not> bit b n"
    by (metis bit_0_eq bot_apply bot_bool_def bit_eqI)
  then show ?thesis by (simp only: get_bit_def simp_thms)
qed

lemma bit_put_bit: "n < 8 \<Longrightarrow> bit (put_bit b n v) k \<longleftrightarrow> (if k = n then v else bit b k)"
  by (auto simp: put_bit_def Let_def bit_and_iff bit_or_iff bit_not_iff bit_push_bit_iff bit_1_iff
      simp del: push_bit_of_1 dest: bit_imp_le_length)

text \<open>The bit number \<open>index\<close> of a bit field that starts at offset \<open>base\<close> of the PDU.\<close>

definition bit_at :: "int \<Rightarrow> message \<Rightarrow> u16 \<Rightarrow> bool res" where
  "bit_at base m index =
     and_then (Message_byte m (uint (index div 8) + base)) (\<lambda>b. Inr (bit b (unat (index mod 8))))"

definition set_bit_at :: "int \<Rightarrow> message \<Rightarrow> u16 \<Rightarrow> bool \<Rightarrow> message res" where
  "set_bit_at base m index v =
     and_then (Message_byte m (uint (index div 8) + base)) (\<lambda>b.
       Message_setByte m (uint (index div 8) + base) (put_bit b (unat (index mod 8)) v))"

lemma index_mod_8: "unat ((index :: u16) mod 8) < 8"
  by (simp add: unat_mod_distrib)

lemma index_split: "(i :: u16) div 8 = j div 8 \<Longrightarrow> i mod 8 = j mod 8 \<Longrightarrow> i = j"
  by (metis div_mult_mod_eq)

lemma set_bit_at_store: "word_store (bit_at base) (set_bit_at base)"
proof
  fix m m' :: message and i j :: u16 and v x :: bool
  show "bit_at base m' i = Inr v" if "set_bit_at base m i v = Inr m'"
    using that
    by (auto simp: bit_at_def set_bit_at_def and_then_eq_Inr msg_bytes.get_set bit_put_bit index_mod_8)
  show "bit_at base m' j = bit_at base m j" if s: "set_bit_at base m i v = Inr m'" and ne: "j \<noteq> i"
  proof (cases "j div 8 = i div 8")
    case True
    with ne have "unat (j mod 8) \<noteq> unat (i mod 8)"
      by (metis index_split unsigned_word_eqI)
    with s True show ?thesis
      by (auto simp: bit_at_def set_bit_at_def and_then_eq_Inr msg_bytes.get_set bit_put_bit index_mod_8)
  next
    case False
    then have "uint (j div 8) \<noteq> uint (i div 8)"
      by (simp only: uint_eq_iff not_False_eq_True)
    with s show ?thesis
      by (auto simp: bit_at_def set_bit_at_def and_then_eq_Inr msg_bytes.get_set)
  qed
  show "\<exists>m'. set_bit_at base m i v = Inr m'" if "bit_at base m i = Inr x"
    using that by (auto simp: bit_at_def set_bit_at_def and_then_eq_Inr msg_bytes.set_defined)
qed

section \<open>The accessors keep the laws\<close>

lemma Request_coilValue_at_bit: "Request_coilValue_at = bit_at 6"
  by (rule ext)+ (simp add: Request_coilValue_at_def bit_at_def get_bit_bit)

lemma Request_setCoilValue_at_bit: "Request_setCoilValue_at = set_bit_at 6"
  by (rule ext)+ (simp add: Request_setCoilValue_at_def set_bit_at_def Let_def)

lemma offset_apart:
  assumes "(i :: u16) \<noteq> j"
  shows "b + uint i * 2 + 1 < b + uint j * 2 \<or> b + uint j * 2 + 1 < b + uint i * 2"
proof -
  have "uint i \<noteq> uint j" using assms by (simp only: uint_eq_iff not_False_eq_True)
  then show ?thesis by linarith
qed

interpretation req_regs: word_store Request_registerValue_at Request_setRegisterValue_at
proof
  fix m m' :: message and i j v x :: u16
  show "Request_setRegisterValue_at m i v = Inr m' \<Longrightarrow> Request_registerValue_at m' i = Inr v"
    by (simp add: Request_setRegisterValue_at_def Request_registerValue_at_def setWord_same)
  show "Request_setRegisterValue_at m i v = Inr m' \<Longrightarrow> j \<noteq> i \<Longrightarrow>
      Request_registerValue_at m' j = Request_registerValue_at m j"
    using offset_apart [of j i 6]
    by (auto simp: Request_setRegisterValue_at_def Request_registerValue_at_def setWord_other)
  show "Request_registerValue_at m i = Inr x \<Longrightarrow> \<exists>m'. Request_setRegisterValue_at m i v = Inr m'"
    unfolding Request_setRegisterValue_at_def Request_registerValue_at_def setWord_defined
    by (metis word_defined)
qed

interpretation req_coils: word_store Request_coilValue_at Request_setCoilValue_at
  unfolding Request_coilValue_at_bit Request_setCoilValue_at_bit by (rule set_bit_at_store)

end
