(* ===== verification/Response_Model.thy ===== *)
theory Response_Model
  imports Request_Model
begin

text \<open>
  The class \<open>Response\<close> of \<open>src/response.cpp\<close>: registers at \<open>pdu[2 + 2 * index]\<close>, the exception
  reply, and bits. The bit accessors of the code count from \<open>pdu[0]\<close>, the function code, where
  the header file puts them from \<open>pdu[2]\<close> on: they keep the laws of an accessor, on the wrong
  bytes.
\<close>

section \<open>Operations\<close>

text \<open>A response made from a message: a copy of it with the response flag set.\<close>

definition Response_from :: "message \<Rightarrow> message" where
  "Response_from m = m\<lparr>isResponse := True\<rparr>"

definition Response_setByteCount :: "message \<Rightarrow> u8 \<Rightarrow> message res" where
  "Response_setByteCount m n = Message_setByte m 1 n"

definition Response_setRegisterValue :: "message \<Rightarrow> u16 \<Rightarrow> u16 \<Rightarrow> message res" where
  "Response_setRegisterValue m index value = Message_setWord m (2 + uint index * 2) value"

definition Response_setRegisterValues :: "message \<Rightarrow> u16 \<Rightarrow> u16 \<Rightarrow> u16 list \<Rightarrow> message res" where
  "Response_setRegisterValues m index quantity values =
     set_loop Response_setRegisterValue m index (unat quantity) values"

definition Response_setBitValue :: "message \<Rightarrow> u16 \<Rightarrow> bool \<Rightarrow> message res" where
  "Response_setBitValue m index value =
     (let bt = unat (index mod 8); index' = index div 8
      in and_then (Message_byte m (uint index')) (\<lambda>b.
         Message_setByte m (uint index') (put_bit b bt value)))"

definition Response_setBitValues :: "message \<Rightarrow> u16 \<Rightarrow> u16 \<Rightarrow> bool list \<Rightarrow> message res" where
  "Response_setBitValues m index quantity values =
     set_loop Response_setBitValue m index (unat quantity) values"

text \<open>\<open>function() | ExceptionFlag\<close> on the value of the enumeration.\<close>

definition Response_setExceptionCode :: "message \<Rightarrow> u8 \<Rightarrow> message res" where
  "Response_setExceptionCode m code =
     and_then (Message_function m) (\<lambda>f.
     and_then (Message_setFunction m (function_of_byte (byte_of_function f OR ExceptionFlag))) (\<lambda>m'.
     Message_setByte m' 1 code))"

definition Response_exceptionCode :: "message \<Rightarrow> u8 res" where
  "Response_exceptionCode m = Message_byte m 1"

definition Response_registerValue :: "message \<Rightarrow> u16 \<Rightarrow> u16 res" where
  "Response_registerValue m index = Message_word m (2 + uint index * 2)"

definition Response_registerValues :: "message \<Rightarrow> u16 \<Rightarrow> u16 \<Rightarrow> u16 list res" where
  "Response_registerValues m index quantity = get_loop Response_registerValue m index (unat quantity)"

definition Response_bitValue :: "message \<Rightarrow> u16 \<Rightarrow> bool res" where
  "Response_bitValue m index =
     (let bt = unat (index mod 8); index' = index div 8
      in and_then (Message_byte m (uint index')) (\<lambda>b. Inr (get_bit b bt)))"

definition Response_bitValues :: "message \<Rightarrow> u16 \<Rightarrow> u16 \<Rightarrow> bool list res" where
  "Response_bitValues m index quantity = get_loop Response_bitValue m index (unat quantity)"

section \<open>The accessors keep the laws\<close>

lemma Response_bitValue_bit: "Response_bitValue = bit_at 0"
  by (rule ext)+ (simp add: Response_bitValue_def bit_at_def get_bit_bit)

lemma Response_setBitValue_bit: "Response_setBitValue = set_bit_at 0"
  by (rule ext)+ (simp add: Response_setBitValue_def set_bit_at_def Let_def)

interpretation rsp_regs: word_store Response_registerValue Response_setRegisterValue
proof
  fix m m' :: message and i j v x :: u16
  show "Response_setRegisterValue m i v = Inr m' \<Longrightarrow> Response_registerValue m' i = Inr v"
    by (simp add: Response_setRegisterValue_def Response_registerValue_def setWord_same)
  show "Response_setRegisterValue m i v = Inr m' \<Longrightarrow> j \<noteq> i \<Longrightarrow>
      Response_registerValue m' j = Response_registerValue m j"
    using offset_apart [of j i 2]
    by (auto simp: Response_setRegisterValue_def Response_registerValue_def setWord_other)
  show "Response_registerValue m i = Inr x \<Longrightarrow> \<exists>m'. Response_setRegisterValue m i v = Inr m'"
    unfolding Response_setRegisterValue_def Response_registerValue_def setWord_defined
    by (metis word_defined)
qed

interpretation rsp_bits: word_store Response_bitValue Response_setBitValue
  unfolding Response_bitValue_bit Response_setBitValue_bit by (rule set_bit_at_store)

end
