(* ===== verification/Message_Ranges.thy ===== *)
theory Message_Ranges
  imports Response_Model
begin

text \<open>
  What the range accessors of requests and responses mean for the message around them: which
  bytes they may change, when they succeed, and that what was stored is read back.
\<close>

section \<open>Where a range lies\<close>

lemma span_bound: "j \<in> span index n \<Longrightarrow> uint j < uint index + int n"
proof -
  assume "j \<in> span index n"
  then obtain i where i: "i < n" "j = index + of_nat i" by (auto simp: span_def)
  have "unat j = (unat index + take_bit 16 i) mod 65536"
    by (simp add: i(2) unat_word_ariths(1) unsigned_of_nat)
  also have "\<dots> \<le> unat index + take_bit 16 i" by (rule mod_less_eq_dividend)
  also have "\<dots> \<le> unat index + i" by (rule add_left_mono [OF take_bit_nat_less_eq_self])
  finally have "unat j \<le> unat index + i" .
  then have "int (unat j) < int (unat index) + int n" using i(1) by linarith
  then show ?thesis by simp
qed

lemma count_le: "unat (q :: u16) \<le> 65536"
  using unsigned_less [of q, where ?'a = nat] by simp

lemma set_loop_keeps:
  assumes "\<And>s i v s'. put s i v = Inr s' \<Longrightarrow> f s' = f s"
  shows "set_loop put s index n vs = Inr s' \<Longrightarrow> f s' = f s"
proof (induction n arbitrary: s index vs)
  case (Suc n)
  then show ?case by (cases vs) (auto simp: and_then_eq_Inr dest: assms)
qed simp

text \<open>The bytes before the payload stay as they are.\<close>

lemma set_register_front:
  assumes "Message_setWord m (base + uint (i :: u16) * 2) v = Inr m'" and "j < base"
  shows "Message_byte m' j = Message_byte m j"
proof -
  have "0 \<le> uint i" by simp
  with assms(2) have "j \<noteq> base + uint i * 2" "j \<noteq> base + uint i * 2 + 1" by linarith+
  then show ?thesis using setWord_byte [OF assms(1)] by simp
qed

lemma set_bit_front:
  assumes "set_bit_at base m i v = Inr m'" and "j < base"
  shows "Message_byte m' j = Message_byte m j"
proof -
  have "0 \<le> uint (i div 8)" by simp
  with assms(2) have "j \<noteq> uint (i div 8) + base" by linarith
  then show ?thesis using assms(1) by (auto simp: set_bit_at_def and_then_eq_Inr msg_bytes.get_set)
qed

section \<open>When a range is in the buffer\<close>

lemma register_defined:
  assumes "in_buf m base (2 * (uint index + int n))" and "0 \<le> base" and "0 \<le> pduBegin m" and "j \<in> span index n"
  shows "\<exists>x. Message_word m (base + uint j * 2) = Inr x"
proof -
  have "0 \<le> uint j" by simp
  then have "in_buf m (base + uint j * 2) 2"
    using assms(1,2,3) span_bound [OF assms(4)] unfolding in_buf_def by presburger
  then show ?thesis by (simp add: word_defined)
qed

lemma bit_defined:
  assumes "in_buf m base ((uint index + int n + 7) div 8)" and "0 \<le> base" and "0 \<le> pduBegin m" and "j \<in> span index n"
  shows "\<exists>x. bit_at base m j = Inr x"
proof -
  have d: "uint (j div 8) = uint j div 8" by (simp add: uint_div)
  have "(uint j + 8) div 8 \<le> (uint index + int n + 7) div 8"
    using span_bound [OF assms(4)] by (intro zdiv_mono1) simp_all
  then have "uint j div 8 + 1 \<le> (uint index + int n + 7) div 8" by simp
  moreover have "0 \<le> uint j div 8" by (simp add: pos_imp_zdiv_nonneg_iff)
  ultimately have "in_buf m (uint (j div 8) + base) 1"
    using assms(1,2,3) unfolding in_buf_def d by linarith
  then show ?thesis by (auto simp: bit_at_def simp flip: byte_defined)
qed

section \<open>Requests\<close>

lemma request_registers_range:
  assumes "0 \<le> pduBegin m" and "unat q \<le> length vs" and "in_buf m 6 (2 * (uint i + uint q))"
  shows "\<exists>m'. Request_setRegisterValues m i q vs = Inr m' \<and>
    Request_registerValues m' i q = Inr (take (unat q) vs) \<and>
    (\<forall>j. j \<notin> span i (unat q) \<longrightarrow> Request_registerValue_at m' j = Request_registerValue_at m j) \<and>
    (\<forall>j < 6. Message_byte m' j = Message_byte m j)"
proof -
  have "\<exists>x. Request_registerValue_at m j = Inr x" if "j \<in> span i (unat q)" for j
    unfolding Request_registerValue_at_def using assms(1,3) that
    by (intro register_defined [where index = i and n = "unat q"]) simp_all
  then obtain m' where m': "set_loop Request_setRegisterValue_at m i (unat q) vs = Inr m'"
    using req_regs.set_loop_defined [of i "unat q" m vs] assms(2) by blast
  have "Message_byte m' j = Message_byte m j" if "j < 6" for j
    by (rule set_loop_keeps [OF _ m', where f = "\<lambda>m. Message_byte m j"])
      (auto simp: Request_setRegisterValue_at_def intro: set_register_front that)
  then show ?thesis
    using m' req_regs.get_loop_set_loop [OF m' count_le] req_regs.set_loop_other [OF m']
    by (simp add: Request_setRegisterValues_def Request_registerValues_def)
qed

lemma request_coils_range:
  assumes "0 \<le> pduBegin m" and "unat q \<le> length vs" and "in_buf m 6 ((uint i + uint q + 7) div 8)"
  shows "\<exists>m'. Request_setCoilValues m i q vs = Inr m' \<and>
    Request_coilValues m' i q = Inr (take (unat q) vs) \<and>
    (\<forall>j. j \<notin> span i (unat q) \<longrightarrow> Request_coilValue_at m' j = Request_coilValue_at m j) \<and>
    (\<forall>j < 6. Message_byte m' j = Message_byte m j)"
proof -
  have "\<exists>x. Request_coilValue_at m j = Inr x" if "j \<in> span i (unat q)" for j
    unfolding Request_coilValue_at_bit using assms(1,3) that
    by (intro bit_defined [where index = i and n = "unat q"]) simp_all
  then obtain m' where m': "set_loop Request_setCoilValue_at m i (unat q) vs = Inr m'"
    using req_coils.set_loop_defined [of i "unat q" m vs] assms(2) by blast
  have "Message_byte m' j = Message_byte m j" if "j < 6" for j
    by (rule set_loop_keeps [OF _ m', where f = "\<lambda>m. Message_byte m j"])
      (auto simp: Request_setCoilValue_at_bit intro: set_bit_front that)
  then show ?thesis
    using m' req_coils.get_loop_set_loop [OF m' count_le] req_coils.set_loop_other [OF m']
    by (simp add: Request_setCoilValues_def Request_coilValues_def)
qed

text \<open>A message of 260 bytes with the header of a TCP frame.\<close>

definition sample_range :: message where
  "sample_range = \<lparr>net = Tcp, pduBegin = 7, aduSize = 8, maxAduLength = 260, isResponse = False, backend = False,
     transactionId = 1, adu = replicate 260 1\<rparr>"

text \<open>C20. A request for several registers or several coils is filled and read by the same
  accessors: when the range fits in the buffer and there are enough values, \<open>setRegisterValues\<close>
  and \<open>setCoilValues\<close> succeed, the values are read back from the new message, every other
  register or coil and the six bytes of the request before them keep their value.
\<close>

theorem request_values_round_trip:
  assumes "0 \<le> pduBegin m" and "unat q \<le> length regs" and "unat n \<le> length coils"
    and "in_buf m 6 (2 * (uint i + uint q))" and "in_buf m 6 ((uint k + uint n + 7) div 8)"
  shows "\<exists>m1 m2. Request_setRegisterValues m i q regs = Inr m1 \<and> Request_setCoilValues m k n coils = Inr m2 \<and>
    Request_registerValues m1 i q = Inr (take (unat q) regs) \<and> Request_coilValues m2 k n = Inr (take (unat n) coils) \<and>
    (\<forall>j. j \<notin> span i (unat q) \<longrightarrow> Request_registerValue_at m1 j = Request_registerValue_at m j) \<and>
    (\<forall>j. j \<notin> span k (unat n) \<longrightarrow> Request_coilValue_at m2 j = Request_coilValue_at m j) \<and>
    (\<forall>j < 6. Message_byte m1 j = Message_byte m j \<and> Message_byte m2 j = Message_byte m j)"
  using request_registers_range [OF assms(1,2,4)] request_coils_range [OF assms(1,3,5)] by blast

theorem request_values_round_trip_witness:
  "\<exists>m1 m2. Request_setRegisterValues sample_range 2 3 [7, 8, 9] = Inr m1 \<and> Request_setCoilValues sample_range 5 4 [True, False, False, True] = Inr m2 \<and>
     Request_registerValues m1 2 3 = Inr [7, 8, 9] \<and> Request_coilValues m2 5 4 = Inr [True, False, False, True]"
  using request_values_round_trip [of sample_range 3 "[7, 8, 9]" 4 "[True, False, False, True]" 2 5]
  by (auto simp: sample_range_def in_buf_def)

section \<open>Responses\<close>

lemma unat_numeral_8: "unat (8 :: u16) = 8"
  by simp

lemma eight_bits: "(i :: u16) < 8 \<Longrightarrow> i div 8 = 0 \<and> unat (i mod 8) = unat i \<and> unat i < 8"
proof -
  assume "i < 8"
  then have "unat i < 8" by (simp add: word_less_nat_alt)
  then have "unat (i div 8) = unat 0" "unat (i mod 8) = unat i"
    by (simp_all only: unat_div_distrib unat_mod_distrib unat_numeral_8 unat_0 div_less mod_less)
  then show ?thesis using \<open>unat i < 8\<close> by (metis unsigned_word_eqI)
qed

text \<open>C38. The bits of a response overlap its function code: whatever the answer holds from \<open>pdu[2]\<close>
  on, the first eight bits read from an answer to \<open>ReadCoils\<close> are those of the number 1, and
  setting one of these bits to another value changes the function code and not the data.
\<close>

theorem response_bits_hit_function_code:
  assumes "Message_byte m 0 = Inr 1"
  shows "Response_bitValues m 0 8 = Inr [True, False, False, False, False, False, False, False] \<and>
    (\<forall>i < 8. \<forall>v. v \<noteq> (i = 0) \<longrightarrow> (\<exists>m' b. Response_setBitValue m i v = Inr m' \<and>
       Message_byte m' 0 = Inr b \<and> b \<noteq> 1 \<and> (\<forall>j > 0. Message_byte m' j = Message_byte m j)))"
proof (intro conjI allI impI)
  have "bit_at 0 m i = Inr (i = 0)" if "i < 8" for i
    using assms eight_bits [OF that] by (simp add: bit_at_def bit_1_iff unat_eq_zero)
  moreover have "unat (8 :: u16) = Suc (Suc (Suc (Suc (Suc (Suc (Suc (Suc 0)))))))" by simp
  ultimately show "Response_bitValues m 0 8 = Inr [True, False, False, False, False, False, False, False]"
    unfolding Response_bitValues_def Response_bitValue_bit by (simp only:) simp
next
  fix i :: u16 and v
  assume i: "i < 8" and v: "v \<noteq> (i = 0)"
  let ?b = "put_bit 1 (unat i) v"
  obtain m' where m': "Message_setByte m 0 ?b = Inr m'"
    using msg_bytes.set_defined [OF assms] by blast
  have "bit ?b (unat i) = v" using eight_bits [OF i] by (simp add: bit_put_bit)
  then have "?b \<noteq> 1" using v by (auto simp: bit_1_iff unat_eq_zero)
  then show "\<exists>m' b. Response_setBitValue m i v = Inr m' \<and> Message_byte m' 0 = Inr b \<and> b \<noteq> 1 \<and>
      (\<forall>j > 0. Message_byte m' j = Message_byte m j)"
    using m' assms eight_bits [OF i]
    by (auto simp: Response_setBitValue_bit set_bit_at_def msg_bytes.get_set)
qed

theorem response_bits_hit_function_code_witness:
  "Response_bitValues sample_range 0 8 = Inr [True, False, False, False, False, False, False, False]"
  using response_bits_hit_function_code [of sample_range]
  by (simp add: sample_range_def Message_byte_def vget_def)

end
