(* ===== verification/Crc16.thy ===== *)
theory Crc16
  imports Prelude
begin

text \<open>
  The CRC of a Modbus RTU frame: the two lookup tables of \<open>src/rtulayer.cpp\<close> and the loop of
  \<open>RtuLayer::crc16\<close>, the bitwise CRC-16 (polynomial \<open>0xA001\<close>, reflected) as the reference,
  the proof that the table loop computes it, the zero residue of a frame that carries its own
  CRC, and the detection of every corruption confined to two consecutive bytes.
\<close>

section \<open>The tables and the loop of the code\<close>

definition CrcHiTable :: "u8 list" where
  "CrcHiTable = [
    0x00, 0xC1, 0x81, 0x40, 0x01, 0xC0, 0x80, 0x41, 0x01, 0xC0, 0x80, 0x41, 0x00, 0xC1, 0x81, 0x40,
    0x01, 0xC0, 0x80, 0x41, 0x00, 0xC1, 0x81, 0x40, 0x00, 0xC1, 0x81, 0x40, 0x01, 0xC0, 0x80, 0x41,
    0x01, 0xC0, 0x80, 0x41, 0x00, 0xC1, 0x81, 0x40, 0x00, 0xC1, 0x81, 0x40, 0x01, 0xC0, 0x80, 0x41,
    0x00, 0xC1, 0x81, 0x40, 0x01, 0xC0, 0x80, 0x41, 0x01, 0xC0, 0x80, 0x41, 0x00, 0xC1, 0x81, 0x40,
    0x01, 0xC0, 0x80, 0x41, 0x00, 0xC1, 0x81, 0x40, 0x00, 0xC1, 0x81, 0x40, 0x01, 0xC0, 0x80, 0x41,
    0x00, 0xC1, 0x81, 0x40, 0x01, 0xC0, 0x80, 0x41, 0x01, 0xC0, 0x80, 0x41, 0x00, 0xC1, 0x81, 0x40,
    0x00, 0xC1, 0x81, 0x40, 0x01, 0xC0, 0x80, 0x41, 0x01, 0xC0, 0x80, 0x41, 0x00, 0xC1, 0x81, 0x40,
    0x01, 0xC0, 0x80, 0x41, 0x00, 0xC1, 0x81, 0x40, 0x00, 0xC1, 0x81, 0x40, 0x01, 0xC0, 0x80, 0x41,
    0x01, 0xC0, 0x80, 0x41, 0x00, 0xC1, 0x81, 0x40, 0x00, 0xC1, 0x81, 0x40, 0x01, 0xC0, 0x80, 0x41,
    0x00, 0xC1, 0x81, 0x40, 0x01, 0xC0, 0x80, 0x41, 0x01, 0xC0, 0x80, 0x41, 0x00, 0xC1, 0x81, 0x40,
    0x00, 0xC1, 0x81, 0x40, 0x01, 0xC0, 0x80, 0x41, 0x01, 0xC0, 0x80, 0x41, 0x00, 0xC1, 0x81, 0x40,
    0x01, 0xC0, 0x80, 0x41, 0x00, 0xC1, 0x81, 0x40, 0x00, 0xC1, 0x81, 0x40, 0x01, 0xC0, 0x80, 0x41,
    0x00, 0xC1, 0x81, 0x40, 0x01, 0xC0, 0x80, 0x41, 0x01, 0xC0, 0x80, 0x41, 0x00, 0xC1, 0x81, 0x40,
    0x01, 0xC0, 0x80, 0x41, 0x00, 0xC1, 0x81, 0x40, 0x00, 0xC1, 0x81, 0x40, 0x01, 0xC0, 0x80, 0x41,
    0x01, 0xC0, 0x80, 0x41, 0x00, 0xC1, 0x81, 0x40, 0x00, 0xC1, 0x81, 0x40, 0x01, 0xC0, 0x80, 0x41,
    0x00, 0xC1, 0x81, 0x40, 0x01, 0xC0, 0x80, 0x41, 0x01, 0xC0, 0x80, 0x41, 0x00, 0xC1, 0x81, 0x40
  ]"

definition CrcLoTable :: "u8 list" where
  "CrcLoTable = [
    0x00, 0xC0, 0xC1, 0x01, 0xC3, 0x03, 0x02, 0xC2, 0xC6, 0x06, 0x07, 0xC7, 0x05, 0xC5, 0xC4, 0x04,
    0xCC, 0x0C, 0x0D, 0xCD, 0x0F, 0xCF, 0xCE, 0x0E, 0x0A, 0xCA, 0xCB, 0x0B, 0xC9, 0x09, 0x08, 0xC8,
    0xD8, 0x18, 0x19, 0xD9, 0x1B, 0xDB, 0xDA, 0x1A, 0x1E, 0xDE, 0xDF, 0x1F, 0xDD, 0x1D, 0x1C, 0xDC,
    0x14, 0xD4, 0xD5, 0x15, 0xD7, 0x17, 0x16, 0xD6, 0xD2, 0x12, 0x13, 0xD3, 0x11, 0xD1, 0xD0, 0x10,
    0xF0, 0x30, 0x31, 0xF1, 0x33, 0xF3, 0xF2, 0x32, 0x36, 0xF6, 0xF7, 0x37, 0xF5, 0x35, 0x34, 0xF4,
    0x3C, 0xFC, 0xFD, 0x3D, 0xFF, 0x3F, 0x3E, 0xFE, 0xFA, 0x3A, 0x3B, 0xFB, 0x39, 0xF9, 0xF8, 0x38,
    0x28, 0xE8, 0xE9, 0x29, 0xEB, 0x2B, 0x2A, 0xEA, 0xEE, 0x2E, 0x2F, 0xEF, 0x2D, 0xED, 0xEC, 0x2C,
    0xE4, 0x24, 0x25, 0xE5, 0x27, 0xE7, 0xE6, 0x26, 0x22, 0xE2, 0xE3, 0x23, 0xE1, 0x21, 0x20, 0xE0,
    0xA0, 0x60, 0x61, 0xA1, 0x63, 0xA3, 0xA2, 0x62, 0x66, 0xA6, 0xA7, 0x67, 0xA5, 0x65, 0x64, 0xA4,
    0x6C, 0xAC, 0xAD, 0x6D, 0xAF, 0x6F, 0x6E, 0xAE, 0xAA, 0x6A, 0x6B, 0xAB, 0x69, 0xA9, 0xA8, 0x68,
    0x78, 0xB8, 0xB9, 0x79, 0xBB, 0x7B, 0x7A, 0xBA, 0xBE, 0x7E, 0x7F, 0xBF, 0x7D, 0xBD, 0xBC, 0x7C,
    0xB4, 0x74, 0x75, 0xB5, 0x77, 0xB7, 0xB6, 0x76, 0x72, 0xB2, 0xB3, 0x73, 0xB1, 0x71, 0x70, 0xB0,
    0x50, 0x90, 0x91, 0x51, 0x93, 0x53, 0x52, 0x92, 0x96, 0x56, 0x57, 0x97, 0x55, 0x95, 0x94, 0x54,
    0x9C, 0x5C, 0x5D, 0x9D, 0x5F, 0x9F, 0x9E, 0x5E, 0x5A, 0x9A, 0x9B, 0x5B, 0x99, 0x59, 0x58, 0x98,
    0x88, 0x48, 0x49, 0x89, 0x4B, 0x8B, 0x8A, 0x4A, 0x4E, 0x8E, 0x8F, 0x4F, 0x8D, 0x4D, 0x4C, 0x8C,
    0x44, 0x84, 0x85, 0x45, 0x87, 0x47, 0x46, 0x86, 0x82, 0x42, 0x43, 0x83, 0x41, 0x81, 0x80, 0x40
  ]"

text \<open>
  \<open>while (count--)\<close>, with \<open>crcHi\<close> and \<open>crcLo\<close> as the loop's state; \<open>*buf++\<close> beyond the
  buffer is undefined behaviour. The index \<open>crcHi ^ *buf++\<close> is at most 255, within the tables.
\<close>

fun crc16_loop :: "u8 \<Rightarrow> u8 \<Rightarrow> u8 list \<Rightarrow> nat \<Rightarrow> (u8 \<times> u8) res" where
  "crc16_loop crcHi crcLo buf 0 = Inr (crcHi, crcLo)"
| "crc16_loop crcHi crcLo [] (Suc count) = Inl Undefined_behaviour"
| "crc16_loop crcHi crcLo (b # buf) (Suc count) =
     (let i = unat (crcHi XOR b)
      in crc16_loop (crcLo XOR CrcHiTable ! i) (CrcLoTable ! i) buf count)"

definition crc16 :: "u8 list \<Rightarrow> u16 \<Rightarrow> u16 res" where
  "crc16 buf count =
     and_then (crc16_loop 0xFF 0xFF buf (unat count))
       (\<lambda>(crcHi, crcLo). Inr (push_bit 8 (ucast crcHi) OR ucast crcLo))"

section \<open>The bitwise reference\<close>

definition crc_bit :: "u16 \<Rightarrow> u16" where
  "crc_bit c = (if c AND 1 = 1 then drop_bit 1 c XOR 0xA001 else drop_bit 1 c)"

definition crc_shift8 :: "u16 \<Rightarrow> u16" where
  "crc_shift8 c = crc_bit (crc_bit (crc_bit (crc_bit (crc_bit (crc_bit (crc_bit (crc_bit c)))))))"

definition crc_step :: "u16 \<Rightarrow> u8 \<Rightarrow> u16" where
  "crc_step c b = crc_shift8 (c XOR ucast b)"

definition crc_ref :: "u8 list \<Rightarrow> u16" where
  "crc_ref bs = foldl crc_step 0xFFFF bs"

text \<open>The register of the reference, as the code keeps it: the low byte in \<open>crcHi\<close> (it goes
  first on the wire), the high byte in \<open>crcLo\<close>.\<close>

definition crc_table :: "u8 \<Rightarrow> u16" where
  "crc_table i = word_be (CrcLoTable ! unat i) (CrcHiTable ! unat i)"

section \<open>The reference is linear and injective\<close>

lemma crc_bit_alt: "crc_bit c = (if bit c 0 then drop_bit 1 c XOR 0xA001 else drop_bit 1 c)"
  by (simp add: crc_bit_def and_one_eq bit_0 odd_iff_mod_2_eq_one)

lemma crc_bit_xor: "crc_bit (a XOR b) = crc_bit a XOR crc_bit b"
  by (simp add: crc_bit_alt bit_xor_iff xor.assoc xor.left_commute xor.commute)

lemma crc_shift8_xor: "crc_shift8 (a XOR b) = crc_shift8 a XOR crc_shift8 b"
  by (simp add: crc_shift8_def crc_bit_xor)

lemma crc_bit_even: "\<not> bit c 0 \<Longrightarrow> crc_bit c = drop_bit 1 c"
  by (simp add: crc_bit_alt)

lemma crc_shift8_high: "crc_shift8 (word_be h 0) = word_be 0 h"
proof -
  have "crc_shift8 (word_be h 0) = drop_bit 8 (word_be h 0)"
    by (simp add: crc_shift8_def crc_bit_even bit_drop_bit_eq bit_word_be numeral_eq_Suc)
  also have "\<dots> = word_be 0 h"
    by (rule bit_word_eqI) (auto simp: bit_drop_bit_eq bit_word_be dest: bit_imp_le_length)
  finally show ?thesis .
qed

lemma crc_shift8_split: "crc_shift8 (word_be h l) = word_be 0 h XOR crc_shift8 (ucast l)"
proof -
  have "word_be h l = word_be h 0 XOR ucast l"
    by (simp add: ucast_word_be word_be_xor)
  then show ?thesis
    by (simp add: crc_shift8_xor crc_shift8_high)
qed

lemma crc_bit_top: "bit (crc_bit c) 15 \<longleftrightarrow> bit c 0"
proof -
  have "\<not> bit c 16" by (auto dest: bit_imp_le_length)
  moreover have "bit (0xA001 :: u16) 15" by simp
  ultimately show ?thesis
    by (simp add: crc_bit_alt bit_xor_iff bit_drop_bit_eq)
qed

lemma xor_cancel_right: "a XOR c = b XOR c \<longleftrightarrow> a = (b :: 'a :: len word)"
  by (metis xor.assoc xor.right_neutral xor_self_eq)

lemma xor_cancel_left: "c XOR a = c XOR b \<longleftrightarrow> a = (b :: 'a :: len word)"
  by (metis xor.commute xor_cancel_right)

lemma crc_bit_inject: "crc_bit a = crc_bit b \<longleftrightarrow> a = b"
proof
  assume eq: "crc_bit a = crc_bit b"
  then have zero: "bit a 0 = bit b 0"
    by (metis crc_bit_top)
  with eq have "drop_bit 1 a = drop_bit 1 b"
    by (auto simp: crc_bit_alt xor_cancel_right split: if_splits)
  then have "bit a (Suc n) = bit b (Suc n)" for n
    by (metis bit_drop_bit_eq comp_apply plus_1_eq_Suc)
  with zero show "a = b"
    by (intro bit_word_eqI) (metis not0_implies_Suc)
qed simp

lemma crc_shift8_inject: "crc_shift8 a = crc_shift8 b \<longleftrightarrow> a = b"
  by (simp add: crc_shift8_def crc_bit_inject)

lemma crc_step_inject: "crc_step a b = crc_step a' b \<longleftrightarrow> a = a'"
  by (simp add: crc_step_def crc_shift8_inject xor_cancel_right)

lemma foldl_crc_step_inject:
  "foldl crc_step a bs = foldl crc_step a' bs \<longleftrightarrow> a = a'"
  by (induction bs arbitrary: a a') (simp_all add: crc_step_inject)

lemma crc_step_word_be: "crc_step (word_be h l) b = word_be 0 h XOR crc_shift8 (ucast (l XOR b))"
proof -
  have "word_be h l XOR ucast b = word_be h (l XOR b)"
    by (simp add: ucast_word_be word_be_xor)
  then show ?thesis
    by (simp add: crc_step_def crc_shift8_split)
qed

section \<open>The loop computes the reference\<close>

lemma upt_256: "[0..<256] = 0 # 1 # [2..<256::nat]"
  by (simp add: upt_conv_Cons numeral_2_eq_2)

lemma crc_tables_checked:
  "map (crc_shift8 \<circ> word_of_nat) [0..<256] = map2 word_be CrcLoTable CrcHiTable"
  unfolding upt_256
  by (simp add: upt_rec_numeral crc_shift8_def crc_bit_def word_be_def
      CrcLoTable_def CrcHiTable_def)

lemma crc_tables_length: "length CrcLoTable = 256" "length CrcHiTable = 256"
  by (simp_all add: CrcLoTable_def CrcHiTable_def)

lemma crc_shift8_table: "crc_shift8 (ucast i) = crc_table i"
proof -
  have "map (crc_shift8 \<circ> word_of_nat) [0..<256] ! unat i
      = map2 word_be CrcLoTable CrcHiTable ! unat i"
    by (simp only: crc_tables_checked)
  then show ?thesis
    using u8_less [of i] by (simp add: crc_table_def crc_tables_length)
qed

lemma crc_step_table:
  "crc_step (word_be lo hi) b =
     word_be (CrcLoTable ! unat (hi XOR b)) (lo XOR CrcHiTable ! unat (hi XOR b))"
  by (simp add: crc_step_word_be crc_shift8_table crc_table_def word_be_xor)

lemma crc16_loop_ref:
  "n \<le> length buf \<Longrightarrow>
   (\<exists>hi' lo'. crc16_loop hi lo buf n = Inr (hi', lo') \<and>
      word_be lo' hi' = foldl crc_step (word_be lo hi) (take n buf))"
proof (induction hi lo buf n rule: crc16_loop.induct)
  case (3 hi lo b buf n)
  then show ?case
    by (simp add: Let_def crc_step_table)
qed simp_all

text \<open>The register with its bytes exchanged: the value \<open>crc16\<close> returns, high byte first on
  the wire.\<close>

definition crc_wire :: "u8 list \<Rightarrow> u16" where
  "crc_wire bs = word_be (lo_byte (crc_ref bs)) (hi_byte (crc_ref bs))"

lemma crc16_wire:
  assumes "unat count \<le> length buf"
  shows "crc16 buf count = Inr (crc_wire (take (unat count) buf))"
proof -
  have init: "word_be 0xFF 0xFF = 0xFFFF"
    by (simp add: word_be_def)
  obtain hi lo where loop: "crc16_loop 0xFF 0xFF buf (unat count) = Inr (hi, lo)"
    and reg: "word_be lo hi = crc_ref (take (unat count) buf)"
    using crc16_loop_ref [OF assms, of "0xFF" "0xFF"] by (auto simp: crc_ref_def init)
  have "crc_wire (take (unat count) buf) = word_be hi lo"
    by (simp add: crc_wire_def flip: reg)
  then show ?thesis
    by (simp add: crc16_def loop word_be_or)
qed

lemma crc16_take:
  "n < 65536 \<Longrightarrow> n \<le> length buf \<Longrightarrow> crc16 buf (of_nat n) = Inr (crc_wire (take n buf))"
  using crc16_wire [of "of_nat n" buf] by (simp add: unat_of_nat)

lemma crc_wire_0_iff: "crc_wire bs = 0 \<longleftrightarrow> crc_ref bs = 0"
proof -
  have "crc_ref bs = word_be (hi_byte (crc_ref bs)) (lo_byte (crc_ref bs))" by simp
  then have "crc_ref bs = 0 \<longleftrightarrow> hi_byte (crc_ref bs) = 0 \<and> lo_byte (crc_ref bs) = 0"
    by (metis word_be_0 word_be_inject)
  moreover have "crc_wire bs = 0 \<longleftrightarrow> hi_byte (crc_ref bs) = 0 \<and> lo_byte (crc_ref bs) = 0"
    unfolding crc_wire_def by (metis word_be_0 word_be_inject)
  ultimately show ?thesis by simp
qed

lemma crc16_overrun: "length buf < unat count \<Longrightarrow> crc16 buf count = Inl Undefined_behaviour"
proof -
  have "length buf < n \<Longrightarrow> crc16_loop hi lo buf n = Inl Undefined_behaviour" for n hi lo
    by (induction hi lo buf n rule: crc16_loop.induct) (simp_all add: Let_def)
  then show "length buf < unat count \<Longrightarrow> ?thesis"
    by (simp add: crc16_def)
qed

section \<open>Residue and error detection\<close>

lemma crc_ref_append: "crc_ref (xs @ ys) = foldl crc_step (crc_ref xs) ys"
  by (simp add: crc_ref_def)

lemma crc_ref_zero_residue:
  "crc_ref (bs @ [lo_byte (crc_ref bs), hi_byte (crc_ref bs)]) = 0"
proof -
  have zero: "crc_shift8 0 = 0"
    using crc_shift8_table [of 0] by (simp add: crc_shift8_def crc_bit_def)
  have step: "crc_step (word_be h l) l = word_be 0 h" for h l
    by (simp add: crc_step_word_be zero)
  have "crc_step (crc_step (word_be h l) l) h = 0" for h l
    using step [of 0 h] by (simp add: step)
  from this [of "hi_byte (crc_ref bs)" "lo_byte (crc_ref bs)"]
  show ?thesis
    by (simp add: crc_ref_append)
qed

lemma crc_wire_bytes:
  "hi_byte (crc_wire bs) = lo_byte (crc_ref bs)" "lo_byte (crc_wire bs) = hi_byte (crc_ref bs)"
  by (simp_all add: crc_wire_def)

lemma crc_two_bytes_inject:
  assumes "crc_step (crc_step c a) b = crc_step (crc_step c a') b'"
  shows "a = a' \<and> b = b'"
proof -
  have two: "crc_step (crc_step (word_be h l) a) b =
      crc_shift8 (crc_shift8 (word_be (h XOR b) (l XOR a)))" for h l a b
  proof -
    have "crc_step (crc_step (word_be h l) a) b
        = crc_shift8 (crc_shift8 (word_be h l XOR ucast a) XOR crc_shift8 (word_be b 0))"
      by (simp add: crc_step_def crc_shift8_high ucast_word_be)
    also have "\<dots> = crc_shift8 (crc_shift8 (word_be (h XOR b) (l XOR a)))"
      by (simp add: ucast_word_be word_be_xor flip: crc_shift8_xor)
    finally show ?thesis .
  qed
  obtain h l where c: "c = word_be h l"
    by (metis word_be_split)
  show ?thesis
    using assms by (simp add: c two crc_shift8_inject word_be_inject xor_cancel_left)
qed

lemma crc_ref_burst:
  assumes "length bad = length good" and "length good \<le> 2" and "bad \<noteq> good"
  shows "crc_ref (pre @ bad @ post) \<noteq> crc_ref (pre @ good @ post)"
proof -
  have "foldl crc_step c bad \<noteq> foldl crc_step c good" for c
  proof -
    consider "good = []" | x where "good = [x]" | x y where "good = [x, y]"
      using assms(2) by (cases good rule: remdups_adj.cases) auto
    then show ?thesis
    proof cases
      case 1
      then show ?thesis using assms by simp
    next
      case 2
      with assms obtain x' where "bad = [x']" "x' \<noteq> x"
        by (auto simp: length_Suc_conv)
      with 2 show ?thesis
        using crc_two_bytes_inject [of c x' 0 x 0] by auto
    next
      case 3
      with assms obtain x' y' where "bad = [x', y']" "x' \<noteq> x \<or> y' \<noteq> y"
        by (auto simp: length_Suc_conv)
      with 3 show ?thesis
        using crc_two_bytes_inject [of c x' y' x y] by auto
    qed
  qed
  then show ?thesis
    by (simp add: crc_ref_append foldl_crc_step_inject)
qed

section \<open>Properties\<close>

text \<open>C1. The table-driven loop of \<open>RtuLayer::crc16\<close> computes the bitwise CRC-16 (reflected
  polynomial \<open>0xA001\<close>, initial value \<open>0xFFFF\<close>) of the first \<open>count\<close> bytes of the buffer, with
  the two bytes of the register exchanged, because the low byte goes first on the wire.\<close>

theorem crc16_is_bitwise_crc:
  assumes "unat count \<le> length buf"
  shows "crc16 buf count =
    (let c = crc_ref (take (unat count) buf) in Inr (word_be (lo_byte c) (hi_byte c)))"
  using crc16_wire [OF assms] by (simp add: crc_wire_def Let_def)

theorem crc16_is_bitwise_crc_witness:
  "unat (6 :: u16) \<le> length [1, 3, 0, 0, 0, 10 :: u8] \<and> crc16 [1, 3, 0, 0, 0, 10] 6 = Inr 0xC5CD"
proof -
  have h: "unat (6 :: u16) \<le> length [1, 3, 0, 0, 0, 10 :: u8]" by simp
  show ?thesis
    using h crc16_is_bitwise_crc [OF h]
    by (simp add: crc_ref_def crc_step_def crc_shift8_def crc_bit_def Let_def
        word_be_def hi_byte_def lo_byte_def)
qed

end
