(* ===== verification/Cxx_Strings.thy ===== *)
theory Cxx_Strings
  imports Prelude
begin

text \<open>
  The number parsers of the C++ standard library that the code calls on configuration strings:
  \<open>std::stoi\<close>, \<open>std::stoll\<close> and \<open>std::stoull\<close>, on top of one model of \<open>strtol\<close>: white space,
  an optional sign, an optional base prefix, and the longest run of digits of the base.
\<close>

definition is_space :: "char \<Rightarrow> bool" where
  "is_space c \<longleftrightarrow> of_char c = (32::nat) \<or> (9 \<le> (of_char c :: nat) \<and> (of_char c :: nat) \<le> 13)"

definition is_digit :: "char \<Rightarrow> bool" where
  "is_digit c \<longleftrightarrow> 48 \<le> (of_char c :: nat) \<and> (of_char c :: nat) \<le> 57"

text \<open>The value of a digit or letter; 36 for every other character.\<close>

definition digit_value :: "char \<Rightarrow> nat" where
  "digit_value c =
     (let n = (of_char c :: nat)
      in if 48 \<le> n \<and> n \<le> 57 then n - 48
         else if 97 \<le> n \<and> n \<le> 122 then n - 87
         else if 65 \<le> n \<and> n \<le> 90 then n - 55
         else 36)"

fun digits_value :: "nat \<Rightarrow> nat \<Rightarrow> string \<Rightarrow> nat" where
  "digits_value base acc [] = acc"
| "digits_value base acc (c # cs) = digits_value base (base * acc + digit_value c) cs"

fun hex_prefix :: "string \<Rightarrow> bool" where
  "hex_prefix (a # b # c # cs) \<longleftrightarrow>
     a = CHR ''0'' \<and> (b = CHR ''x'' \<or> b = CHR ''X'') \<and> digit_value c < 16"
| "hex_prefix _ \<longleftrightarrow> False"

text \<open>The sign, the absolute value and the number of characters read; \<open>None\<close> without digits.
  Base 0 chooses the base by the prefix.\<close>

definition parse_int :: "nat \<Rightarrow> string \<Rightarrow> (bool \<times> nat \<times> nat) option" where
  "parse_int base s =
     (let ws = length (takeWhile is_space s);
          r = drop ws s;
          neg = (r \<noteq> [] \<and> hd r = CHR ''-'');
          sg = (if r \<noteq> [] \<and> (hd r = CHR ''-'' \<or> hd r = CHR ''+'') then 1 else 0);
          body = drop sg r;
          hex = ((base = 0 \<or> base = 16) \<and> hex_prefix body);
          base' = (if base \<noteq> 0 then base
                   else if hex then 16
                   else if body \<noteq> [] \<and> hd body = CHR ''0'' then 8 else 10);
          pre = (if hex then 2 else 0);
          ds = takeWhile (\<lambda>c. digit_value c < base') (drop pre body)
      in if ds = [] then None
         else Some (neg, digits_value base' 0 ds, ws + sg + pre + length ds))"

text \<open>The results carry \<open>idx\<close>, the number of characters read.\<close>

definition std_stoi :: "string \<Rightarrow> (int \<times> nat) res" where
  "std_stoi s =
     (case parse_int 10 s of
        None \<Rightarrow> Inl Invalid_argument
      | Some (neg, n, idx) \<Rightarrow>
          (let v = (if neg then - int n else int n)
           in if v < - (2 ^ 31) \<or> 2 ^ 31 \<le> v then Inl Out_of_range else Inr (v, idx)))"

definition std_stoll :: "string \<Rightarrow> nat \<Rightarrow> (int \<times> nat) res" where
  "std_stoll s base =
     (case parse_int base s of
        None \<Rightarrow> Inl Invalid_argument
      | Some (neg, n, idx) \<Rightarrow>
          (let v = (if neg then - int n else int n)
           in if v < - (2 ^ 63) \<or> 2 ^ 63 \<le> v then Inl Out_of_range else Inr (v, idx)))"

definition std_stoull :: "string \<Rightarrow> nat \<Rightarrow> (u64 \<times> nat) res" where
  "std_stoull s base =
     (case parse_int base s of
        None \<Rightarrow> Inl Invalid_argument
      | Some (neg, n, idx) \<Rightarrow>
          (if 2 ^ 64 \<le> n then Inl Out_of_range
           else Inr (if neg then - of_nat n else of_nat n, idx)))"

section \<open>Runs of digits\<close>

lemma digit_value_digit: "is_digit c \<longleftrightarrow> digit_value c < 10"
  by (auto simp: is_digit_def digit_value_def Let_def)

lemma digit_not_space: "digit_value c < 36 \<Longrightarrow> \<not> is_space c"
  by (auto simp: is_space_def digit_value_def Let_def split: if_splits)

lemma digit_not_sign: "digit_value c < 36 \<Longrightarrow> c \<noteq> CHR ''-'' \<and> c \<noteq> CHR ''+''"
  by (auto simp: digit_value_def)

lemma hex_prefix_second: "hex_prefix (a # b # cs) \<Longrightarrow> digit_value b \<ge> 10"
  by (cases cs) (auto simp: digit_value_def)

lemma hex_prefix_first: "hex_prefix s \<Longrightarrow> hd s = CHR ''0''"
  by (cases s rule: hex_prefix.cases) auto

text \<open>A plain number: digits, the first of which does not announce another base, and then
  something that is no digit.\<close>

lemma parse_int_plain:
  assumes "ds \<noteq> []" and "\<forall>c \<in> set ds. digit_value c < b" and "b \<le> 10"
    and "rest = [] \<or> b \<le> digit_value (hd rest)"
    and "base = b \<or> base = 0 \<and> b = 10 \<and> hd ds \<noteq> CHR ''0''" and "base \<noteq> 16"
    and "base = 0 \<longrightarrow> b = 10"
  shows "parse_int base (ds @ rest) = Some (False, digits_value b 0 ds, length ds)"
proof -
  obtain d ds' where ds: "ds = d # ds'" using assms(1) by (cases ds) auto
  have d: "digit_value d < 36" using assms(2,3) ds by simp
  have ws: "length (takeWhile is_space (ds @ rest)) = 0"
    using digit_not_space [OF d] by (simp add: ds)
  have hd: "hd (ds @ rest) = d" "ds @ rest \<noteq> []" by (simp_all add: ds)
  have sg: "(d = CHR ''-'') = False" "(d = CHR ''+'') = False"
    using digit_not_sign [OF d] by auto
  have tw: "takeWhile (\<lambda>c. digit_value c < b) (ds @ rest) = ds"
    using assms(2,4) by (cases rest) (simp_all add: takeWhile_append2)
  have z: "base = 0 \<Longrightarrow> d \<noteq> CHR ''0''" using assms(1,2,5,7) ds by auto
  have hex: "((base = 0 \<or> base = 16) \<and> hex_prefix (ds @ rest)) = False"
    using hex_prefix_first [of "ds @ rest"] hd(1) z assms(6) by auto
  from assms(5) consider "base = b" "base \<noteq> 0" | "base = 0" "b = 10" using assms(7) by auto
  then show ?thesis
  proof cases
    case 1
    then show ?thesis
      unfolding parse_int_def Let_def ws drop_0 hd sg simp_thms if_False hex
      using assms(1) by (simp add: tw)
  next
    case 2
    then show ?thesis
      unfolding parse_int_def Let_def ws drop_0 hd sg simp_thms if_False hex
      using assms(1) z by (simp add: tw [unfolded 2])
  qed
qed

lemma parse_int_hex:
  assumes "ds \<noteq> []" and "\<forall>c \<in> set ds. digit_value c < 16"
  shows "parse_int 0 (CHR ''0'' # CHR ''x'' # ds) = Some (False, digits_value 16 0 ds, 2 + length ds)"
proof -
  obtain d ds' where ds: "ds = d # ds'" using assms(1) by (cases ds) auto
  have tw: "takeWhile (\<lambda>c. digit_value c < 16) ds' = ds'"
    using assms(2) ds by (simp add: takeWhile_eq_all_conv)
  show ?thesis
    using assms(2) by (simp add: parse_int_def Let_def ds is_space_def tw)
qed

end
