(* ===== verification/Net_Layer.thy ===== *)
theory Net_Layer
  imports Message_Model Crc16 Cxx_Strings
begin

text \<open>
  The network layers of \<open>src/netlayer.cpp\<close>, \<open>src/rtulayer.cpp\<close> and \<open>src/tcplayer.cpp\<close>: the
  parsing of the serial settings, \<open>prepareToSend\<close> (the CRC of an RTU frame, the header of a TCP
  one), \<open>checkMessage\<close>, and \<open>Message::prepareToSend\<close>, which delegates to the layer of the
  message. The libmodbus context of a layer is a value of the type parameter.
\<close>

section \<open>State\<close>

record 'c netlayer =
  nl_net :: Net
  connection :: string
  settings :: string
  nl_maxAduLength :: u16
  ctx :: 'c
  nl_transactionId :: u16  \<comment> \<open>of a TCP layer\<close>
  oneByteTime :: int       \<comment> \<open>of an RTU layer\<close>

section \<open>Serial settings\<close>

definition RtuLayer_parity :: "string \<Rightarrow> char" where
  "RtuLayer_parity st =
     (let s = length st
      in if s \<ge> 2
         then let c = st ! (s - 2) in (if c = CHR ''E'' \<or> c = CHR ''O'' then c else CHR ''N'')
         else CHR ''N'')"

definition RtuLayer_stop :: "string \<Rightarrow> int" where
  "RtuLayer_stop st = (if RtuLayer_parity st = CHR ''N'' then 2 else 1)"

text \<open>Without a leading number (\<open>std::invalid_argument\<close>), or with one outside \<open>int\<close>
  (\<open>std::out_of_range\<close>), the baud rate is 19200.\<close>

definition RtuLayer_baud :: "string \<Rightarrow> int" where
  "RtuLayer_baud st = (case std_stoi st of Inr (b, _) \<Rightarrow> b | Inl _ \<Rightarrow> 19200)"

section \<open>Constructors\<close>

text \<open>
  \<open>new_rtu port baud parity data_bit stop_bit\<close> and \<open>new_tcp node service\<close> stand for
  \<open>modbus_new_rtu\<close> and \<open>modbus_new_tcp_pi\<close>, \<open>None\<close> for the null pointer; \<open>rts_delay\<close> for
  \<open>modbus_rtu_get_rts_delay\<close>.
\<close>

definition RtuLayer_Private ::
    "mb_consts \<Rightarrow> (string \<Rightarrow> int \<Rightarrow> char \<Rightarrow> int \<Rightarrow> int \<Rightarrow> 'c option) \<Rightarrow> ('c \<Rightarrow> int) \<Rightarrow>
     string \<Rightarrow> string \<Rightarrow> 'c netlayer res" where
  "RtuLayer_Private K new_rtu rts_delay port st =
     (case new_rtu port (RtuLayer_baud st) (RtuLayer_parity st) 8 (RtuLayer_stop st) of
        None \<Rightarrow> Inl Invalid_argument
      | Some c \<Rightarrow>
          Inr \<lparr>nl_net = Rtu, connection = port, settings = st,
               nl_maxAduLength = MODBUS_RTU_MAX_ADU_LENGTH K, ctx = c,
               nl_transactionId = 0, oneByteTime = rts_delay c\<rparr>)"

definition TcpLayer_Private ::
    "mb_consts \<Rightarrow> (string option \<Rightarrow> string \<Rightarrow> 'c option) \<Rightarrow> string \<Rightarrow> string \<Rightarrow> 'c netlayer res" where
  "TcpLayer_Private K new_tcp host service =
     (let node = (if host \<noteq> ''*'' then Some host else None)
      in case new_tcp node service of
           None \<Rightarrow> Inl Invalid_argument
         | Some c \<Rightarrow>
             Inr \<lparr>nl_net = Tcp, connection = host, settings = service,
                  nl_maxAduLength = MODBUS_TCP_MAX_ADU_LENGTH K, ctx = c,
                  nl_transactionId = 1, oneByteTime = 0\<rparr>)"

section \<open>Sending\<close>

text \<open>The results are the returned flag, the layer and the message.\<close>

definition RtuLayer_prepareToSend :: "'c netlayer \<Rightarrow> message \<Rightarrow> (bool \<times> 'c netlayer \<times> message) res" where
  "RtuLayer_prepareToSend l msg =
     (if net msg = Rtu \<and> Message_size msg \<ge> 1
      then let n = aduSize msg
           in and_then (crc16 (adu msg) (of_nat n)) (\<lambda>crc.
              and_then (vset (adu msg) (int n) (hi_byte crc)) (\<lambda>a.
              and_then (vset a (int n + 1) (lo_byte crc)) (\<lambda>a'.
              Inr (True, l, Message_setAduSize (msg\<lparr>adu := a'\<rparr>) (n + 2)))))
      else Inr (False, l, msg))"

definition TcpLayer_prepareToSend :: "'c netlayer \<Rightarrow> message \<Rightarrow> (bool \<times> 'c netlayer \<times> message) res" where
  "TcpLayer_prepareToSend l msg =
     (if net msg = Tcp \<and> Message_size msg \<ge> 1
      then let s = (of_nat (Message_size msg + 1) :: u16)
           in and_then
                (if \<not> isResponse msg
                 then and_then (vset (adu msg) 0 (hi_byte (nl_transactionId l))) (\<lambda>a.
                      and_then (vset a 1 (lo_byte (nl_transactionId l))) (\<lambda>a.
                      and_then (vset a 2 0) (\<lambda>a.
                      and_then (vset a 3 0) (\<lambda>a.
                      Inr (l\<lparr>nl_transactionId := nl_transactionId l + 1\<rparr>, a)))))
                 else Inr (l, adu msg))
                (\<lambda>(l', a).
              and_then (vset a 4 (hi_byte s)) (\<lambda>a.
              and_then (vset a 5 (lo_byte s)) (\<lambda>a.
              Inr (True, l', msg\<lparr>adu := a\<rparr>))))
      else Inr (False, l, msg))"

text \<open>The virtual call on a layer; the base class \<open>NetLayer\<close> refuses every message.\<close>

definition NetLayer_prepareToSend :: "'c netlayer \<Rightarrow> message \<Rightarrow> (bool \<times> 'c netlayer \<times> message) res" where
  "NetLayer_prepareToSend l msg =
     (case nl_net l of
        Rtu \<Rightarrow> RtuLayer_prepareToSend l msg
      | Tcp \<Rightarrow> TcpLayer_prepareToSend l msg
      | NoNet \<Rightarrow> Inr (False, l, msg))"

text \<open>
  \<open>Message::prepareToSend\<close>: through the layer when the message has one, otherwise by itself.
\<close>

definition Message_prepareToSend_own :: "message \<Rightarrow> (bool \<times> message) res" where
  "Message_prepareToSend_own m =
     (if Message_size m \<ge> 1
      then (case net m of
         Tcp \<Rightarrow>
           (let i = - uint (Message_aduHeaderLength m)
            in and_then
                 (if \<not> isResponse m
                  then and_then (Message_setWord m i (transactionId m)) (\<lambda>m.
                       Message_setWord (m\<lparr>transactionId := transactionId m + 1\<rparr>) (i + 2) 0)
                  else Inr m)
                 (\<lambda>m. and_then (Message_setWord m (i + 4) (of_nat (Message_size m + 1))) (\<lambda>m.
                      Inr (True, m))))
       | Rtu \<Rightarrow>
           and_then (crc16 (adu m) (of_nat (aduSize m))) (\<lambda>crc.
           and_then (Message_setWord m (int (Message_size m)) crc) (\<lambda>m.
           Inr (True, m)))
       | NoNet \<Rightarrow> Inl Invalid_argument)
      else Inr (False, m))"

definition Message_prepareToSend :: "'c netlayer \<Rightarrow> message \<Rightarrow> (bool \<times> 'c netlayer \<times> message) res" where
  "Message_prepareToSend l m =
     (if backend m then NetLayer_prepareToSend l m
      else and_then (Message_prepareToSend_own m) (\<lambda>(ok, m'). Inr (ok, l, m')))"

section \<open>Checking\<close>

definition RtuLayer_checkMessage :: "message \<Rightarrow> bool res" where
  "RtuLayer_checkMessage msg =
     and_then (crc16 (adu msg) (of_int (int (aduSize msg) - 2))) (\<lambda>c.
     and_then (Message_crc msg) (\<lambda>c'. Inr (c = c')))"

definition TcpLayer_checkMessage :: "message \<Rightarrow> bool" where
  "TcpLayer_checkMessage msg \<longleftrightarrow> net msg = Tcp \<and> Message_size msg \<ge> 1"

section \<open>Lemmas: RTU frames\<close>

lemma wf_length: "msg_wf m \<Longrightarrow> length (adu m) < 65536"
  using u16_less [of "maxAduLength m"] by (simp add: msg_wf_def)

lemma unat_of_nat_u16: "n < 65536 \<Longrightarrow> unat (of_nat n :: u16) = n"
  by (simp add: unat_of_nat)

lemma take_snoc2:
  assumes "length xs > Suc n"
  shows "take (Suc (Suc n)) (xs[n := a, Suc n := b]) = take n xs @ [a, b]"
proof -
  have "take (Suc (Suc n)) ys = take n ys @ [ys ! n, ys ! Suc n]" if "length ys > Suc n" for ys :: "'a list"
    using that by (simp add: take_Suc_conv_app_nth)
  from this [of "xs[n := a, Suc n := b]"] show ?thesis
    using assms by simp
qed

text \<open>The frame of the bytes \<open>bs\<close>: the CRC appended, first byte on the wire first.\<close>

definition rtu_frame :: "u8 list \<Rightarrow> u8 list" where
  "rtu_frame bs = bs @ [hi_byte (crc_wire bs), lo_byte (crc_wire bs)]"

lemma rtu_frame_residue: "crc_ref (rtu_frame bs) = 0"
  by (simp add: rtu_frame_def crc_wire_bytes crc_ref_zero_residue)

lemma rtu_frame_wire: "crc_wire (rtu_frame bs) = 0"
  by (simp only: crc_wire_0_iff rtu_frame_residue)

lemma rtu_frame_inject: "rtu_frame bs = rtu_frame cs \<longleftrightarrow> bs = cs"
  by (auto simp: rtu_frame_def)

lemma RtuLayer_prepareToSend_frame:
  assumes "net m = Rtu" "Message_size m \<ge> 1" "aduSize m + 2 \<le> length (adu m)" "length (adu m) < 65536"
  shows "RtuLayer_prepareToSend l m =
    Inr (True, l, m\<lparr>adu := rtu_frame (take (aduSize m) (adu m)) @ drop (aduSize m + 2) (adu m),
                    aduSize := aduSize m + 2\<rparr>)"
proof -
  let ?n = "aduSize m" and ?w = "crc_wire (take (aduSize m) (adu m))"
  have crc: "crc16 (adu m) (of_nat ?n) = Inr ?w"
    using assms(3,4) by (simp add: crc16_wire unat_of_nat_u16)
  have "(adu m)[?n := hi_byte ?w, Suc ?n := lo_byte ?w]
      = rtu_frame (take ?n (adu m)) @ drop (?n + 2) (adu m)"
  proof -
    have "xs = take (?n + 2) xs @ drop (?n + 2) xs" for xs :: "u8 list" by simp
    from this [of "(adu m)[?n := hi_byte ?w, Suc ?n := lo_byte ?w]"] show ?thesis
      using assms(3) by (simp add: take_snoc2 rtu_frame_def)
  qed
  moreover have "nat (int ?n + 1) = Suc ?n" by simp
  ultimately show ?thesis
    using assms
    by (simp add: RtuLayer_prepareToSend_def Let_def crc vset_def Message_setAduSize_def)
qed

lemma RtuLayer_prepareToSend_no_room:
  assumes "net m = Rtu" "Message_size m \<ge> 1" "aduSize m \<le> length (adu m)"
    "length (adu m) < aduSize m + 2" "length (adu m) < 65536"
  shows "RtuLayer_prepareToSend l m = Inl Undefined_behaviour"
proof -
  have "crc16 (adu m) (of_nat (aduSize m)) = Inr (crc_wire (take (aduSize m) (adu m)))"
    using assms(3,5) by (simp add: crc16_wire unat_of_nat_u16)
  then show ?thesis
    using assms by (auto simp: RtuLayer_prepareToSend_def Let_def vset_def)
qed

lemma RtuLayer_prepareToSend_refuses:
  "net m \<noteq> Rtu \<or> Message_size m = 0 \<Longrightarrow> RtuLayer_prepareToSend l m = Inr (False, l, m)"
  by (auto simp: RtuLayer_prepareToSend_def)

lemma TcpLayer_prepareToSend_refuses:
  "net m \<noteq> Tcp \<or> Message_size m = 0 \<Longrightarrow> TcpLayer_prepareToSend l m = Inr (False, l, m)"
  by (auto simp: TcpLayer_prepareToSend_def)

lemma own_rtu_eq_layer:
  assumes "net m = Rtu" "1 \<le> pduBegin m"
  shows "and_then (Message_prepareToSend_own m) (\<lambda>(ok, m'). Inr (ok, l, m')) = RtuLayer_prepareToSend l m"
proof (cases "Message_size m \<ge> 1")
  case True
  then have "pduBegin m + int (Message_size m) = int (aduSize m)"
    using assms(2) by (simp add: Message_size_def split: if_splits)
  then show ?thesis
    using assms(1) True
    by (cases "crc16 (adu m) (of_nat (aduSize m))")
       (auto simp: Message_prepareToSend_own_def RtuLayer_prepareToSend_def Message_setWord_def
          Message_setAduSize_def Let_def and_then_def nat_add_distrib split: sum.splits)
qed (simp add: Message_prepareToSend_own_def RtuLayer_prepareToSend_def)

section \<open>Lemmas: TCP frames\<close>

text \<open>The first six bytes of the header: transaction identifier, protocol identifier (zero) and
  the number of bytes that follow, the unit identifier included.\<close>

definition mbap :: "u16 \<Rightarrow> u16 \<Rightarrow> u8 list" where
  "mbap tid len = [hi_byte tid, lo_byte tid, 0, 0, hi_byte len, lo_byte len]"

lemma length6E:
  assumes "6 \<le> length xs"
  obtains a b c d e f ys where "xs = a # b # c # d # e # f # ys"
  using assms by (auto simp: numeral_eq_Suc Suc_le_length_iff)

definition tcp_framed :: "u16 \<Rightarrow> message \<Rightarrow> u8 list" where
  "tcp_framed tid m =
     (if isResponse m
      then take 4 (adu m) @ drop 4 (mbap tid (of_nat (Message_size m + 1))) @ drop 6 (adu m)
      else mbap tid (of_nat (Message_size m + 1)) @ drop 6 (adu m))"

lemma TcpLayer_prepareToSend_frame:
  assumes "net m = Tcp" "Message_size m \<ge> 1" "6 \<le> length (adu m)"
  shows "TcpLayer_prepareToSend l m =
    Inr (True,
         if isResponse m then l else l\<lparr>nl_transactionId := nl_transactionId l + 1\<rparr>,
         m\<lparr>adu := tcp_framed (nl_transactionId l) m\<rparr>)"
proof -
  obtain a b c d e f ys where "adu m = a # b # c # d # e # f # ys"
    using assms(3) by (rule length6E)
  then show ?thesis
    using assms(1,2)
    by (simp add: TcpLayer_prepareToSend_def Let_def vset_def tcp_framed_def mbap_def)
qed

lemma own_tcp_frame:
  assumes "net m = Tcp" "Message_size m \<ge> 1" "6 \<le> length (adu m)" "pduBegin m = 7"
  shows "Message_prepareToSend_own m =
    Inr (True,
         m\<lparr>adu := tcp_framed (transactionId m) m,
           transactionId := (if isResponse m then transactionId m else transactionId m + 1)\<rparr>)"
proof -
  obtain a b c d e f ys where "adu m = a # b # c # d # e # f # ys"
    using assms(3) by (rule length6E)
  moreover have "8 \<le> aduSize m"
    using assms(2,4) by (simp add: Message_size_def split: if_splits)
  ultimately show ?thesis
    using assms(1,2,4)
    by (cases m) (simp add: Message_prepareToSend_own_def Message_setWord_def Let_def vset_def
        tcp_framed_def mbap_def Message_aduHeaderLength_def Message_size_def hi_byte_def lo_byte_def)
qed

lemma tcp_framed_length: "6 \<le> length (adu m) \<Longrightarrow> length (tcp_framed tid m) = length (adu m)"
  by (erule length6E) (simp add: tcp_framed_def mbap_def)

lemma tcp_framed_drop: "6 \<le> length (adu m) \<Longrightarrow> drop 6 (tcp_framed tid m) = drop 6 (adu m)"
  by (erule length6E) (simp add: tcp_framed_def mbap_def)

lemma tcp_framed_words:
  assumes "6 \<le> length (adu m)" "pduBegin m = 7" "\<not> isResponse m"
    "adu m' = tcp_framed tid m" "pduBegin m' = 7"
  shows "Message_word m' (-7) = Inr tid" "Message_word m' (-5) = Inr 0"
    "Message_word m' (-3) = Inr (of_nat (Message_size m + 1))"
proof -
  obtain a b c d e f ys where "adu m = a # b # c # d # e # f # ys"
    using assms(1) by (rule length6E)
  then show "Message_word m' (-7) = Inr tid" "Message_word m' (-5) = Inr 0"
    "Message_word m' (-3) = Inr (of_nat (Message_size m + 1))"
    using assms(2-)
    by (simp_all add: Message_word_def vget_def tcp_framed_def mbap_def del: of_nat_add of_nat_Suc)
qed

lemma tcp_framed_length_field:
  assumes "6 \<le> length (adu m)" "pduBegin m = 7"
  shows "Message_word (m\<lparr>adu := tcp_framed tid m\<rparr>) (-3) = Inr (of_nat (Message_size m + 1))"
  using assms
  by (auto simp: Message_word_def vget_def tcp_framed_def mbap_def del: of_nat_add of_nat_Suc
      elim!: length6E)

lemma tcp_framed_response_id:
  assumes "6 \<le> length (adu m)" "pduBegin m = 7" "isResponse m"
  shows "Message_word (m\<lparr>adu := tcp_framed tid m\<rparr>) (-7) = Message_word m (-7)"
  using assms
  by (auto simp: Message_word_def vget_def tcp_framed_def mbap_def elim!: length6E)

section \<open>The interface of a layer\<close>

text \<open>
  What a device or a message relies on when it calls \<open>prepareToSend\<close> of its layer: it accepts
  exactly the messages of its network with a non-empty PDU, a refused message and its layer are
  unchanged, and an accepted one keeps its kind and the bytes of its PDU.
\<close>

locale framing =
  fixes prep :: "'c netlayer \<Rightarrow> message \<Rightarrow> (bool \<times> 'c netlayer \<times> message) res"
    and kind :: Net
    and room :: "message \<Rightarrow> bool"
  assumes accepts: "net m = kind \<Longrightarrow> Message_size m \<ge> 1 \<Longrightarrow> room m \<Longrightarrow>
      \<exists>l' m'. prep l m = Inr (True, l', m')"
    and refuses: "net m \<noteq> kind \<or> Message_size m = 0 \<Longrightarrow> prep l m = Inr (False, l, m)"
    and keeps: "prep l m = Inr (True, l', m') \<Longrightarrow> room m \<Longrightarrow>
      same_shape m m' \<and> aduSize m \<le> aduSize m' \<and>
      (\<forall>i. 0 \<le> i \<longrightarrow> i < int (Message_size m) \<longrightarrow> Message_byte m' i = Message_byte m i)"
begin

lemma accepted_iff:
  "room m \<Longrightarrow> (\<exists>l' m'. prep l m = Inr (True, l', m')) \<longleftrightarrow> net m = kind \<and> Message_size m \<ge> 1"
  using accepts refuses by (metis Pair_inject not_less_eq_eq not_one_le_zero sum.inject(2) One_nat_def le_0_eq not_gr0 Suc_leI)

lemma function_kept:
  assumes "prep l m = Inr (True, l', m')" and "room m" and "Message_size m \<ge> 1"
  shows "Message_function m' = Message_function m"
  using keeps [OF assms(1,2)] assms(3) by (simp add: Message_function_def)

end

text \<open>Room for the frame: for an RTU layer two bytes behind the message, for a TCP layer the six
  bytes of the header it fills in.\<close>

definition rtu_room :: "message \<Rightarrow> bool" where
  "rtu_room m \<longleftrightarrow> 0 \<le> pduBegin m \<and> aduSize m + 2 \<le> length (adu m) \<and> length (adu m) < 65536"

definition tcp_room :: "message \<Rightarrow> bool" where
  "tcp_room m \<longleftrightarrow> pduBegin m = 7 \<and> 6 \<le> length (adu m)"

interpretation rtu: framing RtuLayer_prepareToSend Rtu rtu_room
proof
  fix m m' :: message and l l' :: "'c netlayer"
  show "\<exists>l' m'. RtuLayer_prepareToSend l m = Inr (True, l', m')"
    if "net m = Rtu" "Message_size m \<ge> 1" "rtu_room m"
    using that by (simp add: RtuLayer_prepareToSend_frame rtu_room_def)
  show "net m \<noteq> Rtu \<or> Message_size m = 0 \<Longrightarrow> RtuLayer_prepareToSend l m = Inr (False, l, m)"
    by (rule RtuLayer_prepareToSend_refuses)
  show "same_shape m m' \<and> aduSize m \<le> aduSize m' \<and>
      (\<forall>i. 0 \<le> i \<longrightarrow> i < int (Message_size m) \<longrightarrow> Message_byte m' i = Message_byte m i)"
    if p: "RtuLayer_prepareToSend l m = Inr (True, l', m')" and r: "rtu_room m"
  proof -
    have ok: "net m = Rtu" "Message_size m \<ge> 1"
      using p by (auto simp: RtuLayer_prepareToSend_def split: if_splits)
    let ?n = "aduSize m"
    have m': "m' = m\<lparr>adu := rtu_frame (take ?n (adu m)) @ drop (?n + 2) (adu m), aduSize := ?n + 2\<rparr>"
      using p r by (simp add: RtuLayer_prepareToSend_frame [OF ok] rtu_room_def)
    have "Message_byte m' i = Message_byte m i" if "0 \<le> i" "i < int (Message_size m)" for i
    proof -
      have "nat (pduBegin m + i) < ?n" and "0 \<le> pduBegin m + i"
        using that ok(2) r by (auto simp: Message_size_def rtu_room_def split: if_splits)
      then show ?thesis
        using r by (auto simp: m' Message_byte_def vget_def rtu_frame_def nth_append rtu_room_def)
    qed
    moreover have "length (adu m') = length (adu m)"
      using r by (auto simp: m' rtu_frame_def rtu_room_def)
    ultimately show ?thesis
      by (simp add: m' same_shape_def)
  qed
qed

interpretation tcp: framing TcpLayer_prepareToSend Tcp tcp_room
proof
  fix m m' :: message and l l' :: "'c netlayer"
  show "\<exists>l' m'. TcpLayer_prepareToSend l m = Inr (True, l', m')"
    if "net m = Tcp" "Message_size m \<ge> 1" "tcp_room m"
    using that by (simp add: TcpLayer_prepareToSend_frame tcp_room_def)
  show "net m \<noteq> Tcp \<or> Message_size m = 0 \<Longrightarrow> TcpLayer_prepareToSend l m = Inr (False, l, m)"
    by (rule TcpLayer_prepareToSend_refuses)
  show "same_shape m m' \<and> aduSize m \<le> aduSize m' \<and>
      (\<forall>i. 0 \<le> i \<longrightarrow> i < int (Message_size m) \<longrightarrow> Message_byte m' i = Message_byte m i)"
    if p: "TcpLayer_prepareToSend l m = Inr (True, l', m')" and r: "tcp_room m"
  proof -
    have ok: "net m = Tcp" "Message_size m \<ge> 1"
      using p by (auto simp: TcpLayer_prepareToSend_def split: if_splits)
    have m': "m' = m\<lparr>adu := tcp_framed (nl_transactionId l) m\<rparr>"
      using p r by (simp add: TcpLayer_prepareToSend_frame [OF ok] tcp_room_def split: if_splits)
    have "6 \<le> length (adu m)" and "pduBegin m = 7"
      using r by (simp_all add: tcp_room_def)
    then show ?thesis
      using tcp_framed_length [of m] tcp_framed_drop [of m]
      by (auto simp: m' same_shape_def Message_byte_def intro: vget_cong_drop [where k = 6])
  qed
qed

section \<open>Lemmas: checking a frame\<close>

lemma RtuLayer_checkMessage_long:
  assumes "net m = Rtu" "4 \<le> aduSize m" "aduSize m \<le> length (adu m)" "length (adu m) < 65536"
  shows "RtuLayer_checkMessage m = Inl Invalid_argument"
proof -
  have "(of_int (int (aduSize m) - 2) :: u16) = of_nat (aduSize m - 2)"
    using assms(2) by (simp add: of_nat_diff)
  moreover have "crc16 (adu m) (of_nat (aduSize m - 2)) = Inr (crc_wire (take (aduSize m - 2) (adu m)))"
    using assms(3,4) by (simp add: crc16_wire unat_of_nat_u16 del: of_nat_diff)
  ultimately have "crc16 (adu m) (of_int (int (aduSize m) - 2)) = Inr (crc_wire (take (aduSize m - 2) (adu m)))"
    by (simp only:)
  then show ?thesis
    using assms(1,2) by (simp add: RtuLayer_checkMessage_def Message_crc_def)
qed

section \<open>Properties\<close>

text \<open>Concrete messages and layers for the witnesses: the request to read ten holding registers
  of slave 1, over RTU and over TCP.\<close>

definition sample_rtu :: message where
  "sample_rtu = \<lparr>net = Rtu, pduBegin = 1, aduSize = 6, maxAduLength = 8, isResponse = False,
     backend = True, transactionId = 1, adu = [1, 3, 0, 0, 0, 10, 0, 0]\<rparr>"

definition sample_tcp :: message where
  "sample_tcp = \<lparr>net = Tcp, pduBegin = 7, aduSize = 12, maxAduLength = 12, isResponse = False,
     backend = False, transactionId = 9, adu = [0, 0, 0, 0, 0, 0, 1, 3, 0, 0, 0, 10]\<rparr>"

definition sample_layer :: "Net \<Rightarrow> unit netlayer" where
  "sample_layer n = \<lparr>nl_net = n, connection = [], settings = [], nl_maxAduLength = 8, ctx = (),
     nl_transactionId = 9, oneByteTime = 0\<rparr>"

text \<open>C2. \<open>RtuLayer::prepareToSend\<close> turns a well-formed message with room for the CRC into a
  frame: it appends two bytes, leaves the message itself as it was, stays well-formed, and the
  CRC over the whole frame is zero.\<close>

theorem rtu_frame_has_zero_residue:
  assumes "msg_wf m" and "net m = Rtu" and "1 \<le> Message_size m"
    and "aduSize m + 2 \<le> length (adu m)"
  shows "\<exists>m'. RtuLayer_prepareToSend l m = Inr (True, l, m') \<and> msg_wf m' \<and>
     aduSize m' = aduSize m + 2 \<and>
     take (aduSize m) (adu m') = take (aduSize m) (adu m) \<and>
     crc16 (adu m') (of_nat (aduSize m')) = Inr 0"
proof -
  let ?n = "aduSize m"
  let ?a = "rtu_frame (take ?n (adu m)) @ drop (?n + 2) (adu m)"
  have len: "length (adu m) < 65536"
    using assms(1) by (rule wf_length)
  have frame: "RtuLayer_prepareToSend l m = Inr (True, l, m\<lparr>adu := ?a, aduSize := ?n + 2\<rparr>)"
    using assms len by (simp add: RtuLayer_prepareToSend_frame)
  have la: "length ?a = length (adu m)" and ta: "take (?n + 2) ?a = rtu_frame (take ?n (adu m))"
    using assms(4) by (auto simp: rtu_frame_def)
  have "crc16 ?a (of_nat (?n + 2)) = Inr 0"
    using crc16_take [of "?n + 2" ?a] len la ta assms(4) rtu_frame_wire [of "take ?n (adu m)"]
    by (simp del: of_nat_add add_2_eq_Suc')
  moreover have "take ?n ?a = take ?n (adu m)"
    using assms(4) by (simp add: rtu_frame_def)
  ultimately show ?thesis
    using frame assms la by (auto simp: msg_wf_def)
qed

theorem rtu_frame_has_zero_residue_witness:
  "\<exists>m'. RtuLayer_prepareToSend (sample_layer Rtu) sample_rtu = Inr (True, sample_layer Rtu, m') \<and>
     msg_wf m' \<and> aduSize m' = 8 \<and> take 6 (adu m') = [1, 3, 0, 0, 0, 10] \<and>
     crc16 (adu m') (of_nat (aduSize m')) = Inr 0"
  using rtu_frame_has_zero_residue [of sample_rtu "sample_layer Rtu"]
  by (simp add: sample_rtu_def msg_wf_def Message_size_def)

text \<open>C31. A frame made by \<open>RtuLayer::prepareToSend\<close> whose bytes are corrupted in one place, or in
  two neighbouring ones, never has a zero CRC: the receiver detects every such error.\<close>

theorem rtu_frame_burst_detected:
  assumes "RtuLayer_prepareToSend l m = Inr (True, l', m')" and "rtu_room m"
    and "take (aduSize m') (adu m') = pre @ good @ post"
    and "length bad = length good" and "length good \<le> 2" and "bad \<noteq> good"
  shows "crc16 (pre @ bad @ post) (of_nat (aduSize m')) \<noteq> Inr 0"
proof -
  let ?n = "aduSize m"
  have ok: "net m = Rtu" "Message_size m \<ge> 1"
    using assms(1) by (auto simp: RtuLayer_prepareToSend_def split: if_splits)
  have m': "m' = m\<lparr>adu := rtu_frame (take ?n (adu m)) @ drop (?n + 2) (adu m), aduSize := ?n + 2\<rparr>"
    using assms(1,2) by (simp add: RtuLayer_prepareToSend_frame [OF ok] rtu_room_def)
  have frame: "rtu_frame (take ?n (adu m)) = pre @ good @ post"
    using assms(2,3) by (auto simp: m' rtu_frame_def rtu_room_def)
  then have "crc_ref (pre @ bad @ post) \<noteq> 0"
    using crc_ref_burst [OF assms(4-6), of pre post] rtu_frame_residue [of "take ?n (adu m)"] by simp
  then have "crc_wire (pre @ bad @ post) \<noteq> 0"
    by (simp only: crc_wire_0_iff not_False_eq_True)
  moreover have "length (pre @ bad @ post) = aduSize m'"
    using arg_cong [OF frame, of length] assms(2,4) by (auto simp: m' rtu_frame_def rtu_room_def)
  moreover have "aduSize m' < 65536"
    using assms(2) by (simp add: m' rtu_room_def)
  ultimately show ?thesis
    using crc16_take [of "aduSize m'" "pre @ bad @ post"] by simp
qed

theorem rtu_frame_burst_detected_witness:
  "crc16 [1, 3, 0, 0, 0, 11, 0xC4, 0xCD] 8 \<noteq> Inr 0"
proof -
  have "crc16 [1, 3, 0, 0, 0, 10, 0, 0] 6 = Inr (word_be 0xC5 0xCD)"
    using crc16_take [of 6 "[1, 3, 0, 0, 0, 10, 0, 0]"]
    by (simp add: crc_wire_def crc_ref_def crc_step_def crc_shift8_def crc_bit_def
        hi_byte_def lo_byte_def word_be_inject)
  then have p: "RtuLayer_prepareToSend (sample_layer Rtu) sample_rtu =
      Inr (True, sample_layer Rtu,
        sample_rtu\<lparr>adu := [1, 3, 0, 0, 0, 10, 0xC5, 0xCD], aduSize := 8\<rparr>)"
    by (auto simp: RtuLayer_prepareToSend_def sample_rtu_def Message_size_def vset_def
        Message_setAduSize_def)
  have r: "rtu_room sample_rtu" by (simp add: rtu_room_def sample_rtu_def)
  show ?thesis
    using rtu_frame_burst_detected [OF p r, of "[1, 3, 0, 0, 0]" "[10, 0xC5]" "[0xCD]" "[11, 0xC4]"]
    by simp
qed

text \<open>C14. \<open>TcpLayer::prepareToSend\<close> on a request writes the transaction identifier of the layer,
  the protocol identifier zero and the number of bytes that follow, keeps the PDU, and moves the
  layer to the next identifier; a response keeps the identifier it carries and the layer its
  own, so that the client can pair the two.\<close>

theorem tcp_header_fields:
  assumes "tcp_room m" and "net m = Tcp" and "1 \<le> Message_size m"
  shows "\<exists>l' m'. TcpLayer_prepareToSend l m = Inr (True, l', m') \<and> aduSize m' = aduSize m \<and>
     Message_word m' (-3) = Inr (of_nat (Message_size m + 1)) \<and>
     (\<forall>i \<ge> -1. Message_byte m' i = Message_byte m i) \<and>
     (if isResponse m
      then l' = l \<and> Message_transactionIdentifier m' = Message_transactionIdentifier m
      else nl_transactionId l' = nl_transactionId l + 1 \<and>
           Message_transactionIdentifier m' = Inr (nl_transactionId l) \<and>
           Message_word m' (-5) = Inr 0)"
proof -
  let ?m' = "m\<lparr>adu := tcp_framed (nl_transactionId l) m\<rparr>"
  have room: "6 \<le> length (adu m)" "pduBegin m = 7"
    using assms(1) by (simp_all add: tcp_room_def)
  have kept: "\<forall>i \<ge> -1. Message_byte ?m' i = Message_byte m i"
    using room tcp_framed_length [of m] tcp_framed_drop [of m]
    by (auto simp: Message_byte_def intro: vget_cong_drop [where k = 6])
  have len: "Message_word ?m' (-3) = Inr (of_nat (Message_size m + 1))"
    using room by (rule tcp_framed_length_field)
  have tid: "isResponse m \<Longrightarrow> Message_word ?m' (-7) = Message_word m (-7)"
    using room by (rule tcp_framed_response_id)
  show ?thesis
    using TcpLayer_prepareToSend_frame [OF assms(2,3) room(1), of l] kept len tid
      tcp_framed_words [OF room, of ?m'] room assms(2)
    by (auto simp: Message_transactionIdentifier_def)
qed

theorem tcp_header_fields_witness:
  "\<exists>l' m'. TcpLayer_prepareToSend (sample_layer Tcp) sample_tcp = Inr (True, l', m') \<and>
     nl_transactionId l' = 10 \<and> Message_transactionIdentifier m' = Inr 9 \<and>
     Message_word m' (-3) = Inr 6"
  using tcp_header_fields [of sample_tcp "sample_layer Tcp"]
  by (auto simp: sample_tcp_def sample_layer_def tcp_room_def Message_size_def)

text \<open>What a call of \<open>prepareToSend\<close> shows to the program: the answer, the bytes and the size.\<close>

definition framed_bytes :: "(bool \<times> 'c netlayer \<times> message) res \<Rightarrow> (bool \<times> u8 list \<times> nat) res" where
  "framed_bytes r = and_then r (\<lambda>(ok, l, m). Inr (ok, adu m, aduSize m))"

lemma framed_bytes_rtu:
  assumes "net m = Rtu" and "1 \<le> pduBegin m" and "nl_net l = Rtu"
  shows "framed_bytes (Message_prepareToSend l (m\<lparr>backend := False\<rparr>)) =
    framed_bytes (Message_prepareToSend l (m\<lparr>backend := True\<rparr>))"
proof -
  have "Message_prepareToSend l (m\<lparr>backend := False\<rparr>) = RtuLayer_prepareToSend l (m\<lparr>backend := False\<rparr>)"
    using own_rtu_eq_layer [of "m\<lparr>backend := False\<rparr>" l] assms by (simp add: Message_prepareToSend_def)
  moreover have "framed_bytes (RtuLayer_prepareToSend l (m\<lparr>backend := False\<rparr>)) =
      framed_bytes (RtuLayer_prepareToSend l (m\<lparr>backend := True\<rparr>))"
    by (simp add: framed_bytes_def RtuLayer_prepareToSend_def Message_size_def Message_setAduSize_def Let_def
        and_then_def split: sum.splits)
  ultimately show ?thesis using assms by (simp add: Message_prepareToSend_def NetLayer_prepareToSend_def)
qed

lemma framed_bytes_tcp:
  assumes "net m = Tcp" and "tcp_room m" and "nl_net l = Tcp"
  shows "framed_bytes (Message_prepareToSend l (m\<lparr>backend := False\<rparr>)) =
      Inr (if 1 \<le> Message_size m then (True, tcp_framed (transactionId m) m, aduSize m) else (False, adu m, aduSize m))"
    and "framed_bytes (Message_prepareToSend l (m\<lparr>backend := True\<rparr>)) =
      Inr (if 1 \<le> Message_size m then (True, tcp_framed (nl_transactionId l) m, aduSize m) else (False, adu m, aduSize m))"
proof -
  have size: "Message_size (m\<lparr>backend := b\<rparr>) = Message_size m" for b
    by (simp add: Message_size_def)
  have framed: "tcp_framed t (m\<lparr>backend := b\<rparr>) = tcp_framed t m" for t b
    by (simp add: tcp_framed_def size)
  have t: "6 \<le> length (adu m)" "pduBegin m = 7" using assms(2) by (simp_all add: tcp_room_def)
  show "framed_bytes (Message_prepareToSend l (m\<lparr>backend := False\<rparr>)) =
      Inr (if 1 \<le> Message_size m then (True, tcp_framed (transactionId m) m, aduSize m) else (False, adu m, aduSize m))"
    using assms(1) t own_tcp_frame [of "m\<lparr>backend := False\<rparr>"]
    by (simp add: framed_bytes_def Message_prepareToSend_def size framed)
      (simp add: Message_prepareToSend_own_def size)
  show "framed_bytes (Message_prepareToSend l (m\<lparr>backend := True\<rparr>)) =
      Inr (if 1 \<le> Message_size m then (True, tcp_framed (nl_transactionId l) m, aduSize m) else (False, adu m, aduSize m))"
    using assms(1,3) t TcpLayer_prepareToSend_frame [of "m\<lparr>backend := True\<rparr>" l]
    by (simp add: framed_bytes_def Message_prepareToSend_def NetLayer_prepareToSend_def size framed)
      (simp add: TcpLayer_prepareToSend_def size)
qed

text \<open>C13. A message without a layer frames itself (\<open>Message::prepareToSend\<close>) as the layer of its
  network would: on RTU the same bytes and size, or the same error; on TCP, for a message that has
  the room of its header, the same bytes and size for every response, and for a request when the
  counter of the layer stands at the identifier that the message counts for itself. When it does
  not, as for a new message beside a layer that has sent before, the two frames of a request differ
  in just the two bytes of the identifier.\<close>

theorem message_frames_like_its_layer:
  assumes "net m = Rtu \<and> 1 \<le> pduBegin m \<or> net m = Tcp \<and> tcp_room m" and "nl_net l = net m"
    and "own = framed_bytes (Message_prepareToSend l (m\<lparr>backend := False\<rparr>))"
    and "layer = framed_bytes (Message_prepareToSend l (m\<lparr>backend := True\<rparr>))"
  shows "(net m = Rtu \<or> isResponse m \<or> nl_transactionId l = transactionId m \<longrightarrow> own = layer) \<and>
    (net m = Tcp \<and> \<not> isResponse m \<and> 1 \<le> Message_size m \<longrightarrow> (\<exists>rest.
      own = Inr (True, hi_byte (transactionId m) # lo_byte (transactionId m) # rest, aduSize m) \<and>
      layer = Inr (True, hi_byte (nl_transactionId l) # lo_byte (nl_transactionId l) # rest, aduSize m)))"
proof (cases "net m = Rtu")
  case True
  then show ?thesis using framed_bytes_rtu [of m l] assms by simp
next
  case False
  with assms(1) have t: "net m = Tcp" "tcp_room m" by simp_all
  note f = framed_bytes_tcp [OF t, of l, folded assms(3,4)]
  have "tcp_framed x m = tcp_framed y m" if "isResponse m" for x y
    using that by (simp add: tcp_framed_def mbap_def)
  then show ?thesis
    using t assms(2) f by (auto simp: tcp_framed_def mbap_def)
qed

theorem message_frames_like_its_layer_witness:
  "\<exists>rest. framed_bytes (Message_prepareToSend (sample_layer Tcp) (sample_tcp\<lparr>transactionId := 1, backend := False\<rparr>))
      = Inr (True, 0 # 1 # rest, aduSize sample_tcp) \<and>
    framed_bytes (Message_prepareToSend (sample_layer Tcp) (sample_tcp\<lparr>transactionId := 1, backend := True\<rparr>))
      = Inr (True, 0 # 9 # rest, aduSize sample_tcp)"
  using message_frames_like_its_layer [OF _ _ refl refl, of "sample_tcp\<lparr>transactionId := 1\<rparr>" "sample_layer Tcp"]
  by (auto simp: sample_tcp_def sample_layer_def tcp_room_def Message_size_def hi_byte_def lo_byte_def)

text \<open>A message built from the exact bytes of an ADU (\<open>Message (backend, adu)\<close>) has a buffer
  with no room for the CRC: \<open>prepareToSend\<close> of the RTU layer writes past its end.\<close>

theorem rtu_exact_buffer_overflows:
  assumes "Message_Private K Rtu hdr maxlen True = Inr m0"
    and "hdr < length bytes" and "length bytes < 65536"
  shows "RtuLayer_prepareToSend l (Message_Private_adu m0 bytes) = Inl Undefined_behaviour"
proof -
  have "net m0 = Rtu" "pduBegin m0 = int hdr"
    using assms(1) by (auto simp: Message_Private_def Let_def)
  then show ?thesis
    using assms(2,3)
    by (intro RtuLayer_prepareToSend_no_room) (auto simp: Message_Private_adu_def Message_size_def)
qed

theorem rtu_exact_buffer_overflows_witness:
  "\<exists>m0. Message_Private libmodbus_values Rtu 1 256 True = Inr m0 \<and>
     RtuLayer_prepareToSend (sample_layer Rtu) (Message_Private_adu m0 [1, 3, 0, 0, 0, 10]) =
       Inl Undefined_behaviour"
proof -
  obtain m0 where m0: "Message_Private libmodbus_values Rtu 1 256 True = Inr m0"
    by (simp add: Message_Private_def Let_def)
  show ?thesis
    using m0 rtu_exact_buffer_overflows [OF m0, of "[1, 3, 0, 0, 0, 10]" "sample_layer Rtu"] by simp
qed

text \<open>C32. \<open>RtuLayer::checkMessage\<close> never accepts a frame: on every message of four bytes or more,
  the shortest that can hold a CRC, \<open>Message::crc\<close> throws \<open>std::invalid_argument\<close>, whatever the
  CRC is.\<close>

theorem rtu_check_throws_on_frames:
  assumes "net m = Rtu" and "4 \<le> aduSize m" and "aduSize m \<le> length (adu m)" and "msg_wf m"
  shows "RtuLayer_checkMessage m = Inl Invalid_argument"
  using RtuLayer_checkMessage_long [OF assms(1-3) wf_length [OF assms(4)]] .

theorem rtu_check_throws_on_frames_witness:
  "RtuLayer_checkMessage (sample_rtu\<lparr>adu := [1, 3, 0, 0, 0, 10, 0xC5, 0xCD], aduSize := 8\<rparr>) =
     Inl Invalid_argument"
  using rtu_check_throws_on_frames
    [of "sample_rtu\<lparr>adu := [1, 3, 0, 0, 0, 10, 0xC5, 0xCD], aduSize := 8\<rparr>"]
  by (simp add: sample_rtu_def msg_wf_def)

text \<open>The settings string \<open>BBBBPS\<close> of a serial line: digits that fit an \<open>int\<close>, a parity letter
  and one more character give back the baud rate, the parity (\<open>N\<close> for every letter but \<open>E\<close> and
  \<open>O\<close>) and the stop bits that the Modbus specification pairs with it.\<close>

theorem rtu_settings_parsed:
  assumes "ds \<noteq> []" and "list_all is_digit ds" and "digits_value 10 0 ds < 2 ^ 31" and "\<not> is_digit p"
  shows "RtuLayer_baud (ds @ [p, s]) = int (digits_value 10 0 ds) \<and>
     RtuLayer_parity (ds @ [p, s]) = (if p = CHR ''E'' \<or> p = CHR ''O'' then p else CHR ''N'') \<and>
     RtuLayer_stop (ds @ [p, s]) = (if p = CHR ''E'' \<or> p = CHR ''O'' then 1 else 2)"
proof -
  have "parse_int 10 (ds @ [p, s]) = Some (False, digits_value 10 0 ds, length ds)"
    using assms by (intro parse_int_plain) (auto simp: list_all_iff digit_value_digit)
  then have "std_stoi (ds @ [p, s]) = Inr (int (digits_value 10 0 ds), length ds)"
    using assms(3) by (simp add: std_stoi_def)
  moreover have "RtuLayer_parity (ds @ [p, s]) = (if p = CHR ''E'' \<or> p = CHR ''O'' then p else CHR ''N'')"
    by (simp add: RtuLayer_parity_def Let_def nth_append)
  ultimately show ?thesis
    by (simp add: RtuLayer_baud_def RtuLayer_stop_def)
qed

theorem rtu_settings_parsed_witness:
  "RtuLayer_baud ''19200E1'' = 19200 \<and> RtuLayer_parity ''19200E1'' = CHR ''E'' \<and>
   RtuLayer_stop ''19200E1'' = 1"
proof -
  have v: "digits_value 10 0 ''19200'' = 19200"
    by (simp add: digit_value_def)
  show ?thesis
    using rtu_settings_parsed [of "''19200''" "CHR ''E''" "CHR ''1''"] v
    by (simp add: is_digit_def)
qed

end
