(* ===== verification/Link_Model.thy ===== *)
theory Link_Model
  imports Net_Layer
begin

text \<open>
  The part of libmodbus and of the operating system under a network layer, as the record
  \<open>modbus_link\<close> of functions on a context; the serial calls of \<open>RtuLayer\<close>, \<open>sendRawMessage\<close>
  of both layers, and the class \<open>Timeout\<close> of \<open>src/timeout.cpp\<close>.
\<close>

section \<open>The link\<close>

text \<open>A call returns its value, the value it stores in \<open>errno\<close> when it stores one, and the
  context it leaves. Connections, sockets and the peer are part of the context.\<close>

type_synonym 'c reply = "int \<times> errno option \<times> 'c"

record 'c modbus_link =
  modbus_new_rtu :: "string \<Rightarrow> int \<Rightarrow> char \<Rightarrow> int \<Rightarrow> int \<Rightarrow> 'c option"
  modbus_new_tcp_pi :: "string option \<Rightarrow> string \<Rightarrow> 'c option"
  modbus_connect :: "'c \<Rightarrow> 'c reply"
  modbus_close :: "'c \<Rightarrow> 'c"
  modbus_flush :: "'c \<Rightarrow> 'c reply"
  modbus_get_socket :: "'c \<Rightarrow> int"
  modbus_set_debug :: "'c \<Rightarrow> bool \<Rightarrow> 'c reply"
  modbus_set_response_timeout :: "'c \<Rightarrow> u32 \<Rightarrow> u32 \<Rightarrow> 'c reply"
  modbus_get_response_timeout :: "'c \<Rightarrow> (u32 \<times> u32) \<times> 'c reply"
  modbus_set_byte_timeout :: "'c \<Rightarrow> u32 \<Rightarrow> u32 \<Rightarrow> 'c reply"
  modbus_get_byte_timeout :: "'c \<Rightarrow> (u32 \<times> u32) \<times> 'c reply"
  modbus_set_indication_timeout :: "'c \<Rightarrow> u32 \<Rightarrow> u32 \<Rightarrow> 'c reply"
  modbus_get_indication_timeout :: "'c \<Rightarrow> (u32 \<times> u32) \<times> 'c reply"
  sys_write :: "'c \<Rightarrow> u8 list \<Rightarrow> 'c reply"
  sys_send :: "'c \<Rightarrow> u8 list \<Rightarrow> 'c reply"

record 'c rtu_api =
  modbus_rtu_get_serial_mode :: "'c \<Rightarrow> int"
  modbus_rtu_set_serial_mode :: "'c \<Rightarrow> int \<Rightarrow> 'c reply"
  modbus_rtu_get_rts :: "'c \<Rightarrow> int"
  modbus_rtu_set_rts :: "'c \<Rightarrow> int \<Rightarrow> 'c reply"
  modbus_rtu_get_rts_delay :: "'c \<Rightarrow> int"
  modbus_rtu_set_rts_delay :: "'c \<Rightarrow> int \<Rightarrow> 'c reply"
  MODBUS_RTU_RTS_NONE :: int
  MODBUS_RTU_RTS_UP :: int
  MODBUS_RTU_RTS_DOWN :: int

text \<open>What a call leaves in \<open>errno\<close>.\<close>

fun set_errno :: "errno option \<Rightarrow> errno \<Rightarrow> errno" where
  "set_errno None e = e"
| "set_errno (Some e') e = e'"

section \<open>Serial calls of RtuLayer\<close>

text \<open>A setter returns its flag, what it stores in \<open>errno\<close>, and the layer.\<close>

type_synonym 'c layer_reply = "bool \<times> errno option \<times> 'c netlayer"

definition on_ctx :: "'c reply \<Rightarrow> 'c netlayer \<Rightarrow> int \<times> errno option \<times> 'c netlayer" where
  "on_ctx r l = (case r of (rc, e, c) \<Rightarrow> (rc, e, l\<lparr>ctx := c\<rparr>))"

definition RtuLayer_serialMode :: "'c rtu_api \<Rightarrow> 'c netlayer \<Rightarrow> int" where
  "RtuLayer_serialMode R l =
     (let m = modbus_rtu_get_serial_mode R (ctx l) in if m \<noteq> -1 then m else -1)"

definition RtuLayer_setSerialMode :: "'c rtu_api \<Rightarrow> 'c netlayer \<Rightarrow> int \<Rightarrow> 'c layer_reply" where
  "RtuLayer_setSerialMode R l mode =
     (case on_ctx (modbus_rtu_set_serial_mode R (ctx l) mode) l of (rc, e, l') \<Rightarrow> (rc \<noteq> -1, e, l'))"

definition RtuLayer_rts :: "'c rtu_api \<Rightarrow> 'c netlayer \<Rightarrow> int" where
  "RtuLayer_rts R l = (let r = modbus_rtu_get_rts R (ctx l) in if r \<noteq> -1 then r else -1)"

definition RtuLayer_setRts :: "'c rtu_api \<Rightarrow> 'c netlayer \<Rightarrow> int \<Rightarrow> 'c layer_reply" where
  "RtuLayer_setRts R l r =
     (case on_ctx (modbus_rtu_set_rts R (ctx l) r) l of (rc, e, l') \<Rightarrow> (rc \<noteq> -1, e, l'))"

definition RtuLayer_rtsDelay :: "'c rtu_api \<Rightarrow> 'c netlayer \<Rightarrow> int" where
  "RtuLayer_rtsDelay R l = modbus_rtu_get_rts_delay R (ctx l)"

definition RtuLayer_setRtsDelay :: "'c rtu_api \<Rightarrow> 'c netlayer \<Rightarrow> int \<Rightarrow> 'c layer_reply" where
  "RtuLayer_setRtsDelay R l delay =
     (case on_ctx (modbus_rtu_set_rts_delay R (ctx l) delay) l of (rc, e, l') \<Rightarrow> (rc \<noteq> -1, e, l'))"

section \<open>sendRawMessage of the layers\<close>

text \<open>The pauses (\<open>usleep\<close>) have no effect on the state. The result is the returned value, what
  the calls leave in \<open>errno\<close> starting from \<open>e\<close>, and the layer.\<close>

definition RtuLayer_sendRawMessage ::
    "'c modbus_link \<Rightarrow> 'c rtu_api \<Rightarrow> errno \<Rightarrow> 'c netlayer \<Rightarrow> message \<Rightarrow> (int \<times> errno \<times> 'c netlayer) res" where
  "RtuLayer_sendRawMessage L R e l msg =
     and_then (vread (adu msg) 0 (int (aduSize msg))) (\<lambda>bytes.
       if RtuLayer_rts R l \<noteq> MODBUS_RTU_RTS_NONE R
       then (let r = (if RtuLayer_rts R l = MODBUS_RTU_RTS_DOWN R
                      then MODBUS_RTU_RTS_UP R else MODBUS_RTU_RTS_DOWN R);
                 (_, e1, l1) = RtuLayer_setRts R l r;
                 (size, e2, l2) = on_ctx (sys_write L (ctx l1) bytes) l1;
                 (_, e3, l3) = RtuLayer_setRts R l2
                   (if r = MODBUS_RTU_RTS_DOWN R then MODBUS_RTU_RTS_UP R else MODBUS_RTU_RTS_DOWN R)
             in Inr (size, set_errno e3 (set_errno e2 (set_errno e1 e)), l3))
       else (case on_ctx (sys_write L (ctx l) bytes) l of
               (rc, e', l') \<Rightarrow> Inr (rc, set_errno e' e, l')))"

definition TcpLayer_sendRawMessage ::
    "'c modbus_link \<Rightarrow> errno \<Rightarrow> 'c netlayer \<Rightarrow> message \<Rightarrow> (int \<times> errno \<times> 'c netlayer) res" where
  "TcpLayer_sendRawMessage L e l msg =
     and_then (vread (adu msg) 0 (int (aduSize msg))) (\<lambda>bytes.
       case on_ctx (sys_send L (ctx l) bytes) l of
         (rc, e', l') \<Rightarrow> Inr (rc, set_errno e' e, l'))"

text \<open>The virtual call; the base class fails with \<open>EINVAL\<close>.\<close>

definition NetLayer_sendRawMessage ::
    "'c modbus_link \<Rightarrow> 'c rtu_api \<Rightarrow> errno \<Rightarrow> 'c netlayer \<Rightarrow> message \<Rightarrow> (int \<times> errno \<times> 'c netlayer) res" where
  "NetLayer_sendRawMessage L R e l msg =
     (case nl_net l of
        Rtu \<Rightarrow> RtuLayer_sendRawMessage L R e l msg
      | Tcp \<Rightarrow> TcpLayer_sendRawMessage L e l msg
      | NoNet \<Rightarrow> Inr (-1, EINVAL, l))"

section \<open>Timeout\<close>

record timeout =
  m_sec :: u32
  m_usec :: u32

definition Timeout_setValue :: "u32 \<Rightarrow> u32 \<Rightarrow> timeout" where
  "Timeout_setValue s us =
     (if us > 999999
      then let ts = us div 1000000 in \<lparr>m_sec = s + ts, m_usec = us - ts * 1000000\<rparr>
      else \<lparr>m_sec = s, m_usec = us\<rparr>)"

definition Timeout_new :: "u32 \<Rightarrow> u32 \<Rightarrow> timeout" where
  "Timeout_new s us = Timeout_setValue s us"

definition Timeout_sec :: "timeout \<Rightarrow> u32" where
  "Timeout_sec t = m_sec t"

definition Timeout_usec :: "timeout \<Rightarrow> u32" where
  "Timeout_usec t = m_usec t"

lemma u32_div_million: "us - us div 1000000 * 1000000 = us mod (1000000 :: u32)"
  by (simp add: minus_div_mult_eq_mod)

text \<open>A timeout built from seconds and microseconds has fewer than a million microseconds
  and the same length, as long as its seconds fit 32 bits.\<close>

theorem timeout_normalised:
  assumes "unat s + unat us div 1000000 < 2 ^ 32"
  shows "unat (Timeout_usec (Timeout_new s us)) < 1000000
    \<and> unat (Timeout_sec (Timeout_new s us)) * 1000000 + unat (Timeout_usec (Timeout_new s us))
      = unat s * 1000000 + unat us"
proof -
  have "Timeout_setValue s us = \<lparr>m_sec = s + us div 1000000, m_usec = us mod 1000000\<rparr>"
  proof (cases "us > 999999")
    case True
    then show ?thesis by (simp add: Timeout_setValue_def Let_def u32_div_million)
  next
    case False
    then have "unat us < 1000000" by (simp add: word_less_nat_alt)
    then have "us div 1000000 = 0" "us mod 1000000 = us"
      by (simp_all add: word_eq_iff_unsigned [where ?'a = nat] unat_div unat_mod)
    with False show ?thesis by (simp add: Timeout_setValue_def)
  qed
  moreover have "unat (s + us div 1000000) = unat s + unat us div 1000000"
    using assms by (simp add: unat_word_ariths unat_div)
  moreover have "unat (us mod 1000000) = unat us mod 1000000"
    by (simp add: unat_mod)
  ultimately show ?thesis
    by (simp add: Timeout_sec_def Timeout_usec_def Timeout_new_def)
qed

theorem timeout_normalised_witness:
  "unat (Timeout_sec (Timeout_new 1 2500000)) * 1000000 + unat (Timeout_usec (Timeout_new 1 2500000)) = 3500000"
  using timeout_normalised [of 1 2500000] by simp

end
