(* ===== verification/Device_Model.thy ===== *)
theory Device_Model
  imports Link_Model
begin

text \<open>
  The class \<open>Device\<close> of \<open>src/device.cpp\<close>: a network layer, created once, and the state of the
  connection. An operation works on the pair of \<open>errno\<close> and the device. \<open>sendRawMessage\<close> repeats
  a failed transmission as long as the recovery of the link is on, so its loop has fuel, and
  \<open>None\<close> stands for a loop that has not ended.
\<close>

section \<open>State\<close>

record 'c device =
  dev_isOpen :: bool
  dev_backend :: "'c netlayer option"
  dev_recoveryLink :: bool
  dev_debug :: bool

type_synonym 'c dev_state = "errno \<times> 'c device"

definition Device_new :: "'c device" where
  "Device_new = \<lparr>dev_isOpen = False, dev_backend = None, dev_recoveryLink = False, dev_debug = False\<rparr>"

definition Device_isValid :: "'c device \<Rightarrow> bool" where
  "Device_isValid d \<longleftrightarrow> dev_backend d \<noteq> None"

definition Device_isOpen :: "'c device \<Rightarrow> bool" where
  "Device_isOpen d = dev_isOpen d"

definition Device_recoveryLink :: "'c device \<Rightarrow> bool" where
  "Device_recoveryLink d = dev_recoveryLink d"

definition Device_setRecoveryLink :: "'c device \<Rightarrow> bool \<Rightarrow> bool \<times> 'c device" where
  "Device_setRecoveryLink d recovery = (True, d\<lparr>dev_recoveryLink := recovery\<rparr>)"

definition Device_debug :: "'c device \<Rightarrow> bool" where
  "Device_debug d = dev_debug d"

section \<open>The layer\<close>

definition Device_backend :: "'c device \<Rightarrow> 'c netlayer res" where
  "Device_backend d = (case dev_backend d of Some l \<Rightarrow> Inr l | None \<Rightarrow> Inl Domain_error)"

definition Device_net :: "'c device \<Rightarrow> Net res" where
  "Device_net d =
     (if Device_isValid d then and_then (Device_backend d) (\<lambda>l. Inr (nl_net l)) else Inr NoNet)"

definition Device_rtu :: "'c device \<Rightarrow> 'c netlayer res" where
  "Device_rtu d =
     and_then (Device_net d) (\<lambda>n. if n = Rtu then Device_backend d else Inl Domain_error)"

definition Device_tcp :: "'c device \<Rightarrow> 'c netlayer res" where
  "Device_tcp d =
     and_then (Device_net d) (\<lambda>n. if n = Tcp then Device_backend d else Inl Domain_error)"

definition Device_connection :: "'c device \<Rightarrow> string res" where
  "Device_connection d =
     (if Device_isValid d then and_then (Device_backend d) (\<lambda>l. Inr (connection l))
      else Inr ''No backend !'')"

definition Device_settings :: "'c device \<Rightarrow> string res" where
  "Device_settings d =
     (if Device_isValid d then and_then (Device_backend d) (\<lambda>l. Inr (settings l))
      else Inr ''Unknown !'')"

definition Device_Private_setBackend ::
    "mb_consts \<Rightarrow> 'c modbus_link \<Rightarrow> 'c rtu_api \<Rightarrow> 'c device \<Rightarrow> Net \<Rightarrow> string \<Rightarrow> string \<Rightarrow> 'c device res" where
  "Device_Private_setBackend K L R d n conn st =
     (case n of
        Tcp \<Rightarrow> and_then (TcpLayer_Private K (modbus_new_tcp_pi L) conn st)
                 (\<lambda>l. Inr (d\<lparr>dev_backend := Some l\<rparr>))
      | Rtu \<Rightarrow> and_then (RtuLayer_Private K (modbus_new_rtu L) (modbus_rtu_get_rts_delay R) conn st)
                 (\<lambda>l. Inr (d\<lparr>dev_backend := Some l\<rparr>))
      | NoNet \<Rightarrow> Inl Invalid_argument)"

definition Device_setBackend ::
    "mb_consts \<Rightarrow> 'c modbus_link \<Rightarrow> 'c rtu_api \<Rightarrow> 'c device \<Rightarrow> Net \<Rightarrow> string \<Rightarrow> string \<Rightarrow>
     (bool \<times> 'c device) res" where
  "Device_setBackend K L R d n conn st =
     (if \<not> Device_isValid d
      then and_then (Device_Private_setBackend K L R d n conn st) (\<lambda>d'. Inr (True, d'))
      else Inr (False, d))"

definition Device_defaultSlave :: "mb_consts \<Rightarrow> 'c device \<Rightarrow> int \<Rightarrow> int" where
  "Device_defaultSlave K d addr =
     (case dev_backend d of
        Some l \<Rightarrow> if addr < 0
                  then (if nl_net l = Rtu then MODBUS_BROADCAST_ADDRESS K else MODBUS_TCP_SLAVE K)
                  else addr
      | None \<Rightarrow> addr)"

section \<open>Calls on the context\<close>

text \<open>\<open>d->ctx()\<close> follows the pointer to the layer.\<close>

definition Device_call :: "('c \<Rightarrow> 'c reply) \<Rightarrow> 'c dev_state \<Rightarrow> (int \<times> 'c dev_state) res" where
  "Device_call f st =
     (case st of (e, d) \<Rightarrow>
        (case dev_backend d of
           None \<Rightarrow> Inl Undefined_behaviour
         | Some l \<Rightarrow>
             (case on_ctx (f (ctx l)) l of
                (rc, e', l') \<Rightarrow> Inr (rc, set_errno e' e, d\<lparr>dev_backend := Some l'\<rparr>))))"

definition Device_Private_open :: "'c modbus_link \<Rightarrow> 'c dev_state \<Rightarrow> (bool \<times> 'c dev_state) res" where
  "Device_Private_open L st =
     and_then (Device_call (modbus_connect L) st) (\<lambda>(rc, st'). Inr (rc = 0, st'))"

definition Device_Private_close :: "'c modbus_link \<Rightarrow> 'c dev_state \<Rightarrow> 'c dev_state res" where
  "Device_Private_close L st =
     and_then (Device_call (\<lambda>c. (0, None, modbus_close L c)) st) (\<lambda>(_, st'). Inr st')"

definition Device_Private_isConnected :: "'c modbus_link \<Rightarrow> 'c device \<Rightarrow> bool res" where
  "Device_Private_isConnected L d =
     (case dev_backend d of
        None \<Rightarrow> Inl Undefined_behaviour
      | Some l \<Rightarrow> Inr (modbus_get_socket L (ctx l) \<ge> 0))"

definition Device_open :: "'c modbus_link \<Rightarrow> 'c dev_state \<Rightarrow> (bool \<times> 'c dev_state) res" where
  "Device_open L st =
     and_then
       (if Device_isValid (snd st) \<and> \<not> Device_isOpen (snd st)
        then and_then (Device_Private_open L st)
               (\<lambda>(ok, e, d). Inr (e, d\<lparr>dev_isOpen := ok\<rparr>))
        else Inr st)
       (\<lambda>st'. Inr (Device_isOpen (snd st'), st'))"

definition Device_close :: "'c modbus_link \<Rightarrow> 'c dev_state \<Rightarrow> 'c dev_state res" where
  "Device_close L st =
     (if Device_isOpen (snd st)
      then and_then (Device_Private_close L st) (\<lambda>(e, d). Inr (e, d\<lparr>dev_isOpen := False\<rparr>))
      else Inr st)"

definition Device_isConnected :: "'c modbus_link \<Rightarrow> 'c device \<Rightarrow> bool res" where
  "Device_isConnected L d =
     (if Device_isValid d
      then and_then (Device_Private_isConnected L d) (\<lambda>b. Inr (dev_isOpen d \<and> b))
      else Inr False)"

definition Device_flush :: "'c modbus_link \<Rightarrow> 'c dev_state \<Rightarrow> (int \<times> 'c dev_state) res" where
  "Device_flush L st =
     (if Device_isValid (snd st) then Device_call (modbus_flush L) st else Inl Runtime_error)"

definition Device_setDebug :: "'c modbus_link \<Rightarrow> 'c dev_state \<Rightarrow> bool \<Rightarrow> (bool \<times> 'c dev_state) res" where
  "Device_setDebug L st dbg =
     (if Device_isValid (snd st)
      then and_then (Device_call (\<lambda>c. modbus_set_debug L c dbg) st) (\<lambda>(rc, e, d).
             let d' = (if rc = 0 then d\<lparr>dev_debug := dbg\<rparr> else d)
             in Inr (dev_debug d' = dbg, e, d'))
      else Inl Runtime_error)"

section \<open>Timeouts\<close>

definition Device_setTimeout ::
    "('c \<Rightarrow> u32 \<Rightarrow> u32 \<Rightarrow> 'c reply) \<Rightarrow> 'c dev_state \<Rightarrow> timeout \<Rightarrow> (bool \<times> 'c dev_state) res" where
  "Device_setTimeout f st t =
     (if Device_isValid (snd st)
      then and_then (Device_call (\<lambda>c. f c (Timeout_sec t) (Timeout_usec t)) st)
             (\<lambda>(rc, st'). Inr (rc = 0, st'))
      else Inl Runtime_error)"

definition Device_getTimeout ::
    "('c \<Rightarrow> (u32 \<times> u32) \<times> 'c reply) \<Rightarrow> 'c dev_state \<Rightarrow> (bool \<times> timeout \<times> 'c dev_state) res" where
  "Device_getTimeout f st =
     (case dev_backend (snd st) of
        None \<Rightarrow> Inl Runtime_error
      | Some l \<Rightarrow>
          (case f (ctx l) of ((s, us), r) \<Rightarrow>
             and_then (Device_call (\<lambda>_. r) st)
               (\<lambda>(rc, st'). Inr (rc = 0, \<lparr>m_sec = s, m_usec = us\<rparr>, st'))))"

definition Device_setResponseTimeout ::
    "'c modbus_link \<Rightarrow> 'c dev_state \<Rightarrow> timeout \<Rightarrow> (bool \<times> 'c dev_state) res" where
  "Device_setResponseTimeout L = Device_setTimeout (modbus_set_response_timeout L)"

definition Device_responseTimeout ::
    "'c modbus_link \<Rightarrow> 'c dev_state \<Rightarrow> (bool \<times> timeout \<times> 'c dev_state) res" where
  "Device_responseTimeout L = Device_getTimeout (modbus_get_response_timeout L)"

definition Device_setByteTimeout ::
    "'c modbus_link \<Rightarrow> 'c dev_state \<Rightarrow> timeout \<Rightarrow> (bool \<times> 'c dev_state) res" where
  "Device_setByteTimeout L = Device_setTimeout (modbus_set_byte_timeout L)"

definition Device_byteTimeout ::
    "'c modbus_link \<Rightarrow> 'c dev_state \<Rightarrow> (bool \<times> timeout \<times> 'c dev_state) res" where
  "Device_byteTimeout L = Device_getTimeout (modbus_get_byte_timeout L)"

definition Device_setIndicationTimeout ::
    "'c modbus_link \<Rightarrow> 'c dev_state \<Rightarrow> timeout \<Rightarrow> (bool \<times> 'c dev_state) res" where
  "Device_setIndicationTimeout L = Device_setTimeout (modbus_set_indication_timeout L)"

definition Device_indicationTimeout ::
    "'c modbus_link \<Rightarrow> 'c dev_state \<Rightarrow> (bool \<times> timeout \<times> 'c dev_state) res" where
  "Device_indicationTimeout L = Device_getTimeout (modbus_get_indication_timeout L)"

section \<open>Sending a message\<close>

text \<open>The recovery after a failed transmission: reconnect when the connection is lost, flush
  otherwise; the pause between has no effect on the state. \<open>errno\<close> is saved and restored.\<close>

definition Device_recover :: "'c modbus_link \<Rightarrow> 'c dev_state \<Rightarrow> 'c dev_state res" where
  "Device_recover L st =
     (let saved_errno = fst st
      in and_then (Device_responseTimeout L st) (\<lambda>(_, _, st1).
         and_then
           (if fst st1 = EBADF \<or> fst st1 = ECONNRESET \<or> fst st1 = EPIPE
            then and_then (Device_Private_close L st1) (\<lambda>st2.
                 and_then (Device_Private_open L st2) (\<lambda>(_, st3). Inr st3))
            else and_then (Device_flush L st1) (\<lambda>(_, st2). Inr st2))
           (\<lambda>(_, d). Inr (saved_errno, d))))"

definition Device_sendOnce ::
    "'c modbus_link \<Rightarrow> 'c rtu_api \<Rightarrow> 'c dev_state \<Rightarrow> message \<Rightarrow> (int \<times> 'c dev_state) res" where
  "Device_sendOnce L R st msg =
     and_then (Device_backend (snd st)) (\<lambda>l.
     and_then (NetLayer_sendRawMessage L R (fst st) l msg) (\<lambda>(rc, e, l').
     Inr (rc, e, (snd st)\<lparr>dev_backend := Some l'\<rparr>)))"

fun Device_sendLoop ::
    "nat \<Rightarrow> 'c modbus_link \<Rightarrow> 'c rtu_api \<Rightarrow> 'c dev_state \<Rightarrow> message \<Rightarrow> (int \<times> 'c dev_state) res option" where
  "Device_sendLoop 0 L R st msg = None"
| "Device_sendLoop (Suc fuel) L R st msg =
     (case Device_sendOnce L R st msg of
        Inl x \<Rightarrow> Some (Inl x)
      | Inr (rc, st1) \<Rightarrow>
          if rc = -1 \<and> dev_recoveryLink (snd st1) \<and> \<not> isResponse msg
          then (case Device_recover L st1 of
                  Inl x \<Rightarrow> Some (Inl x)
                | Inr st2 \<Rightarrow> Device_sendLoop fuel L R st2 msg)
          else Some (Inr (rc, st1)))"

definition Device_sendRawMessage ::
    "nat \<Rightarrow> 'c modbus_link \<Rightarrow> 'c rtu_api \<Rightarrow> 'c dev_state \<Rightarrow> message \<Rightarrow> bool \<Rightarrow>
     (int \<times> 'c dev_state \<times> message) res option" where
  "Device_sendRawMessage fuel L R st msg prepareBefore =
     (if \<not> Device_isValid (snd st) then Some (Inl Runtime_error)
      else case
        (if prepareBefore
         then and_then (Device_backend (snd st)) (\<lambda>l.
              and_then (NetLayer_prepareToSend l msg) (\<lambda>(ok, l', msg').
              Inr (ok, (fst st, (snd st)\<lparr>dev_backend := Some l'\<rparr>), msg')))
         else Inr (True, st, msg)) of
          Inl x \<Rightarrow> Some (Inl x)
        | Inr (ok, st1, msg1) \<Rightarrow>
            if \<not> ok then Some (Inr (-1, (EINVAL, snd st1), msg1))
            else (case Device_sendLoop fuel L R st1 msg1 of
                    None \<Rightarrow> None
                  | Some (Inl x) \<Rightarrow> Some (Inl x)
                  | Some (Inr (rc, st2)) \<Rightarrow>
                      if rc > 0 \<and> rc \<noteq> int (Message_size msg1)
                      then Some (Inr (-1, (EMBBADDATA, snd st2), msg1))
                      else Some (Inr (rc, st2, msg1))))"

section \<open>Lemmas: what an operation leaves alone\<close>

text \<open>The identity of the layer, and the flags of a device.\<close>

definition dev_link :: "'c device \<Rightarrow> (Net \<times> string \<times> string) option" where
  "dev_link d = map_option (\<lambda>l. (nl_net l, connection l, settings l)) (dev_backend d)"

definition same_device :: "'c device \<Rightarrow> 'c device \<Rightarrow> bool" where
  "same_device d d' \<longleftrightarrow> dev_link d' = dev_link d \<and> dev_isOpen d' = dev_isOpen d \<and>
     dev_recoveryLink d' = dev_recoveryLink d \<and> dev_debug d' = dev_debug d"

named_theorems device_frame \<open>operations that keep the link and the flags\<close>

lemma same_device_refl [simp]: "same_device d d"
  by (simp add: same_device_def)

lemma same_device_trans: "same_device d d' \<Longrightarrow> same_device d' d'' \<Longrightarrow> same_device d d''"
  by (simp add: same_device_def)

lemma same_device_valid: "same_device d d' \<Longrightarrow> Device_isValid d' = Device_isValid d"
  by (cases "dev_backend d"; cases "dev_backend d'") (auto simp: same_device_def dev_link_def Device_isValid_def)

lemma Device_call_valid: "Device_isValid (snd st) \<Longrightarrow> \<exists>rc st'. Device_call f st = Inr (rc, st')"
  by (auto simp: Device_call_def Device_isValid_def split: prod.split)

lemma Device_call_same [device_frame]:
  "Device_call f st = Inr (rc, st') \<Longrightarrow> same_device (snd st) (snd st')"
  by (auto simp: Device_call_def on_ctx_def same_device_def dev_link_def split: prod.splits option.splits)

lemma Device_Private_open_same [device_frame]:
  "Device_Private_open L st = Inr (ok, st') \<Longrightarrow> same_device (snd st) (snd st')"
  by (auto simp: Device_Private_open_def and_then_eq_Inr dest: Device_call_same)

lemma Device_Private_close_same [device_frame]:
  "Device_Private_close L st = Inr st' \<Longrightarrow> same_device (snd st) (snd st')"
  by (auto simp: Device_Private_close_def and_then_eq_Inr dest: Device_call_same)

lemma Device_flush_same [device_frame]:
  "Device_flush L st = Inr (rc, st') \<Longrightarrow> same_device (snd st) (snd st')"
  by (auto simp: Device_flush_def dest: Device_call_same split: if_splits)

lemma Device_setTimeout_same [device_frame]:
  "Device_setTimeout f st t = Inr (ok, st') \<Longrightarrow> same_device (snd st) (snd st')"
  by (auto simp: Device_setTimeout_def and_then_eq_Inr dest: Device_call_same split: if_splits)

lemma Device_getTimeout_same [device_frame]:
  "Device_getTimeout f st = Inr (ok, t, st') \<Longrightarrow> same_device (snd st) (snd st')"
  by (auto simp: Device_getTimeout_def and_then_eq_Inr dest!: Device_call_same
      split: option.splits prod.splits)

lemma Device_setDebug_keeps:
  "Device_setDebug L st b = Inr (ok, st') \<Longrightarrow>
   dev_isOpen (snd st') = dev_isOpen (snd st) \<and> dev_link (snd st') = dev_link (snd st)"
  by (cases st') (auto simp: Device_setDebug_def and_then_eq_Inr Let_def same_device_def dev_link_def
      dest!: Device_call_same split: if_splits)

lemma Device_recover_same [device_frame]:
  "Device_recover L st = Inr st' \<Longrightarrow> same_device (snd st) (snd st') \<and> fst st' = fst st"
  by (auto simp: Device_recover_def and_then_eq_Inr Let_def Device_responseTimeout_def split: if_splits
      dest!: device_frame intro: same_device_trans)

lemma Device_getTimeout_valid:
  assumes "Device_isValid (snd st)"
  shows "\<exists>ok t st'. Device_getTimeout f st = Inr (ok, t, st')"
proof -
  obtain l where l: "dev_backend (snd st) = Some l" using assms by (auto simp: Device_isValid_def)
  obtain s us r where "f (ctx l) = ((s, us), r)" by (metis prod.collapse)
  moreover obtain rc st' where "Device_call (\<lambda>_. r) st = Inr (rc, st')"
    using Device_call_valid [OF assms] by blast
  ultimately show ?thesis by (simp add: Device_getTimeout_def l)
qed

lemma Device_Private_close_valid:
  "Device_isValid (snd st) \<Longrightarrow> \<exists>st'. Device_Private_close L st = Inr st'"
  using Device_call_valid [of st "\<lambda>c. (0, None, modbus_close L c)"]
  by (auto simp: Device_Private_close_def)

lemma Device_Private_open_valid:
  "Device_isValid (snd st) \<Longrightarrow> \<exists>ok st'. Device_Private_open L st = Inr (ok, st')"
  using Device_call_valid [of st "modbus_connect L"] by (auto simp: Device_Private_open_def)

lemma Device_flush_valid:
  "Device_isValid (snd st) \<Longrightarrow> \<exists>rc st'. Device_flush L st = Inr (rc, st')"
  using Device_call_valid [of st "modbus_flush L"] by (auto simp: Device_flush_def)

lemma Device_recover_valid:
  assumes "Device_isValid (snd st)"
  shows "\<exists>st'. Device_recover L st = Inr st'"
proof -
  obtain ok t st1 where 1: "Device_responseTimeout L st = Inr (ok, t, st1)"
    using Device_getTimeout_valid [OF assms] unfolding Device_responseTimeout_def by blast
  then have v1: "Device_isValid (snd st1)"
    using assms Device_getTimeout_same same_device_valid unfolding Device_responseTimeout_def by blast
  then obtain st2 where 2: "Device_Private_close L st1 = Inr st2"
    using Device_Private_close_valid by blast
  then have "Device_isValid (snd st2)"
    using v1 Device_Private_close_same same_device_valid by blast
  then obtain ok3 st3 where "Device_Private_open L st2 = Inr (ok3, st3)"
    using Device_Private_open_valid by blast
  moreover obtain rc4 st4 where "Device_flush L st1 = Inr (rc4, st4)"
    using v1 Device_flush_valid by blast
  ultimately show ?thesis
    using 1 2 by (cases st3; cases st4) (auto simp: Device_recover_def Let_def)
qed

lemma NetLayer_send_same:
  "NetLayer_sendRawMessage L R e l msg = Inr (rc, e', l') \<Longrightarrow>
   nl_net l' = nl_net l \<and> connection l' = connection l \<and> settings l' = settings l"
  by (auto simp: NetLayer_sendRawMessage_def RtuLayer_sendRawMessage_def TcpLayer_sendRawMessage_def
      and_then_eq_Inr on_ctx_def RtuLayer_setRts_def Let_def split: Net.splits prod.splits if_splits)

lemma Device_sendOnce_same [device_frame]:
  "Device_sendOnce L R st msg = Inr (rc, st') \<Longrightarrow> same_device (snd st) (snd st')"
  by (auto simp: Device_sendOnce_def and_then_eq_Inr Device_backend_def same_device_def dev_link_def
      dest!: NetLayer_send_same split: option.splits)

lemma Device_sendLoop_same [device_frame]:
  "Device_sendLoop fuel L R st msg = Some (Inr (rc, st')) \<Longrightarrow> same_device (snd st) (snd st')"
proof (induction fuel arbitrary: st)
  case (Suc n)
  then show ?case
    by (auto split: sum.splits prod.splits if_splits dest!: Device_sendOnce_same Device_recover_same)
      (blast intro: same_device_trans)+
qed simp

lemma NetLayer_prepare_same:
  "NetLayer_prepareToSend l msg = Inr (ok, l', msg') \<Longrightarrow>
   nl_net l' = nl_net l \<and> connection l' = connection l \<and> settings l' = settings l \<and> ctx l' = ctx l"
  by (auto simp: NetLayer_prepareToSend_def RtuLayer_prepareToSend_def TcpLayer_prepareToSend_def
      and_then_eq_Inr Let_def split: Net.splits if_splits)

text \<open>The state and the message that \<open>sendRawMessage\<close> hands to its loop.\<close>

definition Device_prepare :: "'c dev_state \<Rightarrow> message \<Rightarrow> bool \<Rightarrow> (bool \<times> 'c dev_state \<times> message) res" where
  "Device_prepare st msg prepareBefore =
     (if prepareBefore
      then and_then (Device_backend (snd st)) (\<lambda>l.
           and_then (NetLayer_prepareToSend l msg) (\<lambda>(ok, l', msg').
           Inr (ok, (fst st, (snd st)\<lparr>dev_backend := Some l'\<rparr>), msg')))
      else Inr (True, st, msg))"

lemma Device_prepare_same:
  "Device_prepare st msg p = Inr (ok, st1, msg1) \<Longrightarrow> same_device (snd st) (snd st1)"
  by (auto simp: Device_prepare_def and_then_eq_Inr Device_backend_def same_device_def dev_link_def
      dest!: NetLayer_prepare_same split: if_splits option.splits)

lemma Device_sendRawMessage_cases:
  assumes "Device_sendRawMessage fuel L R st msg p = Some (Inr (rc, st', msg'))"
  obtains ok st1 where "Device_isValid (snd st)" "Device_prepare st msg p = Inr (ok, st1, msg')"
    and "\<not> ok \<Longrightarrow> rc = -1 \<and> st' = (EINVAL, snd st1)"
    and "ok \<Longrightarrow> \<exists>rc1 st2. Device_sendLoop fuel L R st1 msg' = Some (Inr (rc1, st2)) \<and>
           (if rc1 > 0 \<and> rc1 \<noteq> int (Message_size msg') then rc = -1 \<and> st' = (EMBBADDATA, snd st2)
            else rc = rc1 \<and> st' = st2)"
  using assms unfolding Device_sendRawMessage_def Device_prepare_def [symmetric]
  by (fastforce split: sum.splits option.splits prod.splits if_splits)

lemma Device_sendRawMessage_same [device_frame]:
  assumes "Device_sendRawMessage fuel L R st msg p = Some (Inr (rc, st', msg'))"
  shows "same_device (snd st) (snd st')"
  using assms
proof (rule Device_sendRawMessage_cases)
  fix ok st1
  assume "Device_prepare st msg p = Inr (ok, st1, msg')"
    and a: "\<not> ok \<Longrightarrow> rc = -1 \<and> st' = (EINVAL, snd st1)"
      "ok \<Longrightarrow> \<exists>rc1 st2. Device_sendLoop fuel L R st1 msg' = Some (Inr (rc1, st2)) \<and>
           (if rc1 > 0 \<and> rc1 \<noteq> int (Message_size msg') then rc = -1 \<and> st' = (EMBBADDATA, snd st2)
            else rc = rc1 \<and> st' = st2)"
  then have 1: "same_device (snd st) (snd st1)" by (rule_tac Device_prepare_same)
  show ?thesis
  proof (cases ok)
    case True
    with a(2) obtain rc1 st2 where "Device_sendLoop fuel L R st1 msg' = Some (Inr (rc1, st2))"
      and "snd st' = snd st2"
      by (metis snd_conv)
    then show ?thesis
      using 1 Device_sendLoop_same same_device_trans by metis
  qed (use 1 a(1) in simp)
qed

section \<open>Lemmas: the loop\<close>

lemma Device_sendLoop_more:
  "Device_sendLoop fuel L R st msg = Some r \<Longrightarrow> fuel \<le> fuel' \<Longrightarrow> Device_sendLoop fuel' L R st msg = Some r"
proof (induction fuel arbitrary: st fuel')
  case (Suc n)
  then obtain n' where "fuel' = Suc n'" "n \<le> n'" by (cases fuel') auto
  with Suc show ?case by (auto split: sum.splits prod.splits if_splits)
qed simp

text \<open>The state before the next transmission, after \<open>k\<close> of them that failed with -1, each with the
  recovery that follows it; none when one of them did not fail so.\<close>

fun after_failures ::
    "nat \<Rightarrow> 'c modbus_link \<Rightarrow> 'c rtu_api \<Rightarrow> 'c dev_state \<Rightarrow> message \<Rightarrow> 'c dev_state option" where
  "after_failures 0 L R st msg = Some st"
| "after_failures (Suc k) L R st msg =
     (case Device_sendOnce L R st msg of
        Inl x \<Rightarrow> None
      | Inr (rc, st1) \<Rightarrow>
          if rc = -1
          then (case Device_recover L st1 of Inl x \<Rightarrow> None | Inr st2 \<Rightarrow> after_failures k L R st2 msg)
          else None)"

text \<open>Each of these transmissions is one turn of the loop.\<close>

lemma Device_sendLoop_failures:
  assumes "\<not> isResponse msg"
  shows "after_failures k L R st msg = Some st' \<Longrightarrow> dev_recoveryLink (snd st) \<Longrightarrow>
    Device_sendLoop fuel L R st msg = Device_sendLoop (fuel - k) L R st' msg \<and> dev_recoveryLink (snd st')"
proof (induction k arbitrary: st fuel)
  case (Suc k)
  then obtain st1 st2 where 1: "Device_sendOnce L R st msg = Inr (-1, st1)" "Device_recover L st1 = Inr st2"
    and 2: "after_failures k L R st2 msg = Some st'"
    by (auto split: sum.splits if_splits)
  have r: "dev_recoveryLink (snd st1)" "dev_recoveryLink (snd st2)"
    using Suc.prems(2) Device_sendOnce_same [OF 1(1)] Device_recover_same [OF 1(2)] by (simp_all add: same_device_def)
  show ?case
    using Suc.IH [OF 2 r(2), of "fuel - 1"] 1 r(1) assms by (cases fuel) simp_all
qed simp

text \<open>What \<open>sendRawMessage\<close> makes of the result of its last transmission.\<close>

definition Device_sendResult :: "message \<Rightarrow> int \<Rightarrow> 'c dev_state \<Rightarrow> int \<times> 'c dev_state \<times> message" where
  "Device_sendResult msg rc st =
     (if rc > 0 \<and> rc \<noteq> int (Message_size msg) then (-1, (EMBBADDATA, snd st), msg) else (rc, st, msg))"

lemma Device_sendRawMessage_loop:
  assumes "Device_isValid (snd st)" and "Device_prepare st msg p = Inr (True, st1, msg1)"
  shows "Device_sendRawMessage fuel L R st msg p = (case Device_sendLoop fuel L R st1 msg1 of
      None \<Rightarrow> None | Some (Inl x) \<Rightarrow> Some (Inl x) | Some (Inr (rc, st2)) \<Rightarrow> Some (Inr (Device_sendResult msg1 rc st2)))"
  using assms unfolding Device_sendRawMessage_def Device_prepare_def [symmetric]
  by (auto simp: Device_sendResult_def split: option.split sum.split prod.split)

lemma layer_prepare_flag:
  "RtuLayer_prepareToSend l msg = Inr (ok, l', msg') \<Longrightarrow> isResponse msg' = isResponse msg"
  "TcpLayer_prepareToSend l msg = Inr (ok, l', msg') \<Longrightarrow> isResponse msg' = isResponse msg"
  by (auto simp: RtuLayer_prepareToSend_def TcpLayer_prepareToSend_def and_then_eq_Inr Message_setAduSize_def
      Let_def split: if_splits)

lemma Device_prepare_flag:
  fixes st :: "'c dev_state"
  assumes "Device_prepare st msg p = Inr (ok, st1, msg1)"
  shows "isResponse msg1 = isResponse msg"
proof (cases p)
  case True
  with assms obtain l l' :: "'c netlayer" where "NetLayer_prepareToSend l msg = Inr (ok, l', msg1)"
    by (auto simp: Device_prepare_def and_then_eq_Inr)
  then show ?thesis
    by (cases "nl_net l") (auto simp: NetLayer_prepareToSend_def dest: layer_prepare_flag)
qed (use assms in \<open>simp add: Device_prepare_def\<close>)

lemma Device_sendLoop_dead:
  assumes "\<And>st. dev_link (snd st) = lk \<Longrightarrow> \<exists>st1. Device_sendOnce L R st msg = Inr (-1, st1)"
    and "lk \<noteq> None" and "\<not> isResponse msg"
  shows "dev_link (snd st) = lk \<Longrightarrow> dev_recoveryLink (snd st) \<Longrightarrow> Device_sendLoop fuel L R st msg = None"
proof (induction fuel arbitrary: st)
  case (Suc n)
  then obtain st1 where 1: "Device_sendOnce L R st msg = Inr (-1, st1)" using assms(1) by blast
  then have s1: "same_device (snd st) (snd st1)" by (rule Device_sendOnce_same)
  have "Device_isValid (snd st)"
    using Suc.prems(1) assms(2) by (auto simp: dev_link_def Device_isValid_def)
  then have "Device_isValid (snd st1)" using s1 same_device_valid by blast
  then obtain st2 where 2: "Device_recover L st1 = Inr st2" using Device_recover_valid by blast
  then have "same_device (snd st) (snd st2)" using s1 Device_recover_same same_device_trans by blast
  then have "Device_sendLoop n L R st2 msg = None"
    using Suc.IH Suc.prems by (simp add: same_device_def)
  then show ?case
    using 1 2 s1 Suc.prems assms(3) by (simp add: same_device_def)
qed simp

section \<open>Steps of a device\<close>

text \<open>Every call of the interface that changes a device.\<close>

inductive dev_step :: "mb_consts \<Rightarrow> 'c modbus_link \<Rightarrow> 'c rtu_api \<Rightarrow> 'c dev_state \<Rightarrow> 'c dev_state \<Rightarrow> bool"
  for K L R where
  step_setBackend: "Device_setBackend K L R d n conn s = Inr (ok, d') \<Longrightarrow> dev_step K L R (e, d) (e', d')"
| step_open: "Device_open L st = Inr (ok, st') \<Longrightarrow> dev_step K L R st st'"
| step_close: "Device_close L st = Inr st' \<Longrightarrow> dev_step K L R st st'"
| step_flush: "Device_flush L st = Inr (rc, st') \<Longrightarrow> dev_step K L R st st'"
| step_setDebug: "Device_setDebug L st dbg = Inr (ok, st') \<Longrightarrow> dev_step K L R st st'"
| step_setTimeout: "Device_setTimeout f st t = Inr (ok, st') \<Longrightarrow> dev_step K L R st st'"
| step_getTimeout: "Device_getTimeout g st = Inr (ok, t, st') \<Longrightarrow> dev_step K L R st st'"
| step_setRecoveryLink: "Device_setRecoveryLink d b = (ok, d') \<Longrightarrow> dev_step K L R (e, d) (e, d')"
| step_send: "Device_sendRawMessage fuel L R st msg p = Some (Inr (rc, st', msg')) \<Longrightarrow> dev_step K L R st st'"

inductive dev_reach :: "mb_consts \<Rightarrow> 'c modbus_link \<Rightarrow> 'c rtu_api \<Rightarrow> 'c dev_state \<Rightarrow> bool"
  for K L R where
  reach_new: "dev_reach K L R (e, Device_new)"
| reach_step: "dev_reach K L R st \<Longrightarrow> dev_step K L R st st' \<Longrightarrow> dev_reach K L R st'"

definition dev_inv :: "'c device \<Rightarrow> bool" where
  "dev_inv d \<longleftrightarrow> (Device_isOpen d \<longrightarrow> Device_isValid d) \<and>
     (\<forall>l. dev_backend d = Some l \<longrightarrow> nl_net l \<noteq> NoNet)"

lemma dev_inv_new [simp]: "dev_inv Device_new"
  by (simp add: dev_inv_def Device_new_def Device_isOpen_def)

lemma dev_inv_same: "same_device d d' \<Longrightarrow> dev_inv d \<Longrightarrow> dev_inv d'"
  by (cases "dev_backend d"; cases "dev_backend d'")
    (auto simp: dev_inv_def same_device_def dev_link_def Device_isOpen_def Device_isValid_def)

lemma same_device_link: "same_device d d' \<Longrightarrow> dev_link d' = dev_link d"
  by (simp add: same_device_def)

lemma dev_step_keeps:
  assumes "dev_step K L R st st'" and "dev_inv (snd st)"
  shows "dev_inv (snd st') \<and> (Device_isValid (snd st) \<longrightarrow> dev_link (snd st') = dev_link (snd st))"
  using assms
proof cases
  case (step_setBackend d n conn s ok d' e e')
  then show ?thesis
    using assms(2)
    by (auto simp: Device_setBackend_def Device_Private_setBackend_def and_then_eq_Inr dev_inv_def
        Device_isValid_def Device_isOpen_def RtuLayer_Private_def TcpLayer_Private_def Let_def
        split: if_splits Net.splits option.splits)
next
  case (step_open ok)
  then show ?thesis
    using assms(2)
    by (auto simp: Device_open_def and_then_eq_Inr dev_inv_def Device_isValid_def Device_isOpen_def
        same_device_def dev_link_def dest!: Device_Private_open_same split: if_splits)
next
  case step_close
  then show ?thesis
    using assms(2)
    by (auto simp: Device_close_def and_then_eq_Inr dev_inv_def Device_isValid_def Device_isOpen_def
        same_device_def dev_link_def dest!: Device_Private_close_same split: if_splits)
next
  case (step_setDebug dbg ok)
  then obtain d where "same_device (snd st) d" "snd st' = d \<or> snd st' = d\<lparr>dev_debug := dbg\<rparr>"
    by (auto simp: Device_setDebug_def and_then_eq_Inr Let_def split: if_splits dest!: Device_call_same)
  then show ?thesis
    using assms(2) dev_inv_same [of "snd st" d] same_device_link [of "snd st" d]
    by (auto simp: dev_inv_def dev_link_def Device_isValid_def Device_isOpen_def)
next
  case (step_setRecoveryLink d b ok d' e)
  then show ?thesis
    using assms(2) by (auto simp: Device_setRecoveryLink_def dev_inv_def dev_link_def Device_isValid_def Device_isOpen_def)
qed (use assms(2) dev_inv_same same_device_link in \<open>blast dest: device_frame\<close>)+

section \<open>Properties\<close>

text \<open>C21. In every state that calls of the interface can produce, an open device has a layer, the
  layer is an RTU or a TCP layer, and no further call changes its network, connection or
  settings.\<close>

theorem device_reachable_states:
  assumes "dev_reach K L R (e, d)"
  shows "(Device_isOpen d \<longrightarrow> Device_isValid d) \<and>
    (Device_isValid d \<longrightarrow> Device_net d \<in> {Inr Rtu, Inr Tcp}) \<and>
    (\<forall>st'. dev_step K L R (e, d) st' \<longrightarrow> Device_isValid d \<longrightarrow> dev_link (snd st') = dev_link d)"
proof -
  have "dev_reach K L R st \<Longrightarrow> dev_inv (snd st)" for st
    by (induction rule: dev_reach.induct)
      (simp_all add: dev_step_keeps)
  from this [OF assms] have inv: "dev_inv d" by simp
  then have "Device_isValid d \<longrightarrow> Device_net d \<in> {Inr Rtu, Inr Tcp}"
    by (cases "dev_backend d"; cases "nl_net (the (dev_backend d))")
      (auto simp: dev_inv_def Device_net_def Device_isValid_def Device_backend_def)
  then show ?thesis
    using inv dev_step_keeps [of K L R "(e, d)"] by (auto simp: dev_inv_def)
qed

text \<open>A link for the witnesses: its context counts the transmissions that still fail, with the
  connection lost; each new connection brings it nearer to working again. The other one is
  dead.\<close>

definition sample_link :: "nat modbus_link" where
  "sample_link = \<lparr>
     modbus_new_rtu = (\<lambda>_ _ _ _ _. Some 2), modbus_new_tcp_pi = (\<lambda>_ _. Some 2),
     modbus_connect = (\<lambda>c. (0, None, c - 1)), modbus_close = (\<lambda>c. c),
     modbus_flush = (\<lambda>c. (0, None, c - 1)), modbus_get_socket = (\<lambda>c. 3),
     modbus_set_debug = (\<lambda>c _. (0, None, c)),
     modbus_set_response_timeout = (\<lambda>c _ _. (0, None, c)),
     modbus_get_response_timeout = (\<lambda>c. ((0, 500000), 0, None, c)),
     modbus_set_byte_timeout = (\<lambda>c _ _. (0, None, c)),
     modbus_get_byte_timeout = (\<lambda>c. ((0, 500000), 0, None, c)),
     modbus_set_indication_timeout = (\<lambda>c _ _. (0, None, c)),
     modbus_get_indication_timeout = (\<lambda>c. ((0, 500000), 0, None, c)),
     sys_write = (\<lambda>c bs. if c = 0 then (int (length bs), None, c) else (-1, Some EBADF, c)),
     sys_send = (\<lambda>c bs. if c = 0 then (int (length bs), None, c) else (-1, Some EPIPE, c)) \<rparr>"

definition dead_link :: "nat modbus_link" where
  "dead_link = sample_link\<lparr>sys_write := (\<lambda>c bs. (-1, Some EBADF, c)),
                           sys_send := (\<lambda>c bs. (-1, Some EPIPE, c))\<rparr>"

definition good_link :: "nat modbus_link" where
  "good_link = sample_link\<lparr>sys_write := (\<lambda>c bs. (int (length bs), None, c)),
                           sys_send := (\<lambda>c bs. (int (length bs), None, c))\<rparr>"

definition sample_api :: "nat rtu_api" where
  "sample_api = \<lparr>modbus_rtu_get_serial_mode = (\<lambda>_. 0), modbus_rtu_set_serial_mode = (\<lambda>c _. (0, None, c)),
     modbus_rtu_get_rts = (\<lambda>_. 0), modbus_rtu_set_rts = (\<lambda>c _. (0, None, c)),
     modbus_rtu_get_rts_delay = (\<lambda>_. 1), modbus_rtu_set_rts_delay = (\<lambda>c _. (0, None, c)),
     MODBUS_RTU_RTS_NONE = 0, MODBUS_RTU_RTS_UP = 1, MODBUS_RTU_RTS_DOWN = 2\<rparr>"

definition sample_device :: "nat \<Rightarrow> nat device" where
  "sample_device c = \<lparr>dev_isOpen = True,
     dev_backend = Some \<lparr>nl_net = Tcp, connection = ''localhost'', settings = ''1502'',
       nl_maxAduLength = 260, ctx = c, nl_transactionId = 1, oneByteTime = 0\<rparr>,
     dev_recoveryLink = True, dev_debug = False\<rparr>"

theorem device_reachable_states_witness:
  "Device_net (sample_device 2\<lparr>dev_isOpen := False, dev_recoveryLink := False\<rparr>) \<in> {Inr Rtu, Inr Tcp}"
proof -
  let ?d = "sample_device 2\<lparr>dev_isOpen := False, dev_recoveryLink := False\<rparr>"
  have "Device_setBackend libmodbus_values sample_link sample_api Device_new Tcp ''localhost'' ''1502''
      = Inr (True, ?d)"
    by (simp add: Device_setBackend_def Device_Private_setBackend_def TcpLayer_Private_def Device_new_def
        Device_isValid_def sample_link_def sample_device_def libmodbus_values_def)
  then have "dev_reach libmodbus_values sample_link sample_api (ENOERR, ?d)"
    by (blast intro: reach_step reach_new step_setBackend)
  from device_reachable_states [OF this] show ?thesis
    by (simp add: Device_isValid_def sample_device_def)
qed

lemma RtuLayer_send_rc:
  assumes "aduSize msg \<le> length (adu msg)"
    and "\<And>c. fst (sys_write L c (take (aduSize msg) (adu msg))) = rc"
  shows "\<exists>e' l'. RtuLayer_sendRawMessage L R e l msg = Inr (rc, e', l')"
proof -
  let ?bs = "take (aduSize msg) (adu msg)"
  have bytes: "vread (adu msg) 0 (int (aduSize msg)) = Inr ?bs"
    using assms(1) by (simp add: vread_in)
  have w: "\<exists>e c'. sys_write L c ?bs = (rc, e, c')" for c
    using assms(2) [of c] by (metis prod.collapse)
  let ?r = "if RtuLayer_rts R l = MODBUS_RTU_RTS_DOWN R then MODBUS_RTU_RTS_UP R else MODBUS_RTU_RTS_DOWN R"
  obtain b1 e1 l1 where 1: "RtuLayer_setRts R l ?r = (b1, e1, l1)" by (metis prod.collapse)
  obtain e2 c2 where 2: "sys_write L (ctx l1) ?bs = (rc, e2, c2)" using w by blast
  obtain b3 e3 l3 where 3: "RtuLayer_setRts R (l1\<lparr>ctx := c2\<rparr>)
      (if ?r = MODBUS_RTU_RTS_DOWN R then MODBUS_RTU_RTS_UP R else MODBUS_RTU_RTS_DOWN R) = (b3, e3, l3)"
    by (metis prod.collapse)
  obtain e4 c4 where 4: "sys_write L (ctx l) ?bs = (rc, e4, c4)" using w by blast
  show ?thesis
    unfolding RtuLayer_sendRawMessage_def bytes and_then_Inr Let_def 1 prod.case 2 on_ctx_def 3 4
    by simp
qed

lemma TcpLayer_send_rc:
  assumes "aduSize msg \<le> length (adu msg)"
    and "\<And>c. fst (sys_send L c (take (aduSize msg) (adu msg))) = rc"
  shows "\<exists>e' l'. TcpLayer_sendRawMessage L e l msg = Inr (rc, e', l')"
  using assms(1) assms(2) [of "ctx l"]
  by (auto simp: TcpLayer_sendRawMessage_def vread_in on_ctx_def split: prod.split)

lemma NetLayer_send_rc:
  assumes "aduSize msg \<le> length (adu msg)" and "nl_net l \<noteq> NoNet \<or> rc = -1"
    and "\<And>c. fst (sys_write L c (take (aduSize msg) (adu msg))) = rc"
    and "\<And>c. fst (sys_send L c (take (aduSize msg) (adu msg))) = rc"
  shows "\<exists>e' l'. NetLayer_sendRawMessage L R e l msg = Inr (rc, e', l')"
  using RtuLayer_send_rc [OF assms(1,3)] TcpLayer_send_rc [OF assms(1,4)] assms(2)
  by (cases "nl_net l") (auto simp: NetLayer_sendRawMessage_def)

lemma Device_sendOnce_rc:
  "dev_backend (snd st) = Some l \<Longrightarrow> NetLayer_sendRawMessage L R (fst st) l msg = Inr (rc, e', l') \<Longrightarrow>
   Device_sendOnce L R st msg = Inr (rc, e', (snd st)\<lparr>dev_backend := Some l'\<rparr>)"
  by (simp add: Device_sendOnce_def Device_backend_def)

text \<open>C26. With a link that accepts every byte it is given, \<open>sendRawMessage\<close> transmits the whole
  ADU and still returns -1 with \<open>EMBBADDATA\<close>, for every message with a header: it compares the
  number of bytes sent with the size of the PDU.\<close>

theorem device_send_complete_fails:
  assumes "dev_backend d = Some l" and "nl_net l \<noteq> NoNet"
    and "1 \<le> pduBegin msg" and "0 < aduSize msg" and "aduSize msg \<le> length (adu msg)"
    and "\<And>c bs. fst (sys_write L c bs) = int (length bs) \<and> fst (sys_send L c bs) = int (length bs)"
  shows "\<exists>e' d'. Device_sendOnce L R (e, d) msg = Inr (int (aduSize msg), e', d') \<and>
    (\<forall>fuel. Device_sendRawMessage (Suc fuel) L R (e, d) msg False
        = Some (Inr (-1, (EMBBADDATA, d'), msg)))"
proof -
  obtain e' l' where "NetLayer_sendRawMessage L R e l msg = Inr (int (aduSize msg), e', l')"
    using NetLayer_send_rc [of msg l "int (aduSize msg)" L R e] assms(2,5,6) by auto
  then have once: "Device_sendOnce L R (e, d) msg = Inr (int (aduSize msg), e', d\<lparr>dev_backend := Some l'\<rparr>)"
    using Device_sendOnce_rc [of "(e, d)" l] assms(1) by simp
  have "int (aduSize msg) \<noteq> int (Message_size msg)"
    using assms(3,4) by (auto simp: Message_size_def)
  then show ?thesis
    using once assms(1,4) by (simp add: Device_sendRawMessage_def Device_isValid_def)
qed

theorem device_send_complete_fails_witness:
  "\<exists>e' d'. Device_sendOnce good_link sample_api (ENOERR, sample_device 0) sample_tcp
        = Inr (int (aduSize sample_tcp), e', d') \<and>
    (\<forall>fuel. Device_sendRawMessage (Suc fuel) good_link sample_api (ENOERR, sample_device 0) sample_tcp False
        = Some (Inr (-1, (EMBBADDATA, d'), sample_tcp)))"
  by (rule device_send_complete_fails [where l = "the (dev_backend (sample_device 0))"])
    (simp_all add: sample_device_def sample_tcp_def good_link_def sample_link_def)

text \<open>C30. How often a prepared message is transmitted. Without recovery of the link, and for every
  response, exactly once: \<open>sendRawMessage\<close> returns after that transmission, with its result, whatever
  it is. With recovery, a request is transmitted again exactly as long as the transmission fails
  with -1: when the first \<open>k\<close> fail and the next does not, the result is that of the transmission
  \<open>k + 1\<close>, after no fewer and no more turns of the loop; when none ever succeeds it does not return.\<close>

theorem device_send_ends:
  assumes "Device_isValid d" and "Device_prepare (e, d) msg p = Inr (True, st, msg1)"
  shows "(isResponse msg \<or> \<not> dev_recoveryLink d \<longrightarrow> (\<forall>fuel.
      Device_sendRawMessage (Suc fuel) L R (e, d) msg p = Some (case Device_sendOnce L R st msg1 of
          Inl x \<Rightarrow> Inl x | Inr (rc, st') \<Rightarrow> Inr (Device_sendResult msg1 rc st')))) \<and>
    (\<not> isResponse msg \<and> dev_recoveryLink d \<longrightarrow>
      (\<forall>k st' rc st''. after_failures k L R st msg1 = Some st' \<longrightarrow>
        Device_sendOnce L R st' msg1 = Inr (rc, st'') \<longrightarrow> rc \<noteq> -1 \<longrightarrow>
        (\<forall>fuel. Device_sendRawMessage fuel L R (e, d) msg p =
          (if fuel \<le> k then None else Some (Inr (Device_sendResult msg1 rc st''))))) \<and>
      ((\<forall>k. after_failures k L R st msg1 \<noteq> None) \<longrightarrow>
        (\<forall>fuel. Device_sendRawMessage fuel L R (e, d) msg p = None)))"
proof (intro conjI impI allI)
  have s: "dev_recoveryLink (snd st) = dev_recoveryLink d"
    using Device_prepare_same [OF assms(2)] by (simp add: same_device_def)
  have f: "isResponse msg1 = isResponse msg" using Device_prepare_flag [OF assms(2)] .
  note r = Device_sendRawMessage_loop [of "(e, d)", simplified, OF assms]
  {
    fix fuel assume "isResponse msg \<or> \<not> dev_recoveryLink d"
    then show "Device_sendRawMessage (Suc fuel) L R (e, d) msg p = Some (case Device_sendOnce L R st msg1 of
        Inl x \<Rightarrow> Inl x | Inr (rc, st') \<Rightarrow> Inr (Device_sendResult msg1 rc st'))"
      using s f Device_sendOnce_same [of L R st msg1] by (auto simp: r same_device_def split: sum.split)
  next
    fix fuel k st' rc st''
    assume a: "\<not> isResponse msg \<and> dev_recoveryLink d" "after_failures k L R st msg1 = Some st'"
      "Device_sendOnce L R st' msg1 = Inr (rc, st'')" "rc \<noteq> -1"
    have "Device_sendLoop fuel L R st msg1 = Device_sendLoop (fuel - k) L R st' msg1"
      using Device_sendLoop_failures [OF _ a(2)] a(1) s f by simp
    then show "Device_sendRawMessage fuel L R (e, d) msg p =
        (if fuel \<le> k then None else Some (Inr (Device_sendResult msg1 rc st'')))"
      using a(3,4) by (cases "fuel - k") (simp_all add: r)
  next
    fix fuel
    assume a: "\<not> isResponse msg \<and> dev_recoveryLink d" "\<forall>k. after_failures k L R st msg1 \<noteq> None"
    obtain st' where "after_failures fuel L R st msg1 = Some st'"
      using spec [OF a(2), of fuel] unfolding not_None_eq by blast
    then have "Device_sendLoop fuel L R st msg1 = None"
      using Device_sendLoop_failures [of msg1 fuel L R st st' fuel] a(1) s f by simp
    then show "Device_sendRawMessage fuel L R (e, d) msg p = None" by (simp add: r)
  }
qed

text \<open>A link that fails twice: the third transmission of a request is the last one.\<close>

theorem device_send_ends_witness:
  "Device_sendRawMessage 2 sample_link sample_api (ENOERR, sample_device 2) sample_tcp False = None \<and>
   (\<exists>r. Device_sendRawMessage 3 sample_link sample_api (ENOERR, sample_device 2) sample_tcp False = Some (Inr r))"
proof -
  let ?d = "sample_device 2"
  have v: "Device_isValid ?d" "Device_prepare (ENOERR, ?d) sample_tcp False = Inr (True, (ENOERR, ?d), sample_tcp)"
    by (simp_all add: Device_isValid_def Device_prepare_def sample_device_def)
  have q: "\<not> isResponse sample_tcp \<and> dev_recoveryLink ?d" by (simp add: sample_tcp_def sample_device_def)
  obtain st' rc st'' where k: "after_failures 2 sample_link sample_api (ENOERR, ?d) sample_tcp = Some st'"
    and o: "Device_sendOnce sample_link sample_api st' sample_tcp = Inr (rc, st'')" "rc \<noteq> -1"
    by (simp add: numeral_2_eq_2 Device_sendOnce_def Device_backend_def sample_device_def NetLayer_sendRawMessage_def
        TcpLayer_sendRawMessage_def on_ctx_def sample_link_def sample_tcp_def Device_recover_def Let_def
        Device_responseTimeout_def Device_getTimeout_def Device_call_def Device_Private_close_def Device_Private_open_def
        vread_def)
  have "Device_sendRawMessage fuel sample_link sample_api (ENOERR, ?d) sample_tcp False
      = (if fuel \<le> 2 then None else Some (Inr (Device_sendResult sample_tcp rc st'')))" for fuel
    using conjunct1 [OF mp [OF conjunct2 [OF device_send_ends [OF v]] q]] k o by blast
  from this [of 2] this [of 3] show ?thesis by (simp del: split_paired_Ex)
qed

text \<open>C33. With the recovery of the link on, a request on a link that stays dead is never given
  up: no number of iterations makes \<open>sendRawMessage\<close> return.\<close>

theorem device_send_never_gives_up:
  assumes "dev_backend d = Some l" and "dev_recoveryLink d" and "\<not> isResponse msg"
    and "aduSize msg \<le> length (adu msg)"
    and "\<And>c bs. fst (sys_write L c bs) = -1 \<and> fst (sys_send L c bs) = -1"
  shows "Device_sendRawMessage fuel L R (e, d) msg False = None"
proof -
  have "\<exists>st1. Device_sendOnce L R st msg = Inr (-1, st1)" if link: "dev_link (snd st) = dev_link d" for st
  proof -
    obtain l0 where l0: "dev_backend (snd st) = Some l0"
      using link assms(1) by (auto simp: dev_link_def)
    obtain e' l' where "NetLayer_sendRawMessage L R (fst st) l0 msg = Inr (-1, e', l')"
      using NetLayer_send_rc [of msg l0 "-1" L R "fst st"] assms(4,5) by auto
    then show ?thesis using Device_sendOnce_rc [OF l0] by blast
  qed
  then have "Device_sendLoop fuel L R (e, d) msg = None"
    by (rule Device_sendLoop_dead) (use assms(1-3) in \<open>auto simp: dev_link_def\<close>)
  then show ?thesis
    using assms(1) by (simp add: Device_sendRawMessage_def Device_isValid_def)
qed

theorem device_send_never_gives_up_witness:
  "Device_sendRawMessage 1000 dead_link sample_api (ENOERR, sample_device 0) sample_tcp False = None"
  by (rule device_send_never_gives_up [where l = "the (dev_backend (sample_device 0))"])
    (simp_all add: sample_device_def sample_tcp_def dead_link_def)

end
