(* ===== verification/Swap_Data.thy ===== *)
theory Swap_Data
  imports Modbus_Types
begin

text \<open>
  \<open>include/modbuspp/swap.h\<close> and \<open>include/modbuspp/data.h\<close>. A value of the arithmetic type \<open>T\<close> is
  its object representation, a list of \<open>sizeof (T)\<close> bytes; the host is little-endian
  (\<open>__BYTE_ORDER == __LITTLE_ENDIAN\<close>), so the code that views the value as an array of
  \<open>uint16_t\<close> reads two bytes with the low one first. \<open>sizeof (T)\<close> is even, as the
  \<open>static_assert\<close> of the class \<open>Data\<close> demands.
\<close>

section \<open>Loading and storing 16-bit words on a little-endian host\<close>

fun load16 :: "u8 list \<Rightarrow> u16 list" where
  "load16 (lo # hi # bs) = word_be hi lo # load16 bs"
| "load16 _ = []"

fun store16 :: "u16 list \<Rightarrow> u8 list" where
  "store16 [] = []"
| "store16 (w # ws) = lo_byte w # hi_byte w # store16 ws"

lemma load16_store16 [simp]: "load16 (store16 ws) = ws"
  by (induction ws) simp_all

lemma store16_load16: "even (length bs) \<Longrightarrow> store16 (load16 bs) = bs"
  by (induction bs rule: load16.induct) auto

lemma length_load16 [simp]: "length (load16 bs) = length bs div 2"
  by (induction bs rule: load16.induct) auto

lemma length_store16 [simp]: "length (store16 ws) = 2 * length ws"
  by (induction ws) simp_all

lemma nth_load16:
  "i < length bs div 2 \<Longrightarrow> load16 bs ! i = word_be (bs ! (2 * i + 1)) (bs ! (2 * i))"
  by (induction bs arbitrary: i rule: load16.induct) (auto simp: nth_Cons' intro!: arg_cong2 [of _ _ _ _ word_be] arg_cong2 [of _ _ _ _ nth])

lemma nth_store16:
  "i < 2 * length ws \<Longrightarrow>
   store16 ws ! i = (if even i then lo_byte (ws ! (i div 2)) else hi_byte (ws ! (i div 2)))"
proof (induction ws arbitrary: i)
  case (Cons w ws)
  consider "i = 0" | "i = 1" | k where "i = Suc (Suc k)" by (metis One_nat_def not0_implies_Suc)
  then show ?case
    by cases (use Cons in auto)
qed simp

section \<open>swap.h\<close>

text \<open>\<open>std::swap (ptr[i], ptr[j])\<close>, with both indexes in bounds by the loops below.\<close>

definition swap_at :: "'a list \<Rightarrow> nat \<Rightarrow> nat \<Rightarrow> 'a list" where
  "swap_at p i j = p[i := p ! j, j := p ! i]"

text \<open>\<open>for (i = 0; i < k; ++i) std::swap (ptr[i], ptr[n - 1 - i]);\<close>\<close>

definition swap_ends :: "nat \<Rightarrow> nat \<Rightarrow> 'a list \<Rightarrow> 'a list" where
  "swap_ends n k p = fold (\<lambda>i p. swap_at p i (n - 1 - i)) [0..<k] p"

definition swapBytes :: "u8 list \<Rightarrow> u8 list" where
  "swapBytes input = swap_ends (length input) (length input div 2) input"

definition swapWords :: "u8 list \<Rightarrow> u8 list" where
  "swapWords input = store16 (swap_ends (length input div 2) (length input div 4) (load16 input))"

text \<open>\<open>swapBytes\<close> at the type \<open>uint16_t\<close>.\<close>

definition swapBytes16 :: "u16 \<Rightarrow> u16" where
  "swapBytes16 w = hd (load16 (swapBytes (store16 [w])))"

definition swapBytesInWords :: "u8 list \<Rightarrow> u8 list" where
  "swapBytesInWords input =
     store16 (fold (\<lambda>i ptr. ptr[i := swapBytes16 (ptr ! i)]) [0..<length input div 2] (load16 input))"

definition hton :: "u8 list \<Rightarrow> u8 list" where
  "hton input = swapBytes input"

definition ntoh :: "u8 list \<Rightarrow> u8 list" where
  "ntoh input = swapBytes input"

definition hton16 :: "u16 \<Rightarrow> u16" where
  "hton16 input = swapBytes16 input"

definition ntoh16 :: "u16 \<Rightarrow> u16" where
  "ntoh16 input = swapBytes16 input"

subsection \<open>What the loops compute\<close>

lemma swap_at_length [simp]: "length (swap_at p i j) = length p"
  by (simp add: swap_at_def)

lemma swap_ends_Suc: "swap_ends n (Suc k) p = swap_at (swap_ends n k p) k (n - 1 - k)"
  by (simp add: swap_ends_def)

lemma swap_ends_length [simp]: "length (swap_ends n k p) = length p"
  by (induction k) (simp_all add: swap_ends_Suc, simp add: swap_ends_def)

lemma swap_ends_nth:
  "k \<le> length p div 2 \<Longrightarrow> j < length p \<Longrightarrow>
   swap_ends (length p) k p ! j
     = (if j < k \<or> length p - k \<le> j then p ! (length p - 1 - j) else p ! j)"
proof (induction k arbitrary: j)
  case 0
  then show ?case by (simp add: swap_ends_def)
next
  case (Suc k)
  have k: "k < length p" "length p - 1 - k < length p" using Suc.prems(1) by auto
  note IH = Suc.IH [OF Suc_leD [OF Suc.prems(1)]]
  show ?case
    using Suc.prems k
    by (auto simp: swap_ends_Suc swap_at_def nth_list_update IH)
qed

lemma swap_ends_rev:
  assumes "k = length p div 2"
  shows "swap_ends (length p) k p = rev p"
proof (rule nth_equalityI)
  fix j assume "j < length (swap_ends (length p) k p)"
  then have j: "j < length p" by simp
  have mid: "\<not> (j < k \<or> length p - k \<le> j) \<Longrightarrow> length p - 1 - j = j"
    using assms j by auto
  then show "swap_ends (length p) k p ! j = rev p ! j"
    using j assms by (auto simp: swap_ends_nth rev_nth)
qed simp

lemma swapBytes_rev [simp]: "swapBytes bs = rev bs"
  by (simp add: swapBytes_def swap_ends_rev)

lemma swapWords_eq: "swapWords bs = store16 (rev (load16 bs))"
proof -
  have "swap_ends (length bs div 2) (length bs div 4) (load16 bs) = rev (load16 bs)"
    using swap_ends_rev [of "length bs div 4" "load16 bs"] by (simp add: div_mult2_eq [of _ 2 2, simplified])
  then show ?thesis by (simp add: swapWords_def)
qed

lemma swapBytes16_eq: "swapBytes16 w = word_be (lo_byte w) (hi_byte w)"
  by (simp add: swapBytes16_def)

lemma swapBytes16_twice [simp]: "swapBytes16 (swapBytes16 w) = w"
  by (simp add: swapBytes16_eq)

lemma fold_update_map: "k \<le> length p \<Longrightarrow>
   fold (\<lambda>i p. p[i := f (p ! i)]) [0..<k] p = map f (take k p) @ drop k p"
proof (induction k)
  case (Suc k)
  then show ?case
    by (simp add: list_update_append take_Suc_conv_app_nth nth_append Cons_nth_drop_Suc [symmetric])
qed simp

lemma swapBytesInWords_eq: "swapBytesInWords bs = store16 (map swapBytes16 (load16 bs))"
  by (simp add: swapBytesInWords_def fold_update_map)

lemmas swap_simps = swapBytes_rev swapWords_eq swapBytesInWords_eq hton_def ntoh_def
  hton16_def ntoh16_def

end
