(* ===== verification/Data_Codec.thy ===== *)
theory Data_Codec
  imports Swap_Data Cxx_Strings
begin

text \<open>
  \<open>include/modbuspp/data.h\<close> and \<open>include/modbuspp/slavereport.h\<close>: the class \<open>Data\<close>, which holds
  a value and the Modbus registers that carry it, the size of a \<open>DataType\<close>, the parser \<open>strToT\<close>
  and the class \<open>SlaveReport\<close>. The lemmas give the registers of every byte and word order in
  closed form, from the numeric value, and the round trips between values and registers.
\<close>

section \<open>The class Data\<close>

record data =
  m_value :: "u8 list"
  m_endian :: Endian
  m_registers :: "u16 list"

fun swap_value :: "Endian \<Rightarrow> u8 list \<Rightarrow> u8 list" where
  "swap_value EndianBigBig v = v"
| "swap_value EndianBigLittle v = swapWords v"
| "swap_value EndianLittleBig v = swapBytesInWords v"
| "swap_value EndianLittleLittle v = swapBytes v"

definition Data_swap :: "data \<Rightarrow> u8 list \<Rightarrow> u8 list" where
  "Data_swap d v = swap_value (m_endian d) v"

definition Data_updateRegisters :: "data \<Rightarrow> data" where
  "Data_updateRegisters d =
     (let v = Data_swap d (hton (m_value d))
      in d\<lparr>m_registers := map ntoh16 (load16 v)\<rparr>)"

definition Data_updateValue :: "data \<Rightarrow> data" where
  "Data_updateValue d =
     (let regs = map hton16 (m_registers d);
          v = Data_swap d (store16 regs)
      in d\<lparr>m_registers := regs, m_value := ntoh v\<rparr>)"

text \<open>The constructors, the assignment of a value, and \<open>setEndianness\<close>. The registers hold
  nothing before the first \<open>updateRegisters\<close>.\<close>

definition Data_of_value :: "u8 list \<Rightarrow> Endian \<Rightarrow> data" where
  "Data_of_value t e = Data_updateRegisters \<lparr>m_value = t, m_endian = e, m_registers = []\<rparr>"

definition Data_default :: "nat \<Rightarrow> Endian \<Rightarrow> data" where
  "Data_default size_of_T e =
     Data_updateRegisters \<lparr>m_value = replicate size_of_T 0, m_endian = e, m_registers = []\<rparr>"

definition Data_assign :: "data \<Rightarrow> u8 list \<Rightarrow> data" where
  "Data_assign d t = Data_updateRegisters (d\<lparr>m_value := t\<rparr>)"

definition Data_setEndianness :: "data \<Rightarrow> Endian \<Rightarrow> data" where
  "Data_setEndianness d e = Data_updateRegisters (d\<lparr>m_endian := e\<rparr>)"

definition Data_size :: "data \<Rightarrow> nat" where
  "Data_size d = length (m_value d)"

section \<open>The orders in closed form\<close>

fun bytes_big :: "Endian \<Rightarrow> bool" where
  "bytes_big e = (e = EndianBigBig \<or> e = EndianBigLittle)"

fun words_big :: "Endian \<Rightarrow> bool" where
  "words_big e = (e = EndianBigBig \<or> e = EndianLittleBig)"

definition order_words :: "Endian \<Rightarrow> u16 list \<Rightarrow> u16 list" where
  "order_words e ws =
     map (if bytes_big e then id else swapBytes16) ((if words_big e then rev else id) ws)"

lemma order_words_twice [simp]: "order_words e (order_words e ws) = ws"
  by (cases e) (simp_all add: order_words_def rev_map map_idI)

lemma order_words_length [simp]: "length (order_words e ws) = length ws"
  by (simp add: order_words_def)

lemma load16_rev:
  "even (length bs) \<Longrightarrow> load16 (rev bs) = rev (map swapBytes16 (load16 bs))"
proof (induction bs rule: load16.induct)
  case (1 lo hi bs)
  have "load16 (xs @ [a, b]) = load16 xs @ [word_be b a]" if "even (length xs)" for xs :: "u8 list" and a b
    using that by (induction xs rule: load16.induct) auto
  with 1 show ?case by (simp add: swapBytes16_eq)
qed auto

lemma store16_rev: "store16 (rev (map swapBytes16 ws)) = rev (store16 ws)"
  using load16_rev [of "store16 ws"] store16_load16 [of "rev (store16 ws)"] by simp

lemma updateRegisters_words:
  "even (length (m_value d)) \<Longrightarrow>
   m_registers (Data_updateRegisters d) = order_words (m_endian d) (load16 (m_value d))"
  by (cases "m_endian d")
    (simp_all add: Data_updateRegisters_def Data_swap_def swap_simps order_words_def
      load16_rev rev_map map_idI)

lemma hton16_fun: "hton16 = swapBytes16" and ntoh16_fun: "ntoh16 = swapBytes16"
  by (auto simp: hton16_def ntoh16_def)

lemma updateValue_words:
  "m_value (Data_updateValue d) = store16 (order_words (m_endian d) (m_registers d))"
proof -
  have *: "rev (store16 ws) = store16 (rev (map swapBytes16 ws))" for ws
    by (simp add: store16_rev)
  show ?thesis
    by (cases "m_endian d")
      (simp_all add: Data_updateValue_def Let_def Data_swap_def swap_simps hton16_fun
        order_words_def * rev_map map_idI comp_def)
qed

lemma updateRegisters_fields [simp]:
  "m_value (Data_updateRegisters d) = m_value d"
  "m_endian (Data_updateRegisters d) = m_endian d"
  by (simp_all add: Data_updateRegisters_def Let_def)

lemma updateValue_fields [simp]:
  "m_registers (Data_updateValue d) = map swapBytes16 (m_registers d)"
  "m_endian (Data_updateValue d) = m_endian d"
  by (simp_all add: Data_updateValue_def Let_def swap_simps comp_def)

section \<open>Numeric values\<close>

text \<open>The object representation of an unsigned number on the little-endian host.\<close>

definition le_bytes :: "nat \<Rightarrow> nat \<Rightarrow> u8 list" where
  "le_bytes n x = map (\<lambda>i. of_nat (x div 256 ^ i)) [0..<n]"

lemma le_bytes_length [simp]: "length (le_bytes n x) = n"
  by (simp add: le_bytes_def)

lemma word_be_of_nat: "word_be (of_nat (x div 256)) (of_nat x) = of_nat x"
proof -
  have "x div 256 mod 256 * 256 + x mod 256 = x mod 65536"
    using mod_mult2_eq [of x 256 256] by simp
  then show ?thesis
    by (simp add: word_eq_iff_unsigned [where ?'a = nat] unat_word_be unat_of_nat)
qed

lemma load16_le_bytes:
  "load16 (le_bytes (2 * k) x) = map (\<lambda>i. of_nat (x div 65536 ^ i)) [0..<k]"
proof (rule nth_equalityI)
  fix i assume "i < length (load16 (le_bytes (2 * k) x))"
  then have i: "i < k" by simp
  have "x div 256 ^ (2 * i + 1) = x div 256 ^ (2 * i) div 256"
    by (simp add: div_mult2_eq [symmetric] mult.commute)
  moreover have "(256 :: nat) ^ (2 * i) = 65536 ^ i"
    by (simp add: power_mult)
  ultimately show "load16 (le_bytes (2 * k) x) ! i = map (\<lambda>i. of_nat (x div 65536 ^ i)) [0..<k] ! i"
    using i by (simp add: nth_load16 le_bytes_def word_be_of_nat)
qed simp

text \<open>A \<open>Data\<close> built from a number of \<open>2 * k\<close> bytes holds its \<open>k\<close> 16-bit digits: the most
  significant first when the word order is big, the least significant first otherwise, each
  with its two bytes exchanged when the byte order is little.\<close>

theorem data_registers_of_value:
  assumes "i < k"
  shows "m_registers (Data_of_value (le_bytes (2 * k) x) e) ! i
    = (if bytes_big e then id else swapBytes16)
        (of_nat (x div 65536 ^ (if words_big e then k - 1 - i else i)))"
  using assms
  by (cases e) (simp_all add: Data_of_value_def updateRegisters_words order_words_def
      load16_le_bytes rev_nth)

theorem data_registers_of_value_witness:
  "m_registers (Data_of_value (le_bytes (2 * 2) 0x12345678) EndianLittleBig) ! 0 = 0x3412"
  using data_registers_of_value [of 0 2 "0x12345678" EndianLittleBig]
  by (simp add: swapBytes16_eq word_be_def hi_byte_def lo_byte_def)

text \<open>C15. What \<open>updateValue\<close> decodes from the registers of a value is the value, for every byte
  and word order, and what \<open>updateRegisters\<close> encodes from a decoded value are the registers that
  were decoded.\<close>

theorem data_round_trip:
  assumes "even (length v)" and "length v = 2 * length regs"
  shows "m_value (Data_updateValue (Data_of_value v e)) = v
    \<and> m_registers (Data_updateRegisters (Data_updateValue
           \<lparr>m_value = v, m_endian = e, m_registers = regs\<rparr>)) = regs"
  using assms
  by (simp add: updateRegisters_words updateValue_words Data_of_value_def store16_load16)

theorem data_round_trip_witness:
  "m_value (Data_updateValue (Data_of_value [1, 2, 3, 4] EndianBigLittle)) = [1, 2, 3, 4]
   \<and> m_registers (Data_updateRegisters (Data_updateValue
       \<lparr>m_value = [1, 2, 3, 4], m_endian = EndianBigLittle, m_registers = [5, 6]\<rparr>)) = [5, 6]"
  by (rule data_round_trip) simp_all

text \<open>\<open>updateValue\<close> leaves the registers it decoded with the bytes of each exchanged, so
  \<open>registers()\<close> then differs from the registers of the value \<open>value()\<close> (which were read) as
  soon as one of them has two different bytes.\<close>

theorem data_registers_stale_after_read:
  assumes "even (length (m_value d))" and "length (m_value d) = 2 * length (m_registers d)"
    and "d' = Data_updateValue d"
  shows "m_registers (Data_updateRegisters d') = m_registers d
    \<and> m_registers d' = map swapBytes16 (m_registers d)
    \<and> (m_registers d' = m_registers (Data_updateRegisters d')
        \<longleftrightarrow> (\<forall>w \<in> set (m_registers d). hi_byte w = lo_byte w))"
proof -
  have *: "swapBytes16 w = w \<longleftrightarrow> hi_byte w = lo_byte w" for w
    using word_be_inject [of "lo_byte w" "hi_byte w" "hi_byte w" "lo_byte w"]
    by (auto simp: swapBytes16_eq)
  have "m_registers (Data_updateRegisters d') = m_registers d"
    using assms by (simp add: updateRegisters_words updateValue_words)
  then show ?thesis
    using assms(3) by (auto simp: map_idI * map_eq_conv [of _ _ id, simplified])
qed

theorem data_registers_stale_after_read_witness:
  "m_registers (Data_updateValue
     \<lparr>m_value = [0, 0], m_endian = EndianBigBig, m_registers = [0x1234]\<rparr>) = [0x3412]"
proof -
  let ?d = "\<lparr>m_value = [0, 0], m_endian = EndianBigBig, m_registers = [0x1234]\<rparr>"
  have "m_registers (Data_updateValue ?d) = map swapBytes16 (m_registers ?d)"
    using data_registers_stale_after_read [of ?d "Data_updateValue ?d"] by simp
  then show ?thesis
    by (simp add: swapBytes16_eq word_be_def hi_byte_def lo_byte_def)
qed

section \<open>DataType\<close>

text \<open>\<open>sizeof (long double)\<close> depends on the platform.\<close>

fun DataType_size :: "nat \<Rightarrow> DataEnum \<Rightarrow> nat" where
  "DataType_size long_double Int32 = 4"
| "DataType_size long_double Uint32 = 4"
| "DataType_size long_double Int64 = 8"
| "DataType_size long_double Uint64 = 8"
| "DataType_size long_double Float = 4"
| "DataType_size long_double Double = 8"
| "DataType_size long_double LongDouble = long_double"
| "DataType_size long_double _ = 2"

section \<open>strToT\<close>

text \<open>The branch of the unsigned types of \<open>w\<close> bits.\<close>

definition strToT_unsigned :: "nat \<Rightarrow> string \<Rightarrow> nat \<Rightarrow> nat res" where
  "strToT_unsigned w str base =
     and_then (std_stoull str base) (\<lambda>(ull, idx).
       if ull > 2 ^ w - 1 then Inl Out_of_range
       else if idx < length str then Inl Invalid_argument
       else Inr (unat ull))"

text \<open>The branch of the signed types of \<open>w\<close> bits: the result of \<open>std::stoll\<close> is stored in an
  \<open>unsigned long long\<close>, and the limits of the type are converted to that type to be compared.\<close>

definition strToT_signed :: "nat \<Rightarrow> string \<Rightarrow> nat \<Rightarrow> int res" where
  "strToT_signed w str base =
     and_then (std_stoll str base) (\<lambda>(i, idx).
       (let ll = (word_of_int i :: u64);
            highest = word_of_int (2 ^ (w - 1) - 1);
            lowest = word_of_int (- (2 ^ (w - 1)))
        in if ll > highest \<or> ll < lowest then Inl Out_of_range
           else if idx < length str then Inl Invalid_argument
           else Inr (sint ll)))"

lemma unat_mask_le: "w \<in> {16, 32, 64} \<Longrightarrow> unat (2 ^ w - 1 :: u64) = 2 ^ w - 1"
  by auto

text \<open>\<open>strToT\<close> of the unsigned types reads a decimal number exactly, throws
  \<open>std::out_of_range\<close> when the type cannot hold it, and \<open>std::invalid_argument\<close> when something
  follows the digits.\<close>

theorem strToT_unsigned_decimal:
  assumes "w \<in> {16, 32, 64}" and "ds \<noteq> []" and "\<forall>c \<in> set ds. is_digit c" and "hd ds \<noteq> CHR ''0''"
    and "rest = [] \<or> \<not> is_digit (hd rest)"
  shows "strToT_unsigned w (ds @ rest) 0
    = (if 2 ^ w \<le> digits_value 10 0 ds then Inl Out_of_range
       else if rest \<noteq> [] then Inl Invalid_argument
       else Inr (digits_value 10 0 ds))"
proof -
  let ?v = "digits_value 10 0 ds"
  have p: "parse_int 0 (ds @ rest) = Some (False, ?v, length ds)"
    by (rule parse_int_plain) (use assms in \<open>auto simp: digit_value_digit not_less\<close>)
  have w: "w \<le> 64" using assms(1) by auto
  then have le: "(2 :: nat) ^ w \<le> 2 ^ 64" by (rule power_increasing) simp
  show ?thesis
  proof (cases "?v < 2 ^ 64")
    case True
    then have u: "unat (of_nat ?v :: u64) = ?v" by (simp add: unat_of_nat)
    have "0 < (2 :: nat) ^ w" by simp
    then have "(of_nat ?v :: u64) > 2 ^ w - 1 \<longleftrightarrow> 2 ^ w \<le> ?v"
      unfolding word_less_nat_alt unat_mask_le [OF assms(1)] u by linarith
    then show ?thesis
      using True u by (simp add: strToT_unsigned_def std_stoull_def p)
  next
    case False
    then show ?thesis
      using le by (simp add: strToT_unsigned_def std_stoull_def p)
  qed
qed

theorem strToT_unsigned_decimal_witness:
  "strToT_unsigned 16 (''1234'' @ []) 0 = Inr 1234
   \<and> strToT_unsigned 32 (''12'' @ ''V'') 0 = Inl Invalid_argument
   \<and> strToT_unsigned 16 (''70000'' @ []) 0 = Inl Out_of_range"
  using strToT_unsigned_decimal [of 16 "''1234''" "[]"]
    strToT_unsigned_decimal [of 32 "''12''" "''V''"]
    strToT_unsigned_decimal [of 16 "''70000''" "[]"]
  by (simp add: is_digit_def digit_value_def)

text \<open>\<open>strToT\<close> of the signed types throws on every string, because no \<open>unsigned long long\<close>
  is both at most the highest and at least the converted lowest value of the type.\<close>

theorem strToT_signed_always_throws:
  assumes "w \<in> {16, 32, 64}"
  shows "\<exists>e \<in> {Invalid_argument, Out_of_range}. strToT_signed w str base = Inl e"
proof -
  have lim: "ll > word_of_int (2 ^ (w - 1) - 1) \<or> ll < word_of_int (- (2 ^ (w - 1)))" for ll :: u64
    using assms unsigned_less [of ll, where ?'a = int]
    by (auto simp: word_less_def not_less)
  show ?thesis
  proof (cases "std_stoll str base")
    case (Inl e)
    then have "e = Invalid_argument \<or> e = Out_of_range"
      by (auto simp: std_stoll_def Let_def split: option.splits prod.splits if_splits)
    then show ?thesis by (auto simp: strToT_signed_def Inl)
  next
    case (Inr r)
    then show ?thesis
      using lim by (auto simp: strToT_signed_def Let_def split: prod.split)
  qed
qed

theorem strToT_signed_always_throws_witness:
  "\<exists>e \<in> {Invalid_argument, Out_of_range}. strToT_signed 16 ''5'' 0 = Inl e"
  by (rule strToT_signed_always_throws) simp

end
