(* ===== verification/Slave_Report.thy ===== *)
theory Slave_Report
  imports Data_Codec
begin

text \<open>
  \<open>include/modbuspp/slavereport.h\<close>: the reply of a slave to the function Report Server ID. The
  array \<open>m_data\<close> has \<open>MODBUS_MAX_PDU_LENGTH\<close> bytes; what a constructor leaves in the bytes it does
  not write is an argument.
\<close>

record report =
  r_endian :: Endian
  r_size :: u16
  r_data :: "u8 list"

definition SlaveReport_default :: "Endian \<Rightarrow> u8 list \<Rightarrow> report" where
  "SlaveReport_default e memory = \<lparr>r_endian = e, r_size = 0, r_data = memory\<rparr>"

definition SlaveReport_reply :: "Endian \<Rightarrow> u8 list \<Rightarrow> int \<Rightarrow> u8 list \<Rightarrow> report res" where
  "SlaveReport_reply e memory len reply =
     and_then (vread reply 0 len) (\<lambda>bytes.
     and_then (vwrite memory 0 bytes) (\<lambda>bytes'.
       Inr ((SlaveReport_default e memory)\<lparr>r_data := bytes', r_size := word_of_int len\<rparr>)))"

text \<open>\<open>n\<close> is \<open>sizeof (T)\<close>.\<close>

definition SlaveReport_status :: "nat \<Rightarrow> report \<Rightarrow> bool res" where
  "SlaveReport_status n r =
     (if unat (r_size r) > n
      then and_then (vget (r_data r) (int n)) (\<lambda>b. Inr (b = 0xFF))
      else Inr False)"

definition SlaveReport_id :: "nat \<Rightarrow> report \<Rightarrow> u8 list res" where
  "SlaveReport_id n r =
     (if unat (r_size r) \<ge> n
      then and_then (vread (r_data r) 0 (int n)) (\<lambda>v. Inr (ntoh (swap_value (r_endian r) v)))
      else Inr (replicate n 0))"

text \<open>The length is computed in \<open>size_t\<close> and stored in 16 bits without a sign.\<close>

definition SlaveReport_data :: "nat \<Rightarrow> report \<Rightarrow> u8 list res" where
  "SlaveReport_data n r =
     (let len = (ucast ((ucast (r_size r) :: u64) - (of_nat n + 1)) :: u16)
      in if len > 0 then vread (r_data r) (int n + 1) (int (unat len)) else Inr [])"

definition SlaveReport_size :: "report \<Rightarrow> u16" where
  "SlaveReport_size r = r_size r"

section \<open>Reading a reply\<close>

lemma ucast_diff16: "(ucast (x - y) :: u16) = ucast x - ucast (y :: u64)"
proof -
  have "uint (x - y) = take_bit 64 (uint x - uint y)"
    by (simp add: uint_word_ariths take_bit_eq_mod)
  then have "take_bit LENGTH(16) (uint (x - y)) = take_bit LENGTH(16) (uint x - uint y)"
    by simp
  then have "(word_of_int (uint (x - y)) :: u16) = word_of_int (uint x - uint y)"
    unfolding word_of_int_eq_iff .
  then show ?thesis by simp
qed

lemma report_len_word:
  assumes "n \<le> 65534"
  shows "(ucast ((ucast (s :: u16) :: u64) - (of_nat n + 1)) :: u16) = s - of_nat (n + 1)"
proof -
  have "(ucast (of_nat n + 1 :: u64) :: u16) = of_nat (n + 1)"
  using assms
    by (simp add: word_eq_iff_unsigned [where ?'a = nat] unsigned_ucast_eq take_bit_eq_mod unat_of_nat unat_word_ariths)
  moreover have "(ucast (ucast s :: u64) :: u16) = s"
    by (rule bit_word_eqI) (simp add: bit_simps)
  ultimately show ?thesis unfolding ucast_diff16 by metis
qed

lemma report_len:
  assumes "n \<le> 65534"
  shows "unat (ucast ((ucast (s :: u16) :: u64) - (of_nat n + 1)) :: u16)
    = (if n < unat s then unat s - (n + 1) else 65536 + unat s - (n + 1))"
proof -
  have "unat (of_nat (n + 1) :: u16) = n + 1" using assms by (simp add: unat_of_nat del: of_nat_Suc of_nat_add)
  then show ?thesis
    unfolding report_len_word [OF assms] using u16_less [of s] 
    by (auto simp: unat_sub_if' word_le_nat_alt simp del: of_nat_Suc of_nat_add)
qed
lemma SlaveReport_data_nat:
  assumes "n \<le> 65534"
  shows "SlaveReport_data n r =
    (let len = (if n < unat (r_size r) then unat (r_size r) - (n + 1) else 65536 + unat (r_size r) - (n + 1))
     in if 0 < len then vread (r_data r) (int n + 1) (int len) else Inr [])"
  unfolding SlaveReport_data_def Let_def word_less_nat_alt report_len [OF assms] unsigned_0 ..

lemma report_ctor:
  assumes "0 \<le> len" and "len \<le> int (length reply)" and "len \<le> int (length memory)"
  shows "SlaveReport_reply e memory len reply =
    Inr \<lparr>r_endian = e, r_size = word_of_int len,
         r_data = take (nat len) reply @ drop (nat len) memory\<rparr>"
  using assms by (simp add: SlaveReport_reply_def SlaveReport_default_def vread_in vwrite_in)

text \<open>The report of a reply of \<open>sizeof (T) + 1\<close> bytes or more gives its parts: the
  identifier, whose bytes are the registers of the value in the byte and word order of the
  report, the status byte compared with 0xFF, and the bytes that follow.\<close>

theorem report_parts:
  assumes "reply = concat (map (\<lambda>w. [hi_byte w, lo_byte w]) (m_registers (Data_of_value v e))) @ st # rest"
    and "length v = n" and "even n" and "length memory = 253" and "length reply \<le> 253"
  shows "\<exists>r. SlaveReport_reply e memory (int (length reply)) reply = Inr r
    \<and> SlaveReport_id n r = Inr v
    \<and> SlaveReport_status n r = Inr (st = 0xFF)
    \<and> SlaveReport_data n r = Inr rest"
proof -
  let ?regs = "m_registers (Data_of_value v e)"
  let ?id = "concat (map (\<lambda>w. [hi_byte w, lo_byte w]) ?regs)"
  have sw: "concat (map (\<lambda>w. [hi_byte w, lo_byte w]) ws) = store16 (map swapBytes16 ws)" for ws
    by (induction ws) (simp_all add: swapBytes16_eq)
  let ?r = "\<lparr>r_endian = e, r_size = of_nat (length reply), r_data = reply @ drop (length reply) memory\<rparr>"
  have len: "length ?regs = n div 2"
    using assms(2,3) by (simp add: Data_of_value_def updateRegisters_words)
  then have idl: "length ?id = n" using assms(3) by (simp add: sw)
  have n: "n \<le> 252" using idl assms(1,5) by simp
  have size: "unat (r_size ?r) = length reply"
    using assms(5) by (simp add: unat_of_nat)
  have "m_value (Data_updateValue (Data_of_value v e)) = v"
    using assms(2,3) by (simp add: Data_of_value_def updateRegisters_words updateValue_words store16_load16)
  then have id: "ntoh (swap_value e ?id) = v"
    by (simp add: sw Data_updateValue_def Let_def Data_swap_def hton16_fun) (simp add: Data_of_value_def)
  have "SlaveReport_reply e memory (int (length reply)) reply = Inr ?r"
    using report_ctor [of "int (length reply)" reply memory e] assms(4,5) by simp
  moreover have "SlaveReport_id n ?r = Inr v"
    using id idl size assms(1) by (simp add: SlaveReport_id_def vread_in)
  moreover have "SlaveReport_status n ?r = Inr (st = 0xFF)"
    using idl size assms(1) by (simp add: SlaveReport_status_def vget_in nth_append)
  moreover have "SlaveReport_data n ?r = Inr rest"
    using SlaveReport_data_nat [of n ?r] n size idl assms(1)
    by (cases "rest = []") (simp_all add: Let_def vread_in nat_add_distrib)
  ultimately show ?thesis by blast
qed

theorem report_parts_witness:
  "\<exists>r. SlaveReport_reply EndianBigBig (replicate 253 0) 5 [0x12, 0x34, 0xFF, 65, 66] = Inr r
    \<and> SlaveReport_id 2 r = Inr [0x34, 0x12] \<and> SlaveReport_status 2 r = Inr True
    \<and> SlaveReport_data 2 r = Inr [65, 66]"
  using report_parts [of "[0x12, 0x34, 0xFF, 65, 66]" "[0x34, 0x12]" EndianBigBig "0xFF" "[65, 66]"
      2 "replicate 253 0"]
  by (simp add: Data_of_value_def updateRegisters_words order_words_def)

text \<open>On a report whose size does not exceed \<open>sizeof (T)\<close>, the empty one included, the
  length computed by \<open>data()\<close> wraps around at 16 bits and the bytes are read past the end of
  \<open>m_data\<close>.\<close>

theorem report_data_overflow:
  assumes "unat (r_size r) \<le> n" and "n \<le> 16" and "length (r_data r) = 253"
  shows "SlaveReport_data n r = Inl Undefined_behaviour"
  using SlaveReport_data_nat [of n r] assms by (simp add: Let_def vread_def del: of_nat_unat)

theorem report_data_overflow_witness:
  "SlaveReport_data 2 (SlaveReport_default EndianBigBig (replicate 253 0)) = Inl Undefined_behaviour"
  by (rule report_data_overflow) (simp_all add: SlaveReport_default_def)

end
