(* ===== verification/Slave_Model.thy ===== *)
theory Slave_Model
  imports Device_Model Slave_Report
begin

text \<open>
  The class \<open>Slave\<close> of \<open>src/slave.cpp\<close> and its templates in \<open>include/modbuspp/slave.h\<close>: the
  remote slave that a master talks to through a device. The state of a program is the record
  \<open>world\<close>: \<open>errno\<close> and the devices, to which slaves hold pointers. The client calls of
  libmodbus are the record \<open>modbus_client\<close>.
\<close>

section \<open>The world and the client calls of libmodbus\<close>

record 'c world =
  w_errno :: errno
  w_devices :: "nat \<Rightarrow> 'c device"

text \<open>A read returns the elements that it stores at the start of the destination.\<close>

record 'c modbus_client =
  modbus_set_slave :: "'c \<Rightarrow> int \<Rightarrow> 'c reply"
  modbus_read_bits :: "'c \<Rightarrow> int \<Rightarrow> int \<Rightarrow> u8 list \<times> 'c reply"
  modbus_read_input_bits :: "'c \<Rightarrow> int \<Rightarrow> int \<Rightarrow> u8 list \<times> 'c reply"
  modbus_read_registers :: "'c \<Rightarrow> int \<Rightarrow> int \<Rightarrow> u16 list \<times> 'c reply"
  modbus_read_input_registers :: "'c \<Rightarrow> int \<Rightarrow> int \<Rightarrow> u16 list \<times> 'c reply"
  modbus_write_bit :: "'c \<Rightarrow> int \<Rightarrow> int \<Rightarrow> 'c reply"
  modbus_write_bits :: "'c \<Rightarrow> int \<Rightarrow> int \<Rightarrow> u8 list \<Rightarrow> 'c reply"
  modbus_write_register :: "'c \<Rightarrow> int \<Rightarrow> u16 \<Rightarrow> 'c reply"
  modbus_write_registers :: "'c \<Rightarrow> int \<Rightarrow> int \<Rightarrow> u16 list \<Rightarrow> 'c reply"
  modbus_write_and_read_registers :: "'c \<Rightarrow> int \<Rightarrow> int \<Rightarrow> u16 list \<Rightarrow> int \<Rightarrow> int \<Rightarrow> u16 list \<times> 'c reply"
  modbus_report_slave_id :: "'c \<Rightarrow> u16 \<Rightarrow> u8 list \<times> 'c reply"

section \<open>State\<close>

record slave =
  pduAddressing :: bool
  slave_id :: int
  slave_dev :: "nat option"

definition Slave_Private :: slave where
  "Slave_Private = \<lparr>pduAddressing = False, slave_id = -1, slave_dev = None\<rparr>"

definition Slave_Private_at :: "int \<Rightarrow> nat option \<Rightarrow> slave" where
  "Slave_Private_at s d = Slave_Private\<lparr>slave_id := s, slave_dev := d\<rparr>"

definition Slave_number :: "('a) slave_scheme \<Rightarrow> int" where
  "Slave_number s = slave_id s"

definition Slave_setNumber :: "'a slave_scheme \<Rightarrow> int \<Rightarrow> 'a slave_scheme" where
  "Slave_setNumber s n = s\<lparr>slave_id := n\<rparr>"

definition Slave_device :: "'a slave_scheme \<Rightarrow> nat option" where
  "Slave_device s = slave_dev s"

definition Slave_setDevice :: "'a slave_scheme \<Rightarrow> nat option \<Rightarrow> 'a slave_scheme" where
  "Slave_setDevice s d = s\<lparr>slave_dev := d\<rparr>"

definition Slave_isValid :: "'c world \<Rightarrow> 'a slave_scheme \<Rightarrow> bool" where
  "Slave_isValid w s \<longleftrightarrow>
     (case Slave_device s of Some d \<Rightarrow> Device_isValid (w_devices w d) | None \<Rightarrow> False) \<and>
     Slave_number s \<ge> 0"

definition Slave_isOpen :: "'c world \<Rightarrow> 'a slave_scheme \<Rightarrow> bool" where
  "Slave_isOpen w s \<longleftrightarrow>
     (if Slave_isValid w s
      then (case Slave_device s of Some d \<Rightarrow> Device_isOpen (w_devices w d) | None \<Rightarrow> False)
      else False)"

definition Slave_pduAddressing :: "'a slave_scheme \<Rightarrow> bool" where
  "Slave_pduAddressing s = pduAddressing s"

definition Slave_setPduAddressing :: "'a slave_scheme \<Rightarrow> bool \<Rightarrow> 'a slave_scheme" where
  "Slave_setPduAddressing s pdu = s\<lparr>pduAddressing := pdu\<rparr>"

text \<open>The calls of a slave by what they can change: those that read and write, of a buffered slave the
  ones that resize a table or fail to, and the setters.\<close>

datatype slave_call = Access | Resize | Resize_failed | Set_number | Set_device | Set_mode | Set_callback

section \<open>Addresses\<close>

definition Slave_pduAddress :: "'a slave_scheme \<Rightarrow> int \<Rightarrow> int" where
  "Slave_pduAddress s dataAddr = dataAddr - (if pduAddressing s then 0 else 1)"

definition Slave_dataAddress :: "'a slave_scheme \<Rightarrow> int \<Rightarrow> int" where
  "Slave_dataAddress s pduAddr = pduAddr + (if pduAddressing s then 0 else 1)"

section \<open>Requests\<close>

text \<open>\<open>d->ctx()\<close> is the context of the device; a call leaves it changed.\<close>

definition Slave_ctx :: "'c world \<Rightarrow> 'a slave_scheme \<Rightarrow> 'c res" where
  "Slave_ctx w s =
     (case slave_dev s of
        None \<Rightarrow> Inl Undefined_behaviour
      | Some d \<Rightarrow> and_then (Device_backend (w_devices w d)) (\<lambda>l. Inr (ctx l)))"

definition put_ctx :: "'c world \<Rightarrow> 'a slave_scheme \<Rightarrow> errno option \<Rightarrow> 'c \<Rightarrow> 'c world" where
  "put_ctx w s e c =
     (case slave_dev s of
        None \<Rightarrow> w
      | Some d \<Rightarrow>
          w\<lparr>w_errno := set_errno e (w_errno w),
            w_devices := (w_devices w)(d := (w_devices w d)\<lparr>dev_backend :=
               map_option (\<lambda>l. l\<lparr>ctx := c\<rparr>) (dev_backend (w_devices w d))\<rparr>)\<rparr>)"

text \<open>What every request does first, and then the libmodbus call \<open>f\<close> on the context. The call
  returns what it stores in the destination, of which the others have none.\<close>

definition Slave_request ::
    "'c modbus_client \<Rightarrow> 'c world \<Rightarrow> 'a slave_scheme \<Rightarrow> ('c \<Rightarrow> 'v list \<times> 'c reply) \<Rightarrow> 'v list \<Rightarrow>
     (int \<times> 'v list \<times> 'c world) res" where
  "Slave_request M w s f dest =
     (if \<not> Slave_isValid w s then Inl Runtime_error
      else and_then (Slave_ctx w s) (\<lambda>c.
        case modbus_set_slave M c (slave_id s) of (rc, e, c1) \<Rightarrow>
          (let w1 = put_ctx w s e c1
           in if rc = 0
              then (case f c1 of (out, rc2, e2, c2) \<Rightarrow>
                     and_then (vwrite dest 0 out) (\<lambda>dest'.
                     Inr (rc2, dest', put_ctx w1 s e2 c2)))
              else Inr (-1, dest, w1))))"

definition Slave_readCoils ::
    "'c modbus_client \<Rightarrow> 'c world \<Rightarrow> 'a slave_scheme \<Rightarrow> int \<Rightarrow> u8 list \<Rightarrow> int \<Rightarrow> (int \<times> u8 list \<times> 'c world) res" where
  "Slave_readCoils M w s addr dest nb =
     Slave_request M w s (\<lambda>c. modbus_read_bits M c (Slave_pduAddress s addr) nb) dest"

definition Slave_readDiscreteInputs ::
    "'c modbus_client \<Rightarrow> 'c world \<Rightarrow> 'a slave_scheme \<Rightarrow> int \<Rightarrow> u8 list \<Rightarrow> int \<Rightarrow> (int \<times> u8 list \<times> 'c world) res" where
  "Slave_readDiscreteInputs M w s addr dest nb =
     Slave_request M w s (\<lambda>c. modbus_read_input_bits M c (Slave_pduAddress s addr) nb) dest"

definition Slave_readRegisters ::
    "'c modbus_client \<Rightarrow> 'c world \<Rightarrow> 'a slave_scheme \<Rightarrow> int \<Rightarrow> u16 list \<Rightarrow> int \<Rightarrow> (int \<times> u16 list \<times> 'c world) res" where
  "Slave_readRegisters M w s addr dest nb =
     Slave_request M w s (\<lambda>c. modbus_read_registers M c (Slave_pduAddress s addr) nb) dest"

definition Slave_readInputRegisters ::
    "'c modbus_client \<Rightarrow> 'c world \<Rightarrow> 'a slave_scheme \<Rightarrow> int \<Rightarrow> u16 list \<Rightarrow> int \<Rightarrow> (int \<times> u16 list \<times> 'c world) res" where
  "Slave_readInputRegisters M w s addr dest nb =
     Slave_request M w s (\<lambda>c. modbus_read_input_registers M c (Slave_pduAddress s addr) nb) dest"

definition Slave_command ::
    "'c modbus_client \<Rightarrow> 'c world \<Rightarrow> 'a slave_scheme \<Rightarrow> ('c \<Rightarrow> 'c reply) \<Rightarrow> (int \<times> 'c world) res" where
  "Slave_command M w s f =
     and_then (Slave_request M w s (\<lambda>c. ([] :: u8 list, f c)) []) (\<lambda>(rc, _, w'). Inr (rc, w'))"

definition Slave_writeCoils ::
    "'c modbus_client \<Rightarrow> 'c world \<Rightarrow> 'a slave_scheme \<Rightarrow> int \<Rightarrow> u8 list \<Rightarrow> int \<Rightarrow> (int \<times> 'c world) res" where
  "Slave_writeCoils M w s addr src nb =
     Slave_command M w s (\<lambda>c. modbus_write_bits M c (Slave_pduAddress s addr) nb src)"

definition Slave_writeCoil ::
    "'c modbus_client \<Rightarrow> 'c world \<Rightarrow> 'a slave_scheme \<Rightarrow> int \<Rightarrow> bool \<Rightarrow> (int \<times> 'c world) res" where
  "Slave_writeCoil M w s addr value =
     Slave_command M w s (\<lambda>c. modbus_write_bit M c (Slave_pduAddress s addr) (of_bool value))"

definition Slave_writeRegisters ::
    "'c modbus_client \<Rightarrow> 'c world \<Rightarrow> 'a slave_scheme \<Rightarrow> int \<Rightarrow> u16 list \<Rightarrow> int \<Rightarrow> (int \<times> 'c world) res" where
  "Slave_writeRegisters M w s addr src nb =
     Slave_command M w s (\<lambda>c. modbus_write_registers M c (Slave_pduAddress s addr) nb src)"

definition Slave_writeRegister ::
    "'c modbus_client \<Rightarrow> 'c world \<Rightarrow> 'a slave_scheme \<Rightarrow> int \<Rightarrow> u16 \<Rightarrow> (int \<times> 'c world) res" where
  "Slave_writeRegister M w s addr value =
     Slave_command M w s (\<lambda>c. modbus_write_register M c (Slave_pduAddress s addr) value)"

definition Slave_writeReadRegisters ::
    "'c modbus_client \<Rightarrow> 'c world \<Rightarrow> 'a slave_scheme \<Rightarrow> int \<Rightarrow> u16 list \<Rightarrow> int \<Rightarrow> int \<Rightarrow> u16 list \<Rightarrow> int \<Rightarrow>
     (int \<times> u16 list \<times> 'c world) res" where
  "Slave_writeReadRegisters M w s waddr src wnb raddr dest rnb =
     Slave_request M w s (\<lambda>c. modbus_write_and_read_registers M c
       (Slave_pduAddress s waddr) wnb src (Slave_pduAddress s raddr) rnb) dest"

definition Slave_reportSlaveId ::
    "'c modbus_client \<Rightarrow> 'c world \<Rightarrow> 'a slave_scheme \<Rightarrow> u16 \<Rightarrow> u8 list \<Rightarrow> (int \<times> u8 list \<times> 'c world) res" where
  "Slave_reportSlaveId M w s max_dest dest =
     Slave_request M w s (\<lambda>c. modbus_report_slave_id M c max_dest) dest"

text \<open>\<open>set_bits\<close> is \<open>modbus_set_bits_from_bytes\<close>.\<close>

definition Slave_setBoolArray ::
    "(u8 list \<Rightarrow> int \<Rightarrow> nat \<Rightarrow> u8 list \<Rightarrow> u8 list res) \<Rightarrow> u8 list \<Rightarrow> u8 list \<Rightarrow> nat \<Rightarrow> u8 list res" where
  "Slave_setBoolArray set_bits dest src n = set_bits dest 0 n src"

section \<open>Values of several registers\<close>

text \<open>
  The templates call \<open>readRegisters\<close> and \<open>writeRegisters\<close>, which are virtual: they are the
  arguments \<open>rd\<close> and \<open>wr\<close>, on the state \<open>'s\<close> of the object and its world. \<open>k\<close> is the number of
  registers of the type, \<open>sizeof (T) / 2\<close>.
\<close>

type_synonym 's reader = "'s \<Rightarrow> int \<Rightarrow> u16 list \<Rightarrow> int \<Rightarrow> (int \<times> u16 list \<times> 's) res"
type_synonym 's writer = "'s \<Rightarrow> int \<Rightarrow> u16 list \<Rightarrow> int \<Rightarrow> (int \<times> 's) res"

text \<open>\<open>for (auto & r : dest[i].registers()) r = buf[n++];\<close> and \<open>updateValue\<close>, for each \<open>i\<close>.\<close>

fun unpack_data :: "nat \<Rightarrow> data list \<Rightarrow> u16 list \<Rightarrow> data list" where
  "unpack_data 0 dest buf = dest"
| "unpack_data (Suc nb) [] buf = []"
| "unpack_data (Suc nb) (d # dest) buf =
     (let k = length (m_registers d)
      in Data_updateValue (d\<lparr>m_registers := take k buf\<rparr>) # unpack_data nb dest (drop k buf))"

definition Slave_readData ::
    "nat \<Rightarrow> 's reader \<Rightarrow> 's \<Rightarrow> int \<Rightarrow> data list \<Rightarrow> int \<Rightarrow> (int \<times> data list \<times> 's) res" where
  "Slave_readData k rd st addr dest nb =
     (if nb < 0 then Inl Length_error
      else and_then (rd st addr (replicate (nat nb * k) 0) (nb * int k)) (\<lambda>(ret, buf, st').
        if ret = nb * int k
        then (if int (length dest) < nb then Inl Undefined_behaviour
              else Inr (ret, unpack_data (nat nb) dest buf, st'))
        else Inr (ret, dest, st')))"

definition Slave_readDatum ::
    "'s reader \<Rightarrow> 's \<Rightarrow> int \<Rightarrow> data \<Rightarrow> (int \<times> data \<times> 's) res" where
  "Slave_readDatum rd st addr dest =
     (let s = int (length (m_registers dest))
      in and_then (rd st addr (m_registers dest) s) (\<lambda>(r, regs, st').
           let dest' = dest\<lparr>m_registers := regs\<rparr>
           in Inr (r, if r = s then Data_updateValue dest' else dest', st')))"

text \<open>The loop that fills the buffer also updates the registers of the sources.\<close>

definition pack_data :: "data list \<Rightarrow> u16 list" where
  "pack_data ds = concat (map (\<lambda>d. m_registers (Data_updateRegisters d)) ds)"

definition Slave_writeData ::
    "'s writer \<Rightarrow> 's \<Rightarrow> int \<Rightarrow> data list \<Rightarrow> int \<Rightarrow> (int \<times> data list \<times> 's) res" where
  "Slave_writeData wr st addr src nb =
     (if int (length src) < nb then Inl Undefined_behaviour
      else let ds = take (nat nb) src; buf = pack_data ds
           in and_then (wr st addr buf (int (length buf))) (\<lambda>(r, st').
                Inr (r, map Data_updateRegisters ds @ drop (nat nb) src, st')))"

definition Slave_writeDatum ::
    "'s writer \<Rightarrow> 's \<Rightarrow> int \<Rightarrow> data \<Rightarrow> (int \<times> data \<times> 's) res" where
  "Slave_writeDatum wr st addr value =
     (let d = Data_updateRegisters value
      in and_then (wr st addr (m_registers d) (int (length (m_registers d)))) (\<lambda>(r, st').
           Inr (r, d, st')))"

text \<open>The report of a slave; \<open>rid\<close> is the virtual \<open>reportSlaveId\<close>.\<close>

definition Slave_report ::
    "mb_consts \<Rightarrow> ('s \<Rightarrow> u16 \<Rightarrow> u8 list \<Rightarrow> (int \<times> u8 list \<times> 's) res) \<Rightarrow> 's \<Rightarrow> report \<Rightarrow>
     (int \<times> report \<times> 's) res" where
  "Slave_report K rid st dest =
     and_then (rid st (MODBUS_MAX_PDU_LENGTH K) (r_data dest)) (\<lambda>(r, bytes, st').
       let dest' = dest\<lparr>r_data := bytes\<rparr>
       in Inr (r, if r \<ge> 0 then dest'\<lparr>r_size := word_of_int r\<rparr> else dest', st'))"

section \<open>Lemmas\<close>

lemma Slave_pduAddress_dataAddress [simp]: "Slave_pduAddress s (Slave_dataAddress s a) = a"
  by (simp add: Slave_pduAddress_def Slave_dataAddress_def)

lemma Slave_dataAddress_pduAddress [simp]: "Slave_dataAddress s (Slave_pduAddress s a) = a"
  by (simp add: Slave_pduAddress_def Slave_dataAddress_def)

subsection \<open>What a request touches\<close>

text \<open>\<open>w'\<close> differs from \<open>w\<close> at most in \<open>errno\<close> and in the context of the device \<open>dev\<close>.\<close>

definition only_ctx :: "nat option \<Rightarrow> 'c world \<Rightarrow> 'c world \<Rightarrow> bool" where
  "only_ctx dev w w' \<longleftrightarrow>
     (\<forall>d. Some d \<noteq> dev \<longrightarrow> w_devices w' d = w_devices w d) \<and>
     (\<forall>d. same_device (w_devices w d) (w_devices w' d))"

lemma only_ctx_refl [simp]: "only_ctx dev w w"
  by (simp add: only_ctx_def)

lemma only_ctx_trans: "only_ctx dev w w' \<Longrightarrow> only_ctx dev w' w'' \<Longrightarrow> only_ctx dev w w''"
  by (auto simp: only_ctx_def intro: same_device_trans)

lemma only_ctx_put_ctx: "only_ctx (slave_dev s) w (put_ctx w s e c)"
  by (auto simp: only_ctx_def put_ctx_def same_device_def dev_link_def option.map_comp comp_def
      split: option.split)

lemma only_ctx_errno: "only_ctx dev w (w\<lparr>w_errno := e\<rparr>)"
  by (simp add: only_ctx_def)

lemma only_ctx_isValid: "only_ctx dev w w' \<Longrightarrow> Slave_isValid w' s = Slave_isValid w s"
  using same_device_valid unfolding only_ctx_def Slave_isValid_def by (cases "Slave_device s") auto

lemma only_ctx_isOpen:
  assumes "only_ctx dev w w'"
  shows "Slave_isOpen w' s = Slave_isOpen w s"
  using assms unfolding Slave_isOpen_def only_ctx_isValid [OF assms]
  by (auto simp: Device_isOpen_def only_ctx_def same_device_def split: option.split)

lemma Slave_ctx_valid: "Slave_isValid w s \<Longrightarrow> \<exists>c. Slave_ctx w s = Inr c"
  by (auto simp: Slave_isValid_def Slave_ctx_def Slave_device_def Device_isValid_def Device_backend_def
      split: option.splits)

lemma Slave_request_touches:
  assumes "Slave_request M w s f dest = Inr (rc, dest', w')"
  shows "length dest' = length dest \<and> only_ctx (slave_dev s) w w'"
proof -
  from assms obtain c where c: "Slave_ctx w s = Inr c"
    by (auto simp: Slave_request_def and_then_eq_Inr split: if_splits)
  obtain rc1 e1 c1 where 1: "modbus_set_slave M c (slave_id s) = (rc1, e1, c1)" by (metis prod.collapse)
  obtain out rc2 e2 c2 where 2: "f c1 = (out, rc2, e2, c2)" by (metis prod.collapse)
  show ?thesis
    using assms only_ctx_put_ctx only_ctx_trans [OF only_ctx_put_ctx only_ctx_put_ctx]
    by (auto simp: Slave_request_def c 1 2 Let_def and_then_eq_Inr vwrite_length split: if_splits)
qed

lemma Slave_command_touches:
  "Slave_command M w s f = Inr (rc, w') \<Longrightarrow> only_ctx (slave_dev s) w w'"
  by (auto simp: Slave_command_def and_then_eq_Inr dest: Slave_request_touches)

lemma Slave_request_reply:
  assumes "Slave_isValid w s" and "Slave_ctx w s = Inr c"
    and "modbus_set_slave M c (slave_id s) = (0, e1, c1)" and "f c1 = (out, rc, e2, c2)"
    and "length out \<le> length dest"
  shows "Slave_request M w s f dest
    = Inr (rc, out @ drop (length out) dest, put_ctx (put_ctx w s e1 c1) s e2 c2)"
  using assms by (simp add: Slave_request_def Let_def vwrite_in)

lemma Slave_request_no_slave:
  assumes "Slave_isValid w s" and "Slave_ctx w s = Inr c"
    and "modbus_set_slave M c (slave_id s) = (rc, e1, c1)" and "rc \<noteq> 0"
  shows "Slave_request M w s f dest = Inr (-1, dest, put_ctx w s e1 c1)"
  using assms by (simp add: Slave_request_def Let_def)

subsection \<open>Values of several registers\<close>

text \<open>A value of \<open>k\<close> registers.\<close>

definition data_wf :: "nat \<Rightarrow> data \<Rightarrow> bool" where
  "data_wf k d \<longleftrightarrow> length (m_value d) = 2 * k \<and> length (m_registers d) = k"

lemma updateRegisters_length: "even (length (m_value d)) \<Longrightarrow>
    length (m_registers (Data_updateRegisters d)) = length (m_value d) div 2"
  by (simp add: updateRegisters_words)

lemma pack_data_length: "list_all (data_wf k) ds \<Longrightarrow> length (pack_data ds) = length ds * k"
  by (induction ds) (simp_all add: pack_data_def data_wf_def updateRegisters_length)

lemma unpack_pack_data:
  "list_all (data_wf k) ds \<Longrightarrow> list_all (data_wf k) dest \<Longrightarrow> map m_endian dest = map m_endian ds \<Longrightarrow>
   map m_value (unpack_data (length ds) dest (pack_data ds)) = map m_value ds"
proof (induction ds arbitrary: dest)
  case (Cons d ds)
  then obtain d' dest' where dest: "dest = d' # dest'" "m_endian d' = m_endian d" by (cases dest) auto
  have "length (m_registers (Data_updateRegisters d)) = k" and "length (m_registers d') = k"
    using Cons.prems dest by (simp_all add: data_wf_def updateRegisters_length)
  moreover from this have "m_value (Data_updateValue (d'\<lparr>m_registers := m_registers (Data_updateRegisters d)\<rparr>)) = m_value d"
    using Cons.prems dest by (simp add: updateValue_words updateRegisters_words data_wf_def store16_load16)
  ultimately show ?case
    using Cons.IH [of dest'] Cons.prems dest by (simp add: pack_data_def Let_def)
qed simp

section \<open>The interface of the templates\<close>

text \<open>
  What the templates rely on: \<open>served st addr n\<close> tells that the state serves the \<open>n\<close> registers
  from the address \<open>addr\<close> on; they can be written, and what is then read is what was written.
\<close>

locale register_port =
  fixes rd :: "'s reader" and wr :: "'s writer" and served :: "'s \<Rightarrow> int \<Rightarrow> int \<Rightarrow> bool"
  assumes write_served: "served st addr (int (length vs)) \<Longrightarrow>
      \<exists>st'. wr st addr vs (int (length vs)) = Inr (int (length vs), st')"
    and read_written: "served st addr (int (length vs)) \<Longrightarrow>
      wr st addr vs (int (length vs)) = Inr (int (length vs), st') \<Longrightarrow> length dest = length vs \<Longrightarrow>
      \<exists>st''. rd st' addr dest (int (length vs)) = Inr (int (length vs), vs, st'')"
begin

lemma data_through_port:
  assumes "list_all (data_wf k) src" and "list_all (data_wf k) dest" and "map m_endian dest = map m_endian src"
    and "served st addr (int (length src * k))"
  shows "\<exists>src' st' dest' st''.
    Slave_writeData wr st addr src (int (length src)) = Inr (int (length src * k), src', st') \<and>
    Slave_readData k rd st' addr dest (int (length src)) = Inr (int (length src * k), dest', st'') \<and>
    map m_value dest' = map m_value src"
proof -
  have len: "length (pack_data src) = length src * k" using assms(1) by (rule pack_data_length)
  have ld: "length dest = length src" using map_eq_imp_length_eq [OF assms(3)] .
  obtain st' where w: "wr st addr (pack_data src) (int (length src * k)) = Inr (int (length src * k), st')"
    using write_served [of st addr "pack_data src"] assms(4) len by auto
  then obtain st'' where r: "rd st' addr (replicate (length src * k) 0) (int (length src * k))
      = Inr (int (length src * k), pack_data src, st'')"
    using read_written [of st addr "pack_data src" st' "replicate (length src * k) 0"] assms(4) len by auto
  have "Slave_writeData wr st addr src (int (length src))
      = Inr (int (length src * k), map Data_updateRegisters src, st')"
    using w len by (simp add: Slave_writeData_def Let_def)
  moreover have "Slave_readData k rd st' addr dest (int (length src))
      = Inr (int (length src * k), unpack_data (length src) dest (pack_data src), st'')"
    using r ld by (simp add: Slave_readData_def)
  ultimately show ?thesis
    using unpack_pack_data [OF assms(1-3)] by blast
qed

lemma datum_through_port:
  assumes "data_wf k src" and "data_wf k dest" and "m_endian dest = m_endian src"
    and "served st addr (int k)"
  shows "\<exists>src' st' dest' st''.
    Slave_writeDatum wr st addr src = Inr (int k, src', st') \<and>
    Slave_readDatum rd st' addr dest = Inr (int k, dest', st'') \<and> m_value dest' = m_value src"
proof -
  let ?regs = "m_registers (Data_updateRegisters src)"
  have len: "length ?regs = k" "length (m_registers dest) = k"
    using assms(1,2) by (simp_all add: data_wf_def updateRegisters_length)
  obtain st' where w: "wr st addr ?regs (int k) = Inr (int k, st')"
    using write_served [of st addr ?regs] assms(4) len by auto
  then obtain st'' where r: "rd st' addr (m_registers dest) (int k) = Inr (int k, ?regs, st'')"
    using read_written [of st addr ?regs st' "m_registers dest"] assms(4) len by auto
  have "m_value (Data_updateValue (dest\<lparr>m_registers := ?regs\<rparr>)) = m_value src"
    using assms(1,3) by (simp add: updateValue_words updateRegisters_words data_wf_def store16_load16)
  then show ?thesis
    using w r len by (simp add: Slave_writeDatum_def Slave_readDatum_def Let_def)
qed

end

section \<open>Properties\<close>

text \<open>A request of a slave without a device, without a layer or without a number throws
  \<open>std::runtime_error\<close>. A request whose \<open>modbus_set_slave\<close> fails returns -1 without calling
  anything else. Every other one returns what libmodbus returns for the address of the PDU,
  with what it read at the start of the destination. No request touches another device, or of
  its own anything but the context.\<close>

theorem slave_read_registers_outcome:
  assumes "w_devices w d = dv" and "slave_dev s = Some d"
    and "\<And>l. dev_backend dv = Some l \<Longrightarrow> modbus_set_slave M (ctx l) (slave_id s) = (rc1, e1, c1)"
    and "modbus_read_registers M c1 (if pduAddressing s then addr else addr - 1) nb = (out, rc2, e2, c2)"
    and "length out \<le> length dest"
  shows "if dev_backend dv = None \<or> slave_id s < 0
    then Slave_readRegisters M w s addr dest nb = Inl Runtime_error
    else \<exists>w'. only_ctx (Some d) w w' \<and>
      Slave_readRegisters M w s addr dest nb
        = Inr (if rc1 = 0 then (rc2, out @ drop (length out) dest, w') else (-1, dest, w')) \<and>
      Slave_ctx w' s = Inr (if rc1 = 0 then c2 else c1)"
proof (cases "dev_backend dv = None \<or> slave_id s < 0")
  case True
  then have "\<not> Slave_isValid w s"
    using assms(1,2) by (auto simp: Slave_isValid_def Slave_device_def Slave_number_def Device_isValid_def)
  then show ?thesis using True by (simp add: Slave_readRegisters_def Slave_request_def)
next
  case False
  then obtain l where l: "dev_backend dv = Some l" by auto
  then have v: "Slave_isValid w s" and c: "Slave_ctx w s = Inr (ctx l)"
    using False assms(1,2)
    by (auto simp: Slave_isValid_def Slave_device_def Slave_number_def Device_isValid_def Slave_ctx_def
        Device_backend_def)
  have f: "modbus_read_registers M c1 (Slave_pduAddress s addr) nb = (out, rc2, e2, c2)"
    using assms(4) by (simp add: Slave_pduAddress_def split: if_splits)
  have ctx': "Slave_ctx (put_ctx w' s e c) s = Inr c" if "dev_backend (w_devices w' d) \<noteq> None" for w' e c
    using that assms(2) by (auto simp: Slave_ctx_def put_ctx_def Device_backend_def)
  have b: "dev_backend (w_devices (put_ctx w s e c) d) \<noteq> None" for e c
    using l assms(1,2) by (simp add: put_ctx_def)
  let ?f = "\<lambda>c. modbus_read_registers M c (Slave_pduAddress s addr) nb"
  let ?w1 = "put_ctx w s e1 c1"
  show ?thesis
  proof (cases "rc1 = 0")
    case True
    let ?w2 = "put_ctx ?w1 s e2 c2"
    have "Slave_readRegisters M w s addr dest nb = Inr (rc2, out @ drop (length out) dest, ?w2)"
      unfolding Slave_readRegisters_def
      by (rule Slave_request_reply [where f = ?f, OF v c]) (use assms(3) [OF l] True f assms(5) in auto)
    moreover have "only_ctx (Some d) w ?w2"
      using only_ctx_trans [OF only_ctx_put_ctx only_ctx_put_ctx] assms(2) by metis
    moreover have "Slave_ctx ?w2 s = Inr c2" using ctx' [OF b] .
    ultimately show ?thesis using True False by auto
  next
    case rc: False
    have "Slave_readRegisters M w s addr dest nb = Inr (-1, dest, ?w1)"
      unfolding Slave_readRegisters_def
      by (rule Slave_request_no_slave [where f = ?f, OF v c assms(3) [OF l] rc])
    moreover have "only_ctx (Some d) w ?w1"
      using only_ctx_put_ctx [of s w] assms(2) by simp
    moreover have "Slave_ctx ?w1 s = Inr c1" by (rule ctx') (simp add: assms(1) l)
    ultimately show ?thesis using rc False by auto
  qed
qed

text \<open>A client for the witness: the peer of the context serves four registers.\<close>

definition sample_client :: "nat modbus_client" where
  "sample_client = \<lparr>
     modbus_set_slave = (\<lambda>c i. if i \<le> 255 then (0, None, c) else (-1, Some EINVAL, c)),
     modbus_read_bits = (\<lambda>c a n. ([1, 0], 2, None, c)),
     modbus_read_input_bits = (\<lambda>c a n. ([1, 0], 2, None, c)),
     modbus_read_registers = (\<lambda>c a n. (take (nat n) (drop (nat a) [10, 11, 12, 13]), n, None, c)),
     modbus_read_input_registers = (\<lambda>c a n. (map (\<lambda>i. word_of_int (100 + a + int i)) [0..<nat n], n, None, c)),
     modbus_write_bit = (\<lambda>c a v. (1, None, c)),
     modbus_write_bits = (\<lambda>c a n bs. (n, None, c)),
     modbus_write_register = (\<lambda>c a v. (1, None, c)),
     modbus_write_registers = (\<lambda>c a n bs. (n, None, c)),
     modbus_write_and_read_registers = (\<lambda>c a n bs a' n'. ([], n', None, c)),
     modbus_report_slave_id = (\<lambda>c n. ([7, 255], 2, None, c)) \<rparr>"

definition sample_world :: "nat world" where
  "sample_world = \<lparr>w_errno = ENOERR, w_devices = (\<lambda>_. sample_device 0)\<rparr>"

theorem slave_read_registers_outcome_witness:
  "\<exists>w'. Slave_readRegisters sample_client sample_world (Slave_Private_at 5 (Some 0)) 2 [0, 0, 0] 2
    = Inr (2, [11, 12, 0], w')"
proof -
  let ?s = "Slave_Private_at 5 (Some 0)"
  have "\<exists>w'. only_ctx (Some 0) sample_world w' \<and>
      Slave_readRegisters sample_client sample_world ?s 2 [0, 0, 0] 2 = Inr (2, [11, 12, 0], w') \<and>
      Slave_ctx w' ?s = Inr 0"
    using slave_read_registers_outcome [of sample_world 0 "sample_device 0" ?s sample_client
        0 None 0 2 2 "[11, 12]" 2 None 0 "[0, 0, 0]"]
    by (simp add: sample_world_def sample_device_def sample_client_def Slave_Private_at_def
        Slave_Private_def)
  then show ?thesis by blast
qed

end
