(* ===== verification/BufferedSlave_Model.thy ===== *)
theory BufferedSlave_Model
  imports Slave_Model Request_Model
begin

text \<open>
  The class \<open>BufferedSlave\<close> of \<open>src/bufferedslave.cpp\<close>: a slave with an image of its four tables
  (the \<open>modbus_mapping_t\<close> of libmodbus). Reads and writes work on the image, and on the device
  too when it is open. The allocator is an argument: \<open>calloc\<close> and \<open>realloc\<close> on a number of
  elements, \<open>None\<close> for the null pointer. An access through a null or dangling index is
  undefined behaviour.
\<close>

section \<open>State\<close>

record 'v block =
  blk_start :: int
  blk_nb :: int
  blk_tab :: "'v list option"

record mapping =
  map_bits :: "u8 block"
  map_input_bits :: "u8 block"
  map_registers :: "u16 block"
  map_input_registers :: "u16 block"

text \<open>Callbacks are numbers; what they do is an argument of the server.\<close>

record bslave = slave +
  bmap :: mapping
  idReport :: "u8 list"
  beforeReplyCB :: "nat option"
  afterReplyCB :: "nat option"

text \<open>\<open>modbus_mapping_new (0, 0, 0, 0)\<close>.\<close>

definition empty_block :: "'v block" where
  "empty_block = \<lparr>blk_start = 0, blk_nb = 0, blk_tab = None\<rparr>"

definition empty_mapping :: mapping where
  "empty_mapping = \<lparr>map_bits = empty_block, map_input_bits = empty_block,
     map_registers = empty_block, map_input_registers = empty_block\<rparr>"

definition BufferedSlave_Private :: "mapping \<Rightarrow> bslave" where
  "BufferedSlave_Private new_map = slave.extend Slave_Private
     \<lparr>bmap = new_map, idReport = [], beforeReplyCB = None, afterReplyCB = None\<rparr>"

definition BufferedSlave_Private_at :: "mapping \<Rightarrow> int \<Rightarrow> nat option \<Rightarrow> bslave" where
  "BufferedSlave_Private_at new_map s d =
     (BufferedSlave_Private new_map)\<lparr>slave_id := s, slave_dev := d\<rparr>"

definition BufferedSlave_isValid :: "bslave \<Rightarrow> bool" where
  "BufferedSlave_isValid s \<longleftrightarrow> Slave_number s \<ge> 0"

definition BufferedSlave_setBeforeReplyCallback :: "bslave \<Rightarrow> nat option \<Rightarrow> bslave" where
  "BufferedSlave_setBeforeReplyCallback s cb = s\<lparr>beforeReplyCB := cb\<rparr>"

definition BufferedSlave_setAfterReplyCallback :: "bslave \<Rightarrow> nat option \<Rightarrow> bslave" where
  "BufferedSlave_setAfterReplyCallback s cb = s\<lparr>afterReplyCB := cb\<rparr>"

section \<open>Blocks\<close>

definition blk_mem :: "'v block \<Rightarrow> 'v list" where
  "blk_mem b = (case blk_tab b of None \<Rightarrow> [] | Some xs \<Rightarrow> xs)"

definition in_block :: "'v block \<Rightarrow> int \<Rightarrow> bool" where
  "in_block b a \<longleftrightarrow> blk_start b \<le> a \<and> a < blk_start b + blk_nb b"

text \<open>Allocation of a block of \<open>nmemb\<close> elements. \<open>scale\<close> is what the code multiplies the index of
  the first new element by before it clears the new elements.\<close>

definition set_block ::
    "(int \<Rightarrow> 'v list option) \<Rightarrow> ('v list \<Rightarrow> int \<Rightarrow> 'v list option) \<Rightarrow> int \<Rightarrow> 'v::zero block \<Rightarrow> int \<Rightarrow> int \<Rightarrow>
     (int \<times> 'v block) res" where
  "set_block calloc realloc scale b start nmemb =
     and_then
       (if nmemb = 0 then Inr (Some None)
        else if blk_nb b \<noteq> nmemb then
          (case blk_tab b of
             None \<Rightarrow> Inr (map_option Some (calloc nmemb))
           | Some xs \<Rightarrow>
               (case realloc xs nmemb of
                  None \<Rightarrow> Inr None
                | Some ys \<Rightarrow>
                    if nmemb > blk_nb b
                    then and_then (vwrite ys (blk_nb b * scale) (replicate (nat (nmemb - blk_nb b)) 0))
                           (\<lambda>zs. Inr (Some (Some zs)))
                    else Inr (Some (Some ys))))
        else Inr (Some (blk_tab b)))
       (\<lambda>r. case r of
              None \<Rightarrow> Inr (-1, b\<lparr>blk_tab := None\<rparr>)
            | Some tab \<Rightarrow> Inr (nmemb, \<lparr>blk_start = start, blk_nb = nmemb, blk_tab = tab\<rparr>))"

record memory =
  calloc_bytes :: "int \<Rightarrow> u8 list option"
  realloc_bytes :: "u8 list \<Rightarrow> int \<Rightarrow> u8 list option"
  calloc_words :: "int \<Rightarrow> u16 list option"
  realloc_words :: "u16 list \<Rightarrow> int \<Rightarrow> u16 list option"

definition setCoilBlock :: "memory \<Rightarrow> bslave \<Rightarrow> int \<Rightarrow> int \<Rightarrow> (int \<times> bslave) res" where
  "setCoilBlock A s addr nmemb =
     and_then (set_block (calloc_bytes A) (realloc_bytes A) 1 (map_bits (bmap s)) (Slave_pduAddress s addr) nmemb)
       (\<lambda>(rc, b). Inr (rc, s\<lparr>bmap := (bmap s)\<lparr>map_bits := b\<rparr>\<rparr>))"

definition setDiscreteInputBlock :: "memory \<Rightarrow> bslave \<Rightarrow> int \<Rightarrow> int \<Rightarrow> (int \<times> bslave) res" where
  "setDiscreteInputBlock A s addr nmemb =
     and_then (set_block (calloc_bytes A) (realloc_bytes A) 1 (map_input_bits (bmap s)) (Slave_pduAddress s addr) nmemb)
       (\<lambda>(rc, b). Inr (rc, s\<lparr>bmap := (bmap s)\<lparr>map_input_bits := b\<rparr>\<rparr>))"

text \<open>\<open>memset (&map->tab_registers[map->nb_registers * sizeof (uint16_t)], ...)\<close>: the index counts
  registers, so the multiplication by the size of a register is one too many.\<close>

definition setHoldingRegisterBlock :: "memory \<Rightarrow> bslave \<Rightarrow> int \<Rightarrow> int \<Rightarrow> (int \<times> bslave) res" where
  "setHoldingRegisterBlock A s addr nmemb =
     and_then (set_block (calloc_words A) (realloc_words A) 2 (map_registers (bmap s)) (Slave_pduAddress s addr) nmemb)
       (\<lambda>(rc, b). Inr (rc, s\<lparr>bmap := (bmap s)\<lparr>map_registers := b\<rparr>\<rparr>))"

definition setInputRegisterBlock :: "memory \<Rightarrow> bslave \<Rightarrow> int \<Rightarrow> int \<Rightarrow> (int \<times> bslave) res" where
  "setInputRegisterBlock A s addr nmemb =
     and_then (set_block (calloc_words A) (realloc_words A) 2 (map_input_registers (bmap s)) (Slave_pduAddress s addr) nmemb)
       (\<lambda>(rc, b). Inr (rc, s\<lparr>bmap := (bmap s)\<lparr>map_input_registers := b\<rparr>\<rparr>))"

definition BufferedSlave_setBlock :: "memory \<Rightarrow> bslave \<Rightarrow> Table \<Rightarrow> int \<Rightarrow> int \<Rightarrow> (int \<times> bslave) res" where
  "BufferedSlave_setBlock A s t nmemb startAddr =
     (let addr = (if startAddr < 0 then (if pduAddressing s then 0 else 1) else startAddr)
      in case t of
           DiscreteInput \<Rightarrow> setDiscreteInputBlock A s addr nmemb
         | Coil \<Rightarrow> setCoilBlock A s addr nmemb
         | InputRegister \<Rightarrow> setInputRegisterBlock A s addr nmemb
         | HoldingRegister \<Rightarrow> setHoldingRegisterBlock A s addr nmemb)"

section \<open>Reading\<close>

text \<open>The object and its world.\<close>

type_synonym 'c bstate = "'c world \<times> bslave"

definition bfail :: "'c bstate \<Rightarrow> 'c bstate" where
  "bfail st = ((fst st)\<lparr>w_errno := EINVAL\<rparr>, snd st)"

text \<open>The body of the four reads: \<open>rd\<close> is the read of the class \<open>Slave\<close>, whose destination is the
  image from \<open>offset\<close> on; \<open>get\<close> and \<open>put\<close> choose the block.\<close>

definition buffered_read ::
    "('c world \<Rightarrow> bslave \<Rightarrow> int \<Rightarrow> 'v list \<Rightarrow> int \<Rightarrow> (int \<times> 'v list \<times> 'c world) res) \<Rightarrow>
     (mapping \<Rightarrow> 'v block) \<Rightarrow> ('v block \<Rightarrow> mapping \<Rightarrow> mapping) \<Rightarrow>
     'c bstate \<Rightarrow> int \<Rightarrow> 'v list \<Rightarrow> int \<Rightarrow> (int \<times> 'v list \<times> 'c bstate) res" where
  "buffered_read rd get put st addr dest nb =
     (case st of (w, s) \<Rightarrow>
      let pduAddr = Slave_pduAddress s addr; b = get (bmap s)
      in if in_block b pduAddr
         then let offset = pduAddr - blk_start b; n = min nb (blk_nb b - offset)
              in and_then
                   (if Slave_isOpen w s
                    then and_then (rd w s addr (drop (nat offset) (blk_mem b)) n) (\<lambda>(rc, src, w').
                           Inr (rc, w', s\<lparr>bmap := put (b\<lparr>blk_tab :=
                             map_option (\<lambda>xs. take (nat offset) xs @ src) (blk_tab b)\<rparr>) (bmap s)\<rparr>))
                    else Inr (0, w, s))
                   (\<lambda>(rc, w', s').
                     if rc < 0 then Inr (rc, dest, w', s')
                     else and_then (vread (blk_mem (get (bmap s'))) offset n) (\<lambda>data.
                          and_then (vwrite dest 0 data) (\<lambda>dest'.
                          Inr (n, dest', w', s'))))
         else Inr (-1, dest, bfail st))"

definition BufferedSlave_readCoils ::
    "'c modbus_client \<Rightarrow> 'c bstate \<Rightarrow> int \<Rightarrow> u8 list \<Rightarrow> int \<Rightarrow> (int \<times> u8 list \<times> 'c bstate) res" where
  "BufferedSlave_readCoils M = buffered_read (Slave_readCoils M) map_bits (\<lambda>b m. m\<lparr>map_bits := b\<rparr>)"

definition BufferedSlave_readDiscreteInputs ::
    "'c modbus_client \<Rightarrow> 'c bstate \<Rightarrow> int \<Rightarrow> u8 list \<Rightarrow> int \<Rightarrow> (int \<times> u8 list \<times> 'c bstate) res" where
  "BufferedSlave_readDiscreteInputs M =
     buffered_read (Slave_readDiscreteInputs M) map_input_bits (\<lambda>b m. m\<lparr>map_input_bits := b\<rparr>)"

definition BufferedSlave_readRegisters ::
    "'c modbus_client \<Rightarrow> 'c bstate \<Rightarrow> int \<Rightarrow> u16 list \<Rightarrow> int \<Rightarrow> (int \<times> u16 list \<times> 'c bstate) res" where
  "BufferedSlave_readRegisters M =
     buffered_read (Slave_readRegisters M) map_registers (\<lambda>b m. m\<lparr>map_registers := b\<rparr>)"

definition BufferedSlave_readInputRegisters ::
    "'c modbus_client \<Rightarrow> 'c bstate \<Rightarrow> int \<Rightarrow> u16 list \<Rightarrow> int \<Rightarrow> (int \<times> u16 list \<times> 'c bstate) res" where
  "BufferedSlave_readInputRegisters M =
     buffered_read (Slave_readInputRegisters M) map_input_registers (\<lambda>b m. m\<lparr>map_input_registers := b\<rparr>)"

section \<open>Writing\<close>

text \<open>\<open>memcpy\<close> of the first \<open>n\<close> elements of \<open>src\<close> into the block from \<open>offset\<close> on.\<close>

definition store_block :: "'v block \<Rightarrow> int \<Rightarrow> 'v list \<Rightarrow> int \<Rightarrow> 'v block res" where
  "store_block b offset src n =
     and_then (vread src 0 n) (\<lambda>data.
     and_then (vwrite (blk_mem b) offset data) (\<lambda>mem.
     Inr (b\<lparr>blk_tab := map_option (\<lambda>_. mem) (blk_tab b)\<rparr>)))"

text \<open>\<open>wr1\<close> and \<open>wrn\<close> are the writes of the class \<open>Slave\<close>, of one element and of several.\<close>

definition buffered_write ::
    "('c world \<Rightarrow> bslave \<Rightarrow> int \<Rightarrow> 'v \<Rightarrow> (int \<times> 'c world) res) \<Rightarrow>
     ('c world \<Rightarrow> bslave \<Rightarrow> int \<Rightarrow> 'v list \<Rightarrow> int \<Rightarrow> (int \<times> 'c world) res) \<Rightarrow>
     (mapping \<Rightarrow> 'v block) \<Rightarrow> ('v block \<Rightarrow> mapping \<Rightarrow> mapping) \<Rightarrow>
     'c bstate \<Rightarrow> int \<Rightarrow> 'v list \<Rightarrow> int \<Rightarrow> (int \<times> 'c bstate) res" where
  "buffered_write wr1 wrn get put st addr src nb =
     (case st of (w, s) \<Rightarrow>
      let pduAddr = Slave_pduAddress s addr; b = get (bmap s)
      in if in_block b pduAddr
         then let offset = pduAddr - blk_start b; n = min nb (blk_nb b - offset)
              in and_then (store_block b offset src n) (\<lambda>b'.
                 let s' = s\<lparr>bmap := put b' (bmap s)\<rparr>
                 in if Slave_isOpen w s'
                    then and_then
                           (if n = 1
                            then and_then (vget (blk_mem b') offset) (\<lambda>v. wr1 w s' addr v)
                            else wrn w s' addr (drop (nat offset) (blk_mem b')) n)
                           (\<lambda>(rc, w'). Inr (rc, w', s'))
                    else Inr (n, w, s'))
         else Inr (-1, bfail st))"

definition BufferedSlave_writeCoils ::
    "'c modbus_client \<Rightarrow> 'c bstate \<Rightarrow> int \<Rightarrow> u8 list \<Rightarrow> int \<Rightarrow> (int \<times> 'c bstate) res" where
  "BufferedSlave_writeCoils M =
     buffered_write (\<lambda>w s addr v. Slave_writeCoil M w s addr (v \<noteq> 0)) (Slave_writeCoils M)
       map_bits (\<lambda>b m. m\<lparr>map_bits := b\<rparr>)"

definition BufferedSlave_writeCoil ::
    "'c modbus_client \<Rightarrow> 'c bstate \<Rightarrow> int \<Rightarrow> bool \<Rightarrow> (int \<times> 'c bstate) res" where
  "BufferedSlave_writeCoil M st addr value = BufferedSlave_writeCoils M st addr [of_bool value] 1"

definition BufferedSlave_writeRegisters ::
    "'c modbus_client \<Rightarrow> 'c bstate \<Rightarrow> int \<Rightarrow> u16 list \<Rightarrow> int \<Rightarrow> (int \<times> 'c bstate) res" where
  "BufferedSlave_writeRegisters M =
     buffered_write (Slave_writeRegister M) (Slave_writeRegisters M)
       map_registers (\<lambda>b m. m\<lparr>map_registers := b\<rparr>)"

definition BufferedSlave_writeRegister ::
    "'c modbus_client \<Rightarrow> 'c bstate \<Rightarrow> int \<Rightarrow> u16 \<Rightarrow> (int \<times> 'c bstate) res" where
  "BufferedSlave_writeRegister M st addr value = BufferedSlave_writeRegisters M st addr [value] 1"

text \<open>The writes of the read-only tables stay in the image.\<close>

definition image_write ::
    "(mapping \<Rightarrow> 'v block) \<Rightarrow> ('v block \<Rightarrow> mapping \<Rightarrow> mapping) \<Rightarrow>
     'c bstate \<Rightarrow> int \<Rightarrow> 'v list \<Rightarrow> int \<Rightarrow> (int \<times> 'c bstate) res" where
  "image_write get put st addr src nb =
     (case st of (w, s) \<Rightarrow>
      let pduAddr = Slave_pduAddress s addr; b = get (bmap s)
      in if in_block b pduAddr
         then let offset = pduAddr - blk_start b; n = min nb (blk_nb b - offset)
              in and_then (store_block b offset src n) (\<lambda>b'.
                 Inr (n, w, s\<lparr>bmap := put b' (bmap s)\<rparr>))
         else Inr (-1, bfail st))"

definition BufferedSlave_writeDiscreteInputs ::
    "'c bstate \<Rightarrow> int \<Rightarrow> u8 list \<Rightarrow> int \<Rightarrow> (int \<times> 'c bstate) res" where
  "BufferedSlave_writeDiscreteInputs = image_write map_input_bits (\<lambda>b m. m\<lparr>map_input_bits := b\<rparr>)"

definition BufferedSlave_writeDiscreteInput ::
    "'c bstate \<Rightarrow> int \<Rightarrow> bool \<Rightarrow> (int \<times> 'c bstate) res" where
  "BufferedSlave_writeDiscreteInput st addr value =
     BufferedSlave_writeDiscreteInputs st addr [of_bool value] 1"

definition BufferedSlave_writeInputRegisters ::
    "'c bstate \<Rightarrow> int \<Rightarrow> u16 list \<Rightarrow> int \<Rightarrow> (int \<times> 'c bstate) res" where
  "BufferedSlave_writeInputRegisters =
     image_write map_input_registers (\<lambda>b m. m\<lparr>map_input_registers := b\<rparr>)"

definition BufferedSlave_writeInputRegister ::
    "'c bstate \<Rightarrow> int \<Rightarrow> u16 \<Rightarrow> (int \<times> 'c bstate) res" where
  "BufferedSlave_writeInputRegister st addr value =
     BufferedSlave_writeInputRegisters st addr [value] 1"

section \<open>Writing and reading in one request, and the report\<close>

definition BufferedSlave_writeReadRegisters ::
    "'c modbus_client \<Rightarrow> 'c bstate \<Rightarrow> int \<Rightarrow> u16 list \<Rightarrow> int \<Rightarrow> int \<Rightarrow> u16 list \<Rightarrow> int \<Rightarrow>
     (int \<times> u16 list \<times> 'c bstate) res" where
  "BufferedSlave_writeReadRegisters M st write_addr write_src write_nb read_addr read_dest read_nb =
     (case st of (w, s) \<Rightarrow>
      let b = map_registers (bmap s);
          pduReadAddr = Slave_pduAddress s read_addr; pduWriteAddr = Slave_pduAddress s write_addr
      in if in_block b pduReadAddr \<and> in_block b pduWriteAddr
         then let offsetRead = pduReadAddr - blk_start b; offsetWrite = pduWriteAddr - blk_start b;
                  rn = min read_nb (blk_nb b - offsetRead); wn = min write_nb (blk_nb b - offsetWrite)
              in and_then (store_block b offsetWrite write_src wn) (\<lambda>b1.
                 let s1 = s\<lparr>bmap := (bmap s)\<lparr>map_registers := b1\<rparr>\<rparr>
                 in and_then
                      (if Slave_isOpen w s1
                       then and_then (Slave_writeReadRegisters M w s1 write_addr
                                (drop (nat offsetWrite) (blk_mem b1)) wn read_addr
                                (drop (nat offsetRead) (blk_mem b1)) rn) (\<lambda>(rc, src, w').
                            Inr (rc, w', s1\<lparr>bmap := (bmap s1)\<lparr>map_registers := b1\<lparr>blk_tab :=
                              map_option (\<lambda>xs. take (nat offsetRead) xs @ src) (blk_tab b1)\<rparr>\<rparr>\<rparr>))
                       else Inr (rn, w, s1))
                      (\<lambda>(rc, w', s').
                        if rc \<ge> 0
                        then and_then (vread (blk_mem (map_registers (bmap s'))) offsetRead rc) (\<lambda>data.
                             and_then (vwrite read_dest 0 data) (\<lambda>dest'. Inr (rc, dest', w', s')))
                        else Inr (rc, read_dest, w', s')))
         else Inr (-1, read_dest, bfail st))"

definition BufferedSlave_reportSlaveId ::
    "mb_consts \<Rightarrow> 'c modbus_client \<Rightarrow> 'c bstate \<Rightarrow> u16 \<Rightarrow> u8 list \<Rightarrow> (int \<times> u8 list \<times> 'c bstate) res" where
  "BufferedSlave_reportSlaveId K M st max_dest dest =
     (case st of (w, s) \<Rightarrow>
      and_then
        (if Slave_isOpen w s
         then let report = vresize (idReport s) (unat (MODBUS_MAX_PDU_LENGTH K))
              in and_then (Slave_reportSlaveId M w s (of_nat (length report)) report) (\<lambda>(rc, bytes, w').
                   if rc < 0 then Inr (rc, w', s\<lparr>idReport := bytes\<rparr>)
                   else Inr (rc, w', s\<lparr>idReport := vresize bytes (nat rc)\<rparr>))
         else Inr (0, w, s))
        (\<lambda>(rc, w', s').
          if rc < 0 then Inr (rc, dest, w', s')
          else let n = min max_dest (of_nat (length (idReport s')))
               in and_then (vread (idReport s') 0 (uint n)) (\<lambda>data.
                  and_then (vwrite dest 0 data) (\<lambda>dest'. Inr (uint n, dest', w', s')))))"

section \<open>Synchronising the image and the slave\<close>

text \<open>The private update functions call the virtual \<open>read...\<close> and \<open>write...\<close> of the object, with
  the image itself as destination or source.\<close>

definition updateDiscreteInputBlockFromSlave :: "'c modbus_client \<Rightarrow> 'c bstate \<Rightarrow> (int \<times> 'c bstate) res" where
  "updateDiscreteInputBlockFromSlave M st =
     (let b = map_input_bits (bmap (snd st)); nb = blk_nb b
      in if Slave_isOpen (fst st) (snd st) \<and> nb > 0
         then and_then (BufferedSlave_readDiscreteInputs M st (Slave_dataAddress (snd st) (blk_start b)) (blk_mem b) nb)
                (\<lambda>(rc, _, st'). Inr (rc, st'))
         else Inr (0, st))"

definition updateCoilBlockFromSlave :: "'c modbus_client \<Rightarrow> 'c bstate \<Rightarrow> (int \<times> 'c bstate) res" where
  "updateCoilBlockFromSlave M st =
     (let b = map_bits (bmap (snd st)); nb = blk_nb b
      in if Slave_isOpen (fst st) (snd st) \<and> nb > 0
         then and_then (BufferedSlave_readCoils M st (Slave_dataAddress (snd st) (blk_start b)) (blk_mem b) nb)
                (\<lambda>(rc, _, st'). Inr (rc, st'))
         else Inr (0, st))"

definition updateHoldingRegisterBlockFromSlave :: "'c modbus_client \<Rightarrow> 'c bstate \<Rightarrow> (int \<times> 'c bstate) res" where
  "updateHoldingRegisterBlockFromSlave M st =
     (let b = map_registers (bmap (snd st)); nb = blk_nb b
      in if Slave_isOpen (fst st) (snd st) \<and> nb > 0
         then and_then (BufferedSlave_readRegisters M st (Slave_dataAddress (snd st) (blk_start b)) (blk_mem b) nb)
                (\<lambda>(rc, _, st'). Inr (rc, st'))
         else Inr (0, st))"

definition updateInputRegisterBlockFromSlave :: "'c modbus_client \<Rightarrow> 'c bstate \<Rightarrow> (int \<times> 'c bstate) res" where
  "updateInputRegisterBlockFromSlave M st =
     (let b = map_input_registers (bmap (snd st)); nb = blk_nb b
      in if Slave_isOpen (fst st) (snd st) \<and> nb > 0
         then and_then (BufferedSlave_readInputRegisters M st (Slave_dataAddress (snd st) (blk_start b)) (blk_mem b) nb)
                (\<lambda>(rc, _, st'). Inr (rc, st'))
         else Inr (0, st))"

definition updateSlaveCoilFromBlock :: "'c modbus_client \<Rightarrow> 'c bstate \<Rightarrow> (int \<times> 'c bstate) res" where
  "updateSlaveCoilFromBlock M st =
     (let b = map_bits (bmap (snd st)); nb = blk_nb b
      in if Slave_isOpen (fst st) (snd st) \<and> nb > 0
         then let addr = Slave_dataAddress (snd st) (blk_start b); src = blk_mem b
              in if nb = 1
                 then and_then (vget src 0) (\<lambda>v. BufferedSlave_writeCoil M st addr (v \<noteq> 0))
                 else BufferedSlave_writeCoils M st addr src nb
         else Inr (0, st))"

definition updateSlaveHoldingRegisterFromBlock :: "'c modbus_client \<Rightarrow> 'c bstate \<Rightarrow> (int \<times> 'c bstate) res" where
  "updateSlaveHoldingRegisterFromBlock M st =
     (let b = map_registers (bmap (snd st)); nb = blk_nb b
      in if Slave_isOpen (fst st) (snd st) \<and> nb > 0
         then let addr = Slave_dataAddress (snd st) (blk_start b); src = blk_mem b
              in if nb = 1
                 then and_then (vget src 0) (\<lambda>v. BufferedSlave_writeRegister M st addr v)
                 else BufferedSlave_writeRegisters M st addr src nb
         else Inr (0, st))"

definition BufferedSlave_updateSlaveFromBlock :: "'c modbus_client \<Rightarrow> 'c bstate \<Rightarrow> Table \<Rightarrow> (int \<times> 'c bstate) res" where
  "BufferedSlave_updateSlaveFromBlock M st t =
     (case t of
        Coil \<Rightarrow> updateSlaveCoilFromBlock M st
      | HoldingRegister \<Rightarrow> updateSlaveHoldingRegisterFromBlock M st
      | _ \<Rightarrow> Inr (-1, bfail st))"

definition BufferedSlave_updateSlaveFromBlocks :: "'c modbus_client \<Rightarrow> 'c bstate \<Rightarrow> (bool \<times> 'c bstate) res" where
  "BufferedSlave_updateSlaveFromBlocks M st =
     and_then (BufferedSlave_updateSlaveFromBlock M st Coil) (\<lambda>(rc, st1).
       if rc < 0 then Inr (False, st1)
       else and_then (BufferedSlave_updateSlaveFromBlock M st1 HoldingRegister) (\<lambda>(rc, st2).
            Inr (rc \<ge> 0, st2)))"

definition BufferedSlave_updateBlockFromSlave :: "'c modbus_client \<Rightarrow> 'c bstate \<Rightarrow> Table \<Rightarrow> (int \<times> 'c bstate) res" where
  "BufferedSlave_updateBlockFromSlave M st t =
     (case t of
        DiscreteInput \<Rightarrow> updateDiscreteInputBlockFromSlave M st
      | Coil \<Rightarrow> updateCoilBlockFromSlave M st
      | InputRegister \<Rightarrow> updateInputRegisterBlockFromSlave M st
      | HoldingRegister \<Rightarrow> updateHoldingRegisterBlockFromSlave M st)"

text \<open>\<open>updateBlockFromSlave (Coil) >= 0 && ...\<close>: the first failure ends the conjunction.\<close>

fun updateBlocksFromSlave :: "'c modbus_client \<Rightarrow> 'c bstate \<Rightarrow> Table list \<Rightarrow> (bool \<times> 'c bstate) res" where
  "updateBlocksFromSlave M st [] = Inr (True, st)"
| "updateBlocksFromSlave M st (t # ts) =
     and_then (BufferedSlave_updateBlockFromSlave M st t) (\<lambda>(rc, st').
       if rc \<ge> 0 then updateBlocksFromSlave M st' ts else Inr (False, st'))"

definition BufferedSlave_updateBlocksFromSlave :: "'c modbus_client \<Rightarrow> 'c bstate \<Rightarrow> (bool \<times> 'c bstate) res" where
  "BufferedSlave_updateBlocksFromSlave M st =
     updateBlocksFromSlave M st [Coil, HoldingRegister, DiscreteInput, InputRegister]"

section \<open>Serving a request through the device\<close>

text \<open>\<open>start + pduAddressing() ? 0 : 1\<close> is \<open>(start + pduAddressing()) ? 0 : 1\<close>.\<close>

definition device_address :: "bslave \<Rightarrow> int \<Rightarrow> int" where
  "device_address s start = (if start + of_bool (pduAddressing s) \<noteq> 0 then 0 else 1)"

definition clip_start :: "'v block \<Rightarrow> int \<Rightarrow> int" where
  "clip_start b start = min (max start (blk_start b)) (blk_start b + blk_nb b - 1)"

text \<open>One case of \<open>readFromDevice\<close>: the destination is \<open>&tab[offset]\<close>.\<close>

definition device_read ::
    "('c world \<Rightarrow> bslave \<Rightarrow> int \<Rightarrow> 'v list \<Rightarrow> int \<Rightarrow> (int \<times> 'v list \<times> 'c world) res) \<Rightarrow>
     (mapping \<Rightarrow> 'v block) \<Rightarrow> ('v block \<Rightarrow> mapping \<Rightarrow> mapping) \<Rightarrow>
     'c bstate \<Rightarrow> int \<Rightarrow> int \<Rightarrow> (int \<times> 'c bstate) res" where
  "device_read rd get put st start nb =
     (case st of (w, s) \<Rightarrow>
      let b = get (bmap s); start' = clip_start b start; offset = start' - blk_start b;
          n = min nb (blk_nb b - offset)
      in if 0 \<le> offset \<and> offset \<le> int (length (blk_mem b))
         then and_then (rd w s (device_address s start') (drop (nat offset) (blk_mem b)) n) (\<lambda>(rc, src, w').
              Inr (rc, w', s\<lparr>bmap := put (b\<lparr>blk_tab :=
                map_option (\<lambda>xs. take (nat offset) xs @ src) (blk_tab b)\<rparr>) (bmap s)\<rparr>))
         else Inl Undefined_behaviour)"

text \<open>The \<open>switch\<close> of \<open>readFromDevice\<close>.\<close>

definition readFromDevice_switch ::
    "mb_consts \<Rightarrow> 'c modbus_client \<Rightarrow> 'c bstate \<Rightarrow> Function \<Rightarrow> int \<Rightarrow> int \<Rightarrow> (int \<times> 'c bstate) res" where
  "readFromDevice_switch K M st f start nb =
     (case f of
        ReadCoils \<Rightarrow>
          device_read (Slave_readCoils M) map_bits (\<lambda>b m. m\<lparr>map_bits := b\<rparr>) st start nb
      | ReadDiscreteInputs \<Rightarrow>
          device_read (Slave_readDiscreteInputs M) map_input_bits
            (\<lambda>b m. m\<lparr>map_input_bits := b\<rparr>) st start nb
      | ReadHoldingRegisters \<Rightarrow>
          device_read (Slave_readRegisters M) map_registers
            (\<lambda>b m. m\<lparr>map_registers := b\<rparr>) st start nb
      | ReadInputRegisters \<Rightarrow>
          device_read (Slave_readInputRegisters M) map_input_registers
            (\<lambda>b m. m\<lparr>map_input_registers := b\<rparr>) st start nb
      | ReportServerId \<Rightarrow>
          (let report = vresize (idReport (snd st)) (unat (MODBUS_MAX_PDU_LENGTH K))
           in and_then (Slave_reportSlaveId M (fst st) (snd st) (of_nat (length report)) report)
                (\<lambda>(rc, bytes, w').
                  if rc < 0 then Inl Length_error
                  else Inr (rc, w', (snd st)\<lparr>idReport := bytes\<rparr>)))
      | _ \<Rightarrow> Inr (0, st))"

definition BufferedSlave_readFromDevice ::
    "mb_consts \<Rightarrow> 'c modbus_client \<Rightarrow> 'c bstate \<Rightarrow> message option \<Rightarrow> (int \<times> 'c bstate) res" where
  "BufferedSlave_readFromDevice K M st req =
     (case req of
        None \<Rightarrow> Inr (-1, bfail st)
      | Some m \<Rightarrow>
          if Slave_isOpen (fst st) (snd st)
          then and_then (Message_startingAddress m) (\<lambda>a.
               and_then (Message_quantity m) (\<lambda>q.
               and_then (Message_function m) (\<lambda>f.
               readFromDevice_switch K M st f (uint a) (uint q))))
          else Inr (0, st))"

text \<open>The cases of \<open>writeToDevice\<close>.\<close>

definition device_write1 ::
    "('c world \<Rightarrow> bslave \<Rightarrow> int \<Rightarrow> 'v \<Rightarrow> (int \<times> 'c world) res) \<Rightarrow> (mapping \<Rightarrow> 'v block) \<Rightarrow>
     'c bstate \<Rightarrow> int \<Rightarrow> (int \<times> 'c bstate) res" where
  "device_write1 wr1 get st start =
     (case st of (w, s) \<Rightarrow>
      let b = get (bmap s); start' = clip_start b start
      in and_then (vget (blk_mem b) (start' - blk_start b)) (\<lambda>v.
         and_then (wr1 w s (device_address s start') v) (\<lambda>(rc, w'). Inr (rc, w', s))))"

definition device_write ::
    "('c world \<Rightarrow> bslave \<Rightarrow> int \<Rightarrow> 'v list \<Rightarrow> int \<Rightarrow> (int \<times> 'c world) res) \<Rightarrow> (mapping \<Rightarrow> 'v block) \<Rightarrow>
     'c bstate \<Rightarrow> int \<Rightarrow> int \<Rightarrow> (int \<times> 'c bstate) res" where
  "device_write wrn get st start nb =
     (case st of (w, s) \<Rightarrow>
      let b = get (bmap s); start' = clip_start b start; offset = start' - blk_start b;
          n = min nb (blk_nb b - offset)
      in if 0 \<le> offset \<and> offset \<le> int (length (blk_mem b))
         then and_then (wrn w s (device_address s start') (drop (nat offset) (blk_mem b)) n)
                (\<lambda>(rc, w'). Inr (rc, w', s))
         else Inl Undefined_behaviour)"

definition writeToDevice_switch ::
    "'c modbus_client \<Rightarrow> 'c bstate \<Rightarrow> Function \<Rightarrow> int \<Rightarrow> int \<Rightarrow> (int \<times> 'c bstate) res" where
  "writeToDevice_switch M st f start nb =
     (case f of
        WriteSingleCoil \<Rightarrow>
          device_write1 (\<lambda>w s addr v. Slave_writeCoil M w s addr (v \<noteq> 0)) map_bits st start
      | WriteMultipleCoils \<Rightarrow> device_write (Slave_writeCoils M) map_bits st start nb
      | WriteSingleRegister \<Rightarrow> device_write1 (Slave_writeRegister M) map_registers st start
      | WriteMultipleRegisters \<Rightarrow> device_write (Slave_writeRegisters M) map_registers st start nb
      | _ \<Rightarrow> Inr (0, st))"

definition BufferedSlave_writeToDevice ::
    "'c modbus_client \<Rightarrow> 'c bstate \<Rightarrow> message option \<Rightarrow> (int \<times> 'c bstate) res" where
  "BufferedSlave_writeToDevice M st req =
     (case req of
        None \<Rightarrow> Inr (-1, bfail st)
      | Some m \<Rightarrow>
          if Slave_isOpen (fst st) (snd st)
          then and_then (Message_startingAddress m) (\<lambda>a.
               and_then (Message_quantity m) (\<lambda>q.
               and_then (Message_function m) (\<lambda>f.
               writeToDevice_switch M st f (uint a) (uint q))))
          else Inr (0, st))"

end
