(* ===== verification/Master_Model.thy ===== *)
theory Master_Model
  imports Slave_Model
begin

text \<open>
  The class \<open>Master\<close> of \<open>src/master.cpp\<close>: a device and the map of the slaves that are reached
  through it. The device of a master is one of the devices of the world; a slave that the
  master creates points to it.
\<close>

section \<open>Devices of the world\<close>

text \<open>A call on the device \<open>i\<close>.\<close>

definition on_device ::
    "nat \<Rightarrow> ('c dev_state \<Rightarrow> ('a \<times> 'c dev_state) res) \<Rightarrow> 'c world \<Rightarrow> ('a \<times> 'c world) res" where
  "on_device i f w =
     and_then (f (w_errno w, w_devices w i)) (\<lambda>(x, e, d).
       Inr (x, w\<lparr>w_errno := e, w_devices := (w_devices w)(i := d)\<rparr>))"

text \<open>A call without a result.\<close>

definition unit_of :: "'s res \<Rightarrow> (unit \<times> 's) res" where
  "unit_of r = and_then r (\<lambda>s. Inr ((), s))"

section \<open>State\<close>

record master =
  m_dev :: nat
  m_slaves :: "int \<rightharpoonup> slave"

type_synonym 'c mstate = "'c world \<times> master"

text \<open>The calls of libmodbus that only a master makes, and its constants.\<close>

record 'c modbus_master =
  modbus_set_error_recovery :: "'c \<Rightarrow> int \<Rightarrow> 'c reply"
  modbus_send_raw_request :: "'c \<Rightarrow> u8 list \<Rightarrow> nat \<Rightarrow> 'c reply"
  modbus_receive_confirmation :: "'c \<Rightarrow> u8 list \<times> 'c reply"
  MODBUS_ERROR_RECOVERY_LINK :: int
  MODBUS_ERROR_RECOVERY_NONE :: int

text \<open>\<open>i\<close> is the address of the new device.\<close>

definition Master_new :: "nat \<Rightarrow> 'c world \<Rightarrow> 'c mstate" where
  "Master_new i w = (w\<lparr>w_devices := (w_devices w)(i := Device_new)\<rparr>, \<lparr>m_dev = i, m_slaves = Map.empty\<rparr>)"

definition Master_device :: "'c mstate \<Rightarrow> 'c device" where
  "Master_device st = w_devices (fst st) (m_dev (snd st))"

text \<open>A call on the device of the master.\<close>

definition master_call ::
    "('c dev_state \<Rightarrow> ('a \<times> 'c dev_state) res) \<Rightarrow> 'c mstate \<Rightarrow> ('a \<times> 'c mstate) res" where
  "master_call f st =
     and_then (on_device (m_dev (snd st)) f (fst st)) (\<lambda>(x, w). Inr (x, w, snd st))"

definition Master_open :: "'c modbus_link \<Rightarrow> 'c mstate \<Rightarrow> (bool \<times> 'c mstate) res" where
  "Master_open L = master_call (Device_open L)"

definition Master_close :: "'c modbus_link \<Rightarrow> 'c mstate \<Rightarrow> 'c mstate res" where
  "Master_close L st =
     and_then (master_call (\<lambda>s. unit_of (Device_close L s)) st) (\<lambda>(_, st'). Inr st')"

definition Master_setRecoveryLink ::
    "'c modbus_master \<Rightarrow> 'c mstate \<Rightarrow> bool \<Rightarrow> (bool \<times> 'c mstate) res" where
  "Master_setRecoveryLink MM st recovery =
     (if Device_isValid (Master_device st)
      then and_then (master_call (Device_call (\<lambda>c. modbus_set_error_recovery MM c
               (if recovery then MODBUS_ERROR_RECOVERY_LINK MM else MODBUS_ERROR_RECOVERY_NONE MM))) st)
             (\<lambda>(_, st1).
           and_then (master_call (\<lambda>(e, d). Inr ((), e, d\<lparr>dev_recoveryLink := recovery\<rparr>)) st1)
             (\<lambda>(_, st2). Inr (True, st2)))
      else Inl Runtime_error)"

section \<open>Slaves\<close>

definition Master_hasSlave :: "master \<Rightarrow> int \<Rightarrow> bool" where
  "Master_hasSlave m slaveAddr \<longleftrightarrow> m_slaves m slaveAddr \<noteq> None"

text \<open>\<open>std::map::at\<close>.\<close>

definition map_at :: "('k \<rightharpoonup> 'v) \<Rightarrow> 'k \<Rightarrow> 'v res" where
  "map_at m k = (case m k of Some v \<Rightarrow> Inr v | None \<Rightarrow> Inl Out_of_range)"

definition Master_slave :: "mb_consts \<Rightarrow> 'c mstate \<Rightarrow> int \<Rightarrow> slave res" where
  "Master_slave K st slaveAddr =
     map_at (m_slaves (snd st)) (Device_defaultSlave K (Master_device st) slaveAddr)"

definition Master_slavePtr :: "mb_consts \<Rightarrow> 'c mstate \<Rightarrow> int \<Rightarrow> slave option res" where
  "Master_slavePtr K st slaveAddr =
     (let i = Device_defaultSlave K (Master_device st) slaveAddr
      in if Master_hasSlave (snd st) i
         then and_then (map_at (m_slaves (snd st)) i) (\<lambda>s. Inr (Some s)) else Inr None)"

definition Master_index :: "'c mstate \<Rightarrow> int \<Rightarrow> slave res" where
  "Master_index st slaveAddr = map_at (m_slaves (snd st)) slaveAddr"

definition Master_Private_addSlave :: "'c modbus_client \<Rightarrow> 'c mstate \<Rightarrow> int \<Rightarrow> 'c mstate res" where
  "Master_Private_addSlave M st slaveAddr =
     (if Device_isValid (Master_device st)
      then and_then (master_call (Device_call (\<lambda>c. modbus_set_slave M c slaveAddr)) st) (\<lambda>(rc, w, m).
             if rc \<noteq> 0 then Inl Invalid_argument
             else if Master_hasSlave m slaveAddr then Inr (w, m)
             else Inr (w, m\<lparr>m_slaves := (m_slaves m)(slaveAddr \<mapsto>
                    Slave_Private_at slaveAddr (Some (m_dev m)))\<rparr>))
      else Inl Runtime_error)"

definition Master_addSlave :: "'c modbus_client \<Rightarrow> 'c mstate \<Rightarrow> int \<Rightarrow> 'c mstate res" where
  "Master_addSlave M st slaveAddr = Master_Private_addSlave M st slaveAddr"

text \<open>\<open>setBackend\<close> of the base class, and the slave that every master of the network has.\<close>

definition Master_Private_setBackend ::
    "mb_consts \<Rightarrow> 'c modbus_link \<Rightarrow> 'c rtu_api \<Rightarrow> 'c modbus_client \<Rightarrow>
     'c mstate \<Rightarrow> Net \<Rightarrow> string \<Rightarrow> string \<Rightarrow> 'c mstate res" where
  "Master_Private_setBackend K L R M st n conn st' =
     and_then (master_call (\<lambda>(e, d).
         and_then (Device_Private_setBackend K L R d n conn st') (\<lambda>d'. Inr ((), e, d'))) st) (\<lambda>(_, st1).
       case n of
         Tcp \<Rightarrow> Master_Private_addSlave M st1 (MODBUS_TCP_SLAVE K)
       | Rtu \<Rightarrow> Master_Private_addSlave M st1 (MODBUS_BROADCAST_ADDRESS K)
       | NoNet \<Rightarrow> Inr st1)"

text \<open>\<open>Device::setBackend\<close>, whose \<open>d->setBackend\<close> is the virtual call.\<close>

definition Master_setBackend ::
    "mb_consts \<Rightarrow> 'c modbus_link \<Rightarrow> 'c rtu_api \<Rightarrow> 'c modbus_client \<Rightarrow>
     'c mstate \<Rightarrow> Net \<Rightarrow> string \<Rightarrow> string \<Rightarrow> (bool \<times> 'c mstate) res" where
  "Master_setBackend K L R M st n conn st' =
     (if \<not> Device_isValid (Master_device st)
      then and_then (Master_Private_setBackend K L R M st n conn st') (\<lambda>st1. Inr (True, st1))
      else Inr (False, st))"

text \<open>The constructor with a network calls \<open>d->setBackend\<close> on a new master.\<close>

definition Master_new_net ::
    "mb_consts \<Rightarrow> 'c modbus_link \<Rightarrow> 'c rtu_api \<Rightarrow> 'c modbus_client \<Rightarrow>
     nat \<Rightarrow> 'c world \<Rightarrow> Net \<Rightarrow> string \<Rightarrow> string \<Rightarrow> 'c mstate res" where
  "Master_new_net K L R M i w n conn st' = Master_Private_setBackend K L R M (Master_new i w) n conn st'"

section \<open>Raw requests\<close>

text \<open>\<open>req\<close> is the memory from the pointer on.\<close>

definition Master_sendRawRequest ::
    "'c modbus_client \<Rightarrow> 'c modbus_master \<Rightarrow> 'c mstate \<Rightarrow> u8 list \<Rightarrow> nat \<Rightarrow> (int \<times> 'c mstate) res" where
  "Master_sendRawRequest M MM st req len =
     (if Device_isValid (Master_device st)
      then and_then (vget req 0) (\<lambda>b.
           and_then (master_call (Device_call (\<lambda>c. modbus_set_slave M c (uint b))) st) (\<lambda>(rc, st1).
             if rc = 0
             then master_call (Device_call (\<lambda>c. modbus_send_raw_request MM c req len)) st1
             else Inr (rc, st1)))
      else Inl Runtime_error)"

definition Master_sendRawRequest_msg ::
    "'c modbus_client \<Rightarrow> 'c modbus_master \<Rightarrow> 'c mstate \<Rightarrow> message \<Rightarrow> (int \<times> 'c mstate) res" where
  "Master_sendRawRequest_msg M MM st req =
     (if pduBegin req < 1 then Inl Undefined_behaviour
      else Master_sendRawRequest M MM st (drop (nat (pduBegin req - 1)) (adu req)) (Message_size req + 1))"

definition Master_receiveResponse ::
    "'c modbus_master \<Rightarrow> 'c mstate \<Rightarrow> u8 list \<Rightarrow> (int \<times> u8 list \<times> 'c mstate) res" where
  "Master_receiveResponse MM st rsp =
     (if Device_isValid (Master_device st)
      then (case dev_backend (Master_device st) of
              None \<Rightarrow> Inl Undefined_behaviour
            | Some l \<Rightarrow>
                (case modbus_receive_confirmation MM (ctx l) of (out, r) \<Rightarrow>
                   and_then (vwrite rsp 0 out) (\<lambda>rsp'.
                   and_then (master_call (Device_call (\<lambda>_. r)) st) (\<lambda>(rc, st').
                   Inr (rc, rsp', st')))))
      else Inl Runtime_error)"

text \<open>The size of the ADU is of type \<open>size_t\<close>, of 64 bits.\<close>

definition Master_receiveResponse_msg ::
    "'c modbus_master \<Rightarrow> 'c mstate \<Rightarrow> message \<Rightarrow> (int \<times> message \<times> 'c mstate) res" where
  "Master_receiveResponse_msg MM st resp =
     and_then (Master_receiveResponse MM st (adu resp)) (\<lambda>(rc, a, st').
     and_then (if rc > 0
               then and_then (Device_net (Master_device st')) (\<lambda>n.
                      Inr (Message_setAduSize (resp\<lparr>adu := a\<rparr>)
                        (nat ((if n = Tcp then rc else rc - 2) mod 2 ^ 64))))
               else Inr (resp\<lparr>adu := a\<rparr>))
       (\<lambda>resp'. Inr (rc, resp', st')))"

section \<open>Lemmas\<close>

lemma on_device_world:
  "on_device i f w = Inr (x, w') \<Longrightarrow>
   f (w_errno w, w_devices w i) = Inr (x, w_errno w', w_devices w' i) \<and> (\<forall>j. j \<noteq> i \<longrightarrow> w_devices w' j = w_devices w j)"
  by (auto simp: on_device_def and_then_eq_Inr)

lemma master_call_world:
  "master_call f st = Inr (x, st') \<Longrightarrow>
   snd st' = snd st \<and> f (w_errno (fst st), Master_device st) = Inr (x, w_errno (fst st'), Master_device st') \<and>
   (\<forall>j. j \<noteq> m_dev (snd st) \<longrightarrow> w_devices (fst st') j = w_devices (fst st) j)"
  by (auto simp: master_call_def and_then_eq_Inr Master_device_def dest!: on_device_world)

text \<open>A call on the context leaves the slaves, the link and the flags alone.\<close>

lemma master_call_ctx:
  assumes "master_call (Device_call f) st = Inr (rc, st')"
  shows "snd st' = snd st \<and> same_device (Master_device st) (Master_device st')"
  using master_call_world [OF assms] Device_call_same by fastforce

lemma dev_link_valid: "Device_isValid d \<longleftrightarrow> dev_link d \<noteq> None"
  by (simp add: Device_isValid_def dev_link_def)

lemma dev_link_default:
  "dev_link d' = dev_link d \<Longrightarrow> Device_defaultSlave K d' a = Device_defaultSlave K d a"
  by (cases "dev_backend d"; cases "dev_backend d'") (auto simp: dev_link_def Device_defaultSlave_def)

lemma Device_setBackend_layer:
  "Device_Private_setBackend K L R d n conn s = Inr d' \<Longrightarrow>
   \<exists>l. d' = d\<lparr>dev_backend := Some l\<rparr> \<and> nl_net l = n \<and> n \<noteq> NoNet"
  by (auto simp: Device_Private_setBackend_def and_then_eq_Inr RtuLayer_Private_def
      TcpLayer_Private_def Let_def split: Net.splits if_splits option.splits)

lemma Device_open_link: "Device_open L st = Inr (ok, st') \<Longrightarrow> dev_link (snd st') = dev_link (snd st)"
  by (auto simp: Device_open_def and_then_eq_Inr same_device_def dev_link_def
      dest!: Device_Private_open_same split: if_splits)

lemma Device_close_link: "Device_close L st = Inr st' \<Longrightarrow> dev_link (snd st') = dev_link (snd st)"
  by (auto simp: Device_close_def and_then_eq_Inr same_device_def dev_link_def
      dest!: Device_Private_close_same split: if_splits)

section \<open>Steps of a master\<close>

text \<open>Every call of the interface that changes a master, the ones that the class inherits from \<open>Device\<close>
  and those of the layer (which only use its context) included, the requests of slaves, and the
  setters of a slave that the program gets from \<open>slave\<close>: \<open>ks\<close> are the setters that it calls.\<close>

inductive master_step ::
    "mb_consts \<Rightarrow> 'c modbus_link \<Rightarrow> 'c rtu_api \<Rightarrow> 'c modbus_client \<Rightarrow> 'c modbus_master \<Rightarrow> slave_call set \<Rightarrow>
     'c mstate \<Rightarrow> 'c mstate \<Rightarrow> bool"
  for K L R M MM ks where
  m_setBackend: "Master_setBackend K L R M st n conn s = Inr (ok, st') \<Longrightarrow> master_step K L R M MM ks st st'"
| m_addSlave: "Master_addSlave M st a = Inr st' \<Longrightarrow> master_step K L R M MM ks st st'"
| m_open: "Master_open L st = Inr (ok, st') \<Longrightarrow> master_step K L R M MM ks st st'"
| m_close: "Master_close L st = Inr st' \<Longrightarrow> master_step K L R M MM ks st st'"
| m_setRecoveryLink: "Master_setRecoveryLink MM st b = Inr (ok, st') \<Longrightarrow> master_step K L R M MM ks st st'"
| m_setDebug: "master_call (\<lambda>s. Device_setDebug L s b) st = Inr (ok, st') \<Longrightarrow> master_step K L R M MM ks st st'"
| m_flush: "master_call (Device_flush L) st = Inr (rc, st') \<Longrightarrow> master_step K L R M MM ks st st'"
| m_setTimeout: "master_call (\<lambda>s. Device_setTimeout f s t) st = Inr (ok, st') \<Longrightarrow> master_step K L R M MM ks st st'"
| m_getTimeout: "master_call (\<lambda>s. and_then (Device_getTimeout g s) (\<lambda>(ok, t, s'). Inr ((ok, t), s'))) st
      = Inr (x, st') \<Longrightarrow> master_step K L R M MM ks st st'"
| m_layer: "master_call (Device_call h) st = Inr (rc, st') \<Longrightarrow> master_step K L R M MM ks st st'"
| m_send: "Device_sendRawMessage fuel L R (w_errno (fst st), Master_device st) msg p = Some (Inr (rc, s', msg')) \<Longrightarrow>
      master_call (\<lambda>_. Inr (rc, s')) st = Inr (rc, st') \<Longrightarrow> master_step K L R M MM ks st st'"
| m_sendRaw: "Master_sendRawRequest M MM st req len = Inr (rc, st') \<Longrightarrow> master_step K L R M MM ks st st'"
| m_receive: "Master_receiveResponse MM st rsp = Inr (rc, rsp', st') \<Longrightarrow> master_step K L R M MM ks st st'"
| m_bits: "Slave_request M w (s :: slave) f (dest :: u8 list) = Inr (rc, dest', w') \<Longrightarrow>
    master_step K L R M MM ks (w, m) (w', m)"
| m_registers: "Slave_request M w (s :: slave) f (dest :: u16 list) = Inr (rc, dest', w') \<Longrightarrow>
    master_step K L R M MM ks (w, m) (w', m)"
| m_setNumber: "Set_number \<in> ks \<Longrightarrow> m_slaves m a = Some s \<Longrightarrow>
    master_step K L R M MM ks (w, m) (w, m\<lparr>m_slaves := (m_slaves m)(a \<mapsto> Slave_setNumber s i)\<rparr>)"
| m_setDevice: "Set_device \<in> ks \<Longrightarrow> m_slaves m a = Some s \<Longrightarrow>
    master_step K L R M MM ks (w, m) (w, m\<lparr>m_slaves := (m_slaves m)(a \<mapsto> Slave_setDevice s dv)\<rparr>)"
| m_setPduAddressing: "Set_mode \<in> ks \<Longrightarrow> m_slaves m a = Some s \<Longrightarrow>
    master_step K L R M MM ks (w, m) (w, m\<lparr>m_slaves := (m_slaves m)(a \<mapsto> Slave_setPduAddressing s pdu)\<rparr>)"

inductive master_reach ::
    "mb_consts \<Rightarrow> 'c modbus_link \<Rightarrow> 'c rtu_api \<Rightarrow> 'c modbus_client \<Rightarrow> 'c modbus_master \<Rightarrow> slave_call set \<Rightarrow>
     'c mstate \<Rightarrow> bool"
  for K L R M MM ks where
  m_new: "master_reach K L R M MM ks (Master_new i w)"
| m_step: "master_reach K L R M MM ks st \<Longrightarrow> master_step K L R M MM ks st st' \<Longrightarrow> master_reach K L R M MM ks st'"

text \<open>Every slave is the one that the constructor makes for its key, up to the setters that the program
  calls, and once the master has a layer the slave that \<open>slave (-1)\<close> looks up is among them.\<close>

definition mslave_ok :: "slave_call set \<Rightarrow> nat \<Rightarrow> int \<Rightarrow> slave \<Rightarrow> bool" where
  "mslave_ok ks d a s \<longleftrightarrow> (Set_number \<notin> ks \<longrightarrow> slave_id s = a) \<and> (Set_device \<notin> ks \<longrightarrow> slave_dev s = Some d) \<and>
     (Set_mode \<notin> ks \<longrightarrow> \<not> pduAddressing s)"

lemma mslave_new [simp]: "mslave_ok ks d a (Slave_Private_at a (Some d))"
  by (simp add: mslave_ok_def Slave_Private_at_def Slave_Private_def)

definition master_inv :: "mb_consts \<Rightarrow> slave_call set \<Rightarrow> 'c mstate \<Rightarrow> bool" where
  "master_inv K ks st \<longleftrightarrow> dev_inv (Master_device st) \<and>
     (\<forall>a s. m_slaves (snd st) a = Some s \<longrightarrow> mslave_ok ks (m_dev (snd st)) a s) \<and>
     (if Device_isValid (Master_device st)
      then m_slaves (snd st) (Device_defaultSlave K (Master_device st) (-1)) \<noteq> None
      else m_slaves (snd st) = Map.empty)"

lemma master_inv_link:
  assumes "master_inv K ks st" and "dev_link (Master_device st') = dev_link (Master_device st)"
    and "dev_inv (Master_device st')" and "snd st' = snd st"
  shows "master_inv K ks st'"
  using assms dev_link_default [OF assms(2)] by (simp add: master_inv_def dev_link_valid)

lemma master_inv_same:
  assumes "master_inv K ks st" and "same_device (Master_device st) (Master_device st')" and "snd st' = snd st"
  shows "master_inv K ks st'"
  by (rule master_inv_link [OF assms(1)])
    (use assms dev_inv_same in \<open>auto simp: master_inv_def same_device_link\<close>)

lemma master_inv_call:
  assumes "master_inv K ks st" and "master_call f st = Inr (x, st')"
    and "\<And>s x s'. f s = Inr (x, s') \<Longrightarrow> same_device (snd s) (snd s')"
  shows "master_inv K ks st'"
proof -
  have "same_device (Master_device st) (Master_device st')" and "snd st' = snd st"
    using master_call_world [OF assms(2)] assms(3) by fastforce+
  then show ?thesis by (rule master_inv_same [OF assms(1)])
qed

lemma master_inv_setter:
  assumes "master_inv K ks (w, m)" and "m_slaves m a = Some s" and "mslave_ok ks (m_dev m) a s'"
  shows "master_inv K ks (w, m\<lparr>m_slaves := (m_slaves m)(a \<mapsto> s')\<rparr>)"
proof -
  have "Device_isValid (Master_device (w, m))"
    using assms(1,2) by (rule_tac ccontr) (simp add: master_inv_def)
  then show ?thesis using assms by (simp add: master_inv_def Master_device_def)
qed

text \<open>\<open>addSlave\<close> leaves the device alone and adds at most the slave of its argument.\<close>

lemma Master_addSlave_effect:
  assumes "Master_Private_addSlave M st a = Inr st'"
  shows "Device_isValid (Master_device st) \<and> same_device (Master_device st) (Master_device st') \<and>
    m_dev (snd st') = m_dev (snd st) \<and>
    m_slaves (snd st') = (if m_slaves (snd st) a = None
      then (m_slaves (snd st))(a \<mapsto> Slave_Private_at a (Some (m_dev (snd st)))) else m_slaves (snd st))"
proof -
  obtain rc w m where "Device_isValid (Master_device st)"
    and c: "master_call (Device_call (\<lambda>c. modbus_set_slave M c a)) st = Inr (rc, w, m)"
    and r: "st' = (if Master_hasSlave m a then (w, m) else
        (w, m\<lparr>m_slaves := (m_slaves m)(a \<mapsto> Slave_Private_at a (Some (m_dev m)))\<rparr>))"
    using assms by (auto simp: Master_Private_addSlave_def and_then_eq_Inr split: if_splits)
  then show ?thesis
    using master_call_ctx [OF c] by (auto simp: Master_hasSlave_def Master_device_def)
qed

lemma Master_addSlave_keeps:
  assumes "Master_Private_addSlave M st a = Inr st'"
    and "dev_inv (Master_device st)"
    and "\<forall>b s. m_slaves (snd st) b = Some s \<longrightarrow> mslave_ok ks (m_dev (snd st)) b s"
    and "a = Device_defaultSlave K (Master_device st) (-1) \<or>
      m_slaves (snd st) (Device_defaultSlave K (Master_device st) (-1)) \<noteq> None"
  shows "master_inv K ks st'"
proof -
  note e = Master_addSlave_effect [OF assms(1)]
  then have "Device_isValid (Master_device st')"
    and "Device_defaultSlave K (Master_device st') (-1) = Device_defaultSlave K (Master_device st) (-1)"
    and "dev_inv (Master_device st')"
    using same_device_valid dev_link_default same_device_link dev_inv_same assms(2) by blast+
  then show ?thesis
    using e assms(3,4) by (auto simp: master_inv_def)
qed

lemma Master_setBackend_keeps:
  assumes "Master_Private_setBackend K L R M st n conn s = Inr st'" and "master_inv K ks st"
    and "\<not> Device_isValid (Master_device st)"
  shows "master_inv K ks st'"
proof -
  from assms(1) obtain st1 where c: "master_call (\<lambda>(e, d).
      and_then (Device_Private_setBackend K L R d n conn s) (\<lambda>d'. Inr ((), e, d'))) st = Inr ((), st1)"
    and r: "(case n of Tcp \<Rightarrow> Master_Private_addSlave M st1 (MODBUS_TCP_SLAVE K)
       | Rtu \<Rightarrow> Master_Private_addSlave M st1 (MODBUS_BROADCAST_ADDRESS K) | NoNet \<Rightarrow> Inr st1) = Inr st'"
    unfolding Master_Private_setBackend_def and_then_eq_Inr by auto
  have d: "Device_Private_setBackend K L R (Master_device st) n conn s = Inr (Master_device st1)"
    and m: "snd st1 = snd st"
    using master_call_world [OF c] by (auto simp: and_then_eq_Inr)
  obtain l where l: "dev_backend (Master_device st1) = Some l" "nl_net l = n" "n \<noteq> NoNet"
    using Device_setBackend_layer [OF d] by auto
  have "Master_Private_addSlave M st1 (Device_defaultSlave K (Master_device st1) (-1)) = Inr st'"
    using r l by (cases n) (simp_all add: Device_defaultSlave_def)
  moreover have "dev_inv (Master_device st1)"
    using l by (auto simp: dev_inv_def Device_isValid_def)
  ultimately show ?thesis
    using Master_addSlave_keeps [of M st1 _ st' ks K] assms(2,3) m by (auto simp: master_inv_def)
qed

lemma master_step_keeps:
  assumes "master_step K L R M MM ks st st'" and "master_inv K ks st"
  shows "master_inv K ks st'"
  using assms(1)
proof cases
  case (m_setBackend n conn s ok)
  then have "st' = st \<or> \<not> Device_isValid (Master_device st) \<and> Master_Private_setBackend K L R M st n conn s = Inr st'"
    by (auto simp: Master_setBackend_def and_then_eq_Inr split: if_splits)
  then show ?thesis
    using assms(2) Master_setBackend_keeps by blast
next
  case (m_addSlave a)
  then have a: "Master_Private_addSlave M st a = Inr st'" by (simp add: Master_addSlave_def)
  show ?thesis
    by (rule Master_addSlave_keeps [OF a])
      (use assms(2) Master_addSlave_effect [OF a] in \<open>simp_all add: master_inv_def\<close>)
next
  case (m_open ok)
  then have c: "master_call (Device_open L) st = Inr (ok, st')" by (simp add: Master_open_def)
  have w: "Device_open L (w_errno (fst st), Master_device st) = Inr (ok, w_errno (fst st'), Master_device st')"
    and "snd st' = snd st"
    using master_call_world [OF c] by auto
  then show ?thesis
    using assms(2) Device_open_link [OF w] dev_step_keeps [where K = K and R = R, OF step_open [OF w]]
    by (intro master_inv_link [OF assms(2)]) (auto simp: master_inv_def)
next
  case m_close
  then obtain u where c: "master_call (\<lambda>s. unit_of (Device_close L s)) st = Inr (u, st')"
    by (auto simp: Master_close_def and_then_eq_Inr)
  then have "snd st' = snd st"
    and w: "Device_close L (w_errno (fst st), Master_device st) = Inr (w_errno (fst st'), Master_device st')"
    using master_call_world [OF c] by (auto simp: unit_of_def and_then_eq_Inr)
  then show ?thesis
    using assms(2) Device_close_link [OF w] dev_step_keeps [where K = K and R = R, OF step_close [OF w]]
    by (intro master_inv_link [OF assms(2)]) (auto simp: master_inv_def)
next
  case (m_setRecoveryLink b ok)
  then obtain rc st1 where c1: "master_call (Device_call (\<lambda>c. modbus_set_error_recovery MM c
        (if b then MODBUS_ERROR_RECOVERY_LINK MM else MODBUS_ERROR_RECOVERY_NONE MM))) st = Inr (rc, st1)"
    and c2: "master_call (\<lambda>(e, d). Inr ((), e, d\<lparr>dev_recoveryLink := b\<rparr>)) st1 = Inr ((), st')"
    by (auto simp: Master_setRecoveryLink_def and_then_eq_Inr split: if_splits)
  have 1: "master_inv K ks st1" using master_inv_same [OF assms(2)] master_call_ctx [OF c1] by blast
  have d: "Master_device st' = (Master_device st1)\<lparr>dev_recoveryLink := b\<rparr>" and "snd st' = snd st1"
    using master_call_world [OF c2] by simp_all
  moreover have "dev_inv (Master_device st1)" using 1 by (simp add: master_inv_def)
  then have "dev_inv (Master_device st')"
    unfolding d by (simp add: dev_inv_def Device_isValid_def Device_isOpen_def)
  moreover have "dev_link (Master_device st') = dev_link (Master_device st1)"
    unfolding d by (simp add: dev_link_def)
  ultimately show ?thesis using master_inv_link [OF 1] by blast
next
  case (m_setDebug b ok)
  then have w: "Device_setDebug L (w_errno (fst st), Master_device st) b = Inr (ok, w_errno (fst st'), Master_device st')"
    and "snd st' = snd st"
    using master_call_world [OF m_setDebug] by simp_all
  then show ?thesis
    using assms(2) Device_setDebug_keeps [OF w] dev_step_keeps [where K = K and R = R, OF step_setDebug [OF w]]
    by (intro master_inv_link [OF assms(2)]) (auto simp: master_inv_def)
next
  case (m_flush rc)
  then show ?thesis by (rule master_inv_call [OF assms(2)]) (rule Device_flush_same)
next
  case (m_setTimeout f t ok)
  then show ?thesis by (rule master_inv_call [OF assms(2)]) (rule Device_setTimeout_same)
next
  case (m_getTimeout g x)
  then show ?thesis
    by (rule master_inv_call [OF assms(2)]) (auto simp: and_then_eq_Inr dest: Device_getTimeout_same)
next
  case (m_layer h rc)
  then show ?thesis by (rule master_inv_call [OF assms(2)]) (rule Device_call_same)
next
  case (m_send fuel msg p rc s' msg')
  have "same_device (Master_device st) (snd s')"
    using Device_sendRawMessage_same [OF m_send(1)] by simp
  moreover have "snd st' = snd st" "Master_device st' = snd s'"
    using master_call_world [OF m_send(2)] by auto
  ultimately show ?thesis using master_inv_same [OF assms(2)] by simp
next
  case (m_setNumber m a s w i)
  then have "mslave_ok ks (m_dev m) a s" using assms(2) by (simp add: master_inv_def)
  then show ?thesis
    using m_setNumber assms(2) by (auto intro!: master_inv_setter simp: mslave_ok_def Slave_setNumber_def)
next
  case (m_setDevice m a s w dv)
  then have "mslave_ok ks (m_dev m) a s" using assms(2) by (simp add: master_inv_def)
  then show ?thesis
    using m_setDevice assms(2) by (auto intro!: master_inv_setter simp: mslave_ok_def Slave_setDevice_def)
next
  case (m_setPduAddressing m a s w pdu)
  then have "mslave_ok ks (m_dev m) a s" using assms(2) by (simp add: master_inv_def)
  then show ?thesis
    using m_setPduAddressing assms(2) by (auto intro!: master_inv_setter simp: mslave_ok_def Slave_setPduAddressing_def)
next
  case (m_sendRaw req len rc)
  then have "Device_isValid (Master_device st)"
    by (rule_tac ccontr) (simp add: Master_sendRawRequest_def)
  with m_sendRaw have "and_then (vget req 0) (\<lambda>b.
      and_then (master_call (Device_call (\<lambda>c. modbus_set_slave M c (uint b))) st) (\<lambda>(rc, st1).
        if rc = 0 then master_call (Device_call (\<lambda>c. modbus_send_raw_request MM c req len)) st1
        else Inr (rc, st1))) = Inr (rc, st')"
    by (simp add: Master_sendRawRequest_def)
  then obtain b :: u8 and rc1 st1
    where c1: "master_call (Device_call (\<lambda>c. modbus_set_slave M c (uint b))) st = Inr (rc1, st1)"
    and c2: "(if rc1 = 0 then master_call (Device_call (\<lambda>c. modbus_send_raw_request MM c req len)) st1
              else Inr (rc1, st1)) = Inr (rc, st')"
    by (elim and_then_pairE and_then_InrE) (rule that, assumption, simp only: prod.case)
  have "master_inv K ks st1"
    using master_inv_same [OF assms(2)] master_call_ctx [OF c1] by simp
  then show ?thesis
    using c2 master_inv_same [of K ks st1 st'] master_call_ctx [of _ st1 rc st'] by (auto split: if_split_asm)
next
  case (m_receive rsp rc rsp')
  then obtain r where "master_call (Device_call (\<lambda>_. r)) st = Inr (rc, st')"
    by (auto simp: Master_receiveResponse_def and_then_eq_Inr split: if_splits option.splits prod.splits)
  then show ?thesis using master_inv_same [OF assms(2)] master_call_ctx by blast
next
  case (m_bits w s f dest rc dest' w' m)
  then show ?thesis
    using Slave_request_touches [OF m_bits(3)]
    by (auto intro!: master_inv_same [OF assms(2)] simp: Master_device_def only_ctx_def)
next
  case (m_registers w s f dest rc dest' w' m)
  then show ?thesis
    using Slave_request_touches [OF m_registers(3)]
    by (auto intro!: master_inv_same [OF assms(2)] simp: Master_device_def only_ctx_def)
qed

lemma master_reach_inv:
  assumes "master_reach K L R M MM ks st"
  shows "master_inv K ks st"
  using assms
proof induction
  case (m_new i w)
  then show ?case
    by (simp add: master_inv_def Master_new_def Master_device_def Device_isValid_def Device_new_def dev_inv_def Device_isOpen_def)
qed (rule master_step_keeps)

section \<open>Properties\<close>

text \<open>C22. In every state that the interface of a master can produce, its inherited calls and the setters
  of its slaves included: with a layer the network is RTU or TCP, and \<open>slave (-1)\<close> gives a slave,
  which is slave 255 of a TCP master and the broadcast address of an RTU one, sends through the
  master's own device and is open exactly when the master is; every other slave has the number it
  is looked up by and the same device. A number holds as long as the program sets none, the device
  likewise. Without a layer, every access to a slave throws \<open>std::out_of_range\<close>.\<close>

theorem master_reachable_states:
  assumes "master_reach K L R M MM ks st" and "0 \<le> MODBUS_TCP_SLAVE K" and "0 \<le> MODBUS_BROADCAST_ADDRESS K"
    and "d = Master_device st"
  shows "if Device_isValid d
    then (\<exists>n s. Device_net d = Inr n \<and> n \<in> {Rtu, Tcp} \<and> Master_slave K st (-1) = Inr s \<and>
        (Set_number \<notin> ks \<longrightarrow> Slave_number s = (if n = Tcp then MODBUS_TCP_SLAVE K else MODBUS_BROADCAST_ADDRESS K)) \<and>
        (Set_device \<notin> ks \<longrightarrow> Slave_device s = Some (m_dev (snd st))) \<and>
        (Set_number \<notin> ks \<longrightarrow> Set_device \<notin> ks \<longrightarrow>
           Slave_isValid (fst st) s \<and> Slave_isOpen (fst st) s = Device_isOpen d)) \<and>
      (\<forall>a s. 0 \<le> a \<longrightarrow> Master_slave K st a = Inr s \<longrightarrow> (Set_number \<notin> ks \<longrightarrow> Slave_number s = a) \<and>
        (Set_device \<notin> ks \<longrightarrow> Slave_device s = Some (m_dev (snd st))))
    else \<forall>a. Master_slave K st a = Inl Out_of_range"
proof (cases "Device_isValid d")
  case True
  have i: "master_inv K ks st" by (rule master_reach_inv [OF assms(1)])
  let ?a = "Device_defaultSlave K d (-1)"
  obtain l where l: "dev_backend d = Some l" "nl_net l \<in> {Rtu, Tcp}"
    using i True assms(4) by (cases "dev_backend d") (auto simp: Device_isValid_def master_inv_def dev_inv_def intro: Net.exhaust)
  obtain s where s: "m_slaves (snd st) ?a = Some s" "mslave_ok ks (m_dev (snd st)) ?a s"
    using i True assms(4) by (auto simp: master_inv_def)
  have n: "Device_net d = Inr (nl_net l)" using True l by (simp add: Device_net_def Device_backend_def)
  have a: "?a = (if nl_net l = Tcp then MODBUS_TCP_SLAVE K else MODBUS_BROADCAST_ADDRESS K)" "0 \<le> ?a"
    using l assms(2,3) by (auto simp: Device_defaultSlave_def)
  have m: "Master_slave K st (-1) = Inr s" using s(1) assms(4) by (simp add: Master_slave_def map_at_def)
  have v: "Slave_isValid (fst st) s \<and> Slave_isOpen (fst st) s = Device_isOpen d"
    if "Set_number \<notin> ks" "Set_device \<notin> ks"
    using s(2) that True a(2) assms(4)
    by (simp add: mslave_ok_def Slave_isValid_def Slave_isOpen_def Slave_device_def Slave_number_def Master_device_def)
  have o: "(Set_number \<notin> ks \<longrightarrow> Slave_number s' = b) \<and> (Set_device \<notin> ks \<longrightarrow> Slave_device s' = Some (m_dev (snd st)))"
    if "0 \<le> b" "Master_slave K st b = Inr s'" for b s'
    using that i by (auto simp: Master_slave_def Device_defaultSlave_def map_at_def master_inv_def mslave_ok_def
        Slave_number_def Slave_device_def split: option.splits)
  show ?thesis
    using True l(2) n m s(2) a(1) v o by (auto simp: mslave_ok_def Slave_number_def Slave_device_def)
next
  case False
  then show ?thesis
    using master_reach_inv [OF assms(1)] assms(4) by (simp add: master_inv_def Master_slave_def map_at_def)
qed

definition sample_master_api :: "nat modbus_master" where
  "sample_master_api = \<lparr>modbus_set_error_recovery = (\<lambda>c _. (0, None, c)),
     modbus_send_raw_request = (\<lambda>c req n. (int n, None, c)),
     modbus_receive_confirmation = (\<lambda>c. ([5, 3, 2, 0, 7, 8, 9], 7, None, c)),
     MODBUS_ERROR_RECOVERY_LINK = 2, MODBUS_ERROR_RECOVERY_NONE = 0\<rparr>"

theorem master_reachable_states_witness:
  "\<exists>st s. Master_setBackend libmodbus_values sample_link sample_api sample_client
      (Master_new 0 sample_world) Tcp ''localhost'' ''1502'' = Inr (True, st) \<and>
    Master_slave libmodbus_values st (-1) = Inr s \<and> Slave_number s = 255 \<and> Slave_device s = Some 0 \<and> Slave_isValid (fst st) s \<and> \<not> Slave_isOpen (fst st) s"
proof -
  let ?K = libmodbus_values
  let ?w = "sample_world\<lparr>w_devices := (w_devices sample_world)
      (0 := sample_device 2\<lparr>dev_isOpen := False, dev_recoveryLink := False\<rparr>)\<rparr>"
  let ?st = "(?w, \<lparr>m_dev = 0, m_slaves = [255 \<mapsto> Slave_Private_at 255 (Some 0)]\<rparr>)"
  have st: "Master_setBackend ?K sample_link sample_api sample_client (Master_new 0 sample_world) Tcp
      ''localhost'' ''1502'' = Inr (True, ?st)"
    by (simp add: Master_setBackend_def Master_Private_setBackend_def Master_Private_addSlave_def Master_new_def
        Master_device_def master_call_def on_device_def Device_Private_setBackend_def TcpLayer_Private_def
        Device_call_def on_ctx_def Device_new_def Device_isValid_def Master_hasSlave_def
        sample_link_def sample_client_def sample_world_def libmodbus_values_def sample_device_def)
  then have "master_reach ?K sample_link sample_api sample_client sample_master_api {} ?st"
    by (blast intro: m_new m_step m_setBackend)
  note r = this
  have v: "Device_isValid (Master_device ?st)" "\<not> Device_isOpen (Master_device ?st)"
    and n: "Device_net (Master_device ?st) = Inr Tcp" and k: "0 \<le> MODBUS_TCP_SLAVE ?K" "0 \<le> MODBUS_BROADCAST_ADDRESS ?K"
    by (simp_all add: Master_device_def Device_isValid_def Device_isOpen_def sample_device_def Device_net_def
        Device_backend_def libmodbus_values_def)
  obtain s where "Master_slave ?K ?st (-1) = Inr s" "Slave_number s = MODBUS_TCP_SLAVE ?K" "Slave_device s = Some 0"
    "Slave_isValid (fst ?st) s" "\<not> Slave_isOpen (fst ?st) s"
    using master_reachable_states [OF r k refl] v n by auto
  then show ?thesis using st by (auto simp: libmodbus_values_def)
qed

end
