(* ===== verification/Message_New.thy ===== *)
theory Message_New
  imports Response_Model Device_Model
begin

text \<open>
  The constructors of \<open>Message\<close>, \<open>Request\<close> and \<open>Response\<close> on a layer, on a device and on a
  network alone. The three classes share \<open>Message::Private\<close>: an object is its record, and a
  constructor that only delegates has the value of the one it calls.
\<close>

section \<open>Message\<close>

definition Message_Private_layer :: "mb_consts \<Rightarrow> 'c netlayer \<Rightarrow> message res" where
  "Message_Private_layer K b =
     Message_Private K (nl_net b) (if nl_net b = Tcp then hdr_tcp K else hdr_rtu K) (nl_maxAduLength b) True"

definition Message_layer :: "mb_consts \<Rightarrow> 'c netlayer \<Rightarrow> message res" where
  "Message_layer K b = Message_Private_layer K b"

definition Message_layer_adu :: "mb_consts \<Rightarrow> 'c netlayer \<Rightarrow> u8 list \<Rightarrow> message res" where
  "Message_layer_adu K b bytes =
     and_then (Message_Private_layer K b) (\<lambda>m. Inr (Message_Private_adu m bytes))"

text \<open>\<open>std::vector<uint8_t> (adu, adu + len)\<close>.\<close>

definition Message_layer_bytes :: "mb_consts \<Rightarrow> 'c netlayer \<Rightarrow> u8 list \<Rightarrow> nat \<Rightarrow> message res" where
  "Message_layer_bytes K b mem len =
     and_then (vread mem 0 (int len)) (\<lambda>bytes. Message_layer_adu K b bytes)"

definition Message_layer_func :: "mb_consts \<Rightarrow> 'c netlayer \<Rightarrow> Function \<Rightarrow> message res" where
  "Message_layer_func K b f = and_then (Message_Private_layer K b) (\<lambda>m. Message_Private_func m f)"

definition Message_device :: "mb_consts \<Rightarrow> 'c device \<Rightarrow> message res" where
  "Message_device K d = and_then (Device_backend d) (Message_layer K)"

definition Message_device_adu :: "mb_consts \<Rightarrow> 'c device \<Rightarrow> u8 list \<Rightarrow> message res" where
  "Message_device_adu K d bytes = and_then (Device_backend d) (\<lambda>b. Message_layer_adu K b bytes)"

definition Message_device_bytes :: "mb_consts \<Rightarrow> 'c device \<Rightarrow> u8 list \<Rightarrow> nat \<Rightarrow> message res" where
  "Message_device_bytes K d mem len =
     and_then (vread mem 0 (int len)) (\<lambda>bytes. Message_device_adu K d bytes)"

definition Message_device_func :: "mb_consts \<Rightarrow> 'c device \<Rightarrow> Function \<Rightarrow> message res" where
  "Message_device_func K d f = and_then (Device_backend d) (\<lambda>b. Message_layer_func K b f)"

definition Message_net_adu :: "mb_consts \<Rightarrow> Net \<Rightarrow> u8 list \<Rightarrow> message res" where
  "Message_net_adu K n bytes =
     and_then (Message_Private_net K n) (\<lambda>m. Inr (Message_Private_adu m bytes))"

definition Message_net_bytes :: "mb_consts \<Rightarrow> Net \<Rightarrow> u8 list \<Rightarrow> nat \<Rightarrow> message res" where
  "Message_net_bytes K n mem len =
     and_then (vread mem 0 (int len)) (\<lambda>bytes. Message_net_adu K n bytes)"

definition Message_net_func :: "mb_consts \<Rightarrow> Net \<Rightarrow> Function \<Rightarrow> message res" where
  "Message_net_func K n f = and_then (Message_Private_net K n) (\<lambda>m. Message_Private_func m f)"

text \<open>The copy constructor and the assignment copy the record.\<close>

definition Message_copy :: "message \<Rightarrow> message" where
  "Message_copy other = other"

definition Message_assign :: "message \<Rightarrow> message \<Rightarrow> message" where
  "Message_assign m other = Message_copy other"

section \<open>Request\<close>

definition Request_layer :: "mb_consts \<Rightarrow> 'c netlayer \<Rightarrow> message res" where
  "Request_layer K b = Message_Private_layer K b"

definition Request_layer_adu :: "mb_consts \<Rightarrow> 'c netlayer \<Rightarrow> u8 list \<Rightarrow> message res" where
  "Request_layer_adu K b bytes = Message_layer_adu K b bytes"

definition Request_layer_func :: "mb_consts \<Rightarrow> 'c netlayer \<Rightarrow> Function \<Rightarrow> message res" where
  "Request_layer_func K b f = Message_layer_func K b f"

definition Request_device :: "mb_consts \<Rightarrow> 'c device \<Rightarrow> message res" where
  "Request_device K d = and_then (Device_backend d) (Request_layer K)"

definition Request_device_adu :: "mb_consts \<Rightarrow> 'c device \<Rightarrow> u8 list \<Rightarrow> message res" where
  "Request_device_adu K d bytes = and_then (Device_backend d) (\<lambda>b. Request_layer_adu K b bytes)"

definition Request_device_func :: "mb_consts \<Rightarrow> 'c device \<Rightarrow> Function \<Rightarrow> message res" where
  "Request_device_func K d f = and_then (Device_backend d) (\<lambda>b. Request_layer_func K b f)"

definition Request_net :: "mb_consts \<Rightarrow> Net \<Rightarrow> message res" where
  "Request_net K n = Message_Private_net K n"

definition Request_net_adu :: "mb_consts \<Rightarrow> Net \<Rightarrow> u8 list \<Rightarrow> message res" where
  "Request_net_adu K n bytes = Message_net_adu K n bytes"

definition Request_net_func :: "mb_consts \<Rightarrow> Net \<Rightarrow> Function \<Rightarrow> message res" where
  "Request_net_func K n f = Message_net_func K n f"

section \<open>Response\<close>

definition Response_layer :: "mb_consts \<Rightarrow> 'c netlayer \<Rightarrow> message res" where
  "Response_layer K b = Message_Private_layer K b"

definition Response_layer_adu :: "mb_consts \<Rightarrow> 'c netlayer \<Rightarrow> u8 list \<Rightarrow> message res" where
  "Response_layer_adu K b bytes = Message_layer_adu K b bytes"

definition Response_layer_func :: "mb_consts \<Rightarrow> 'c netlayer \<Rightarrow> Function \<Rightarrow> message res" where
  "Response_layer_func K b f = Message_layer_func K b f"

definition Response_device :: "mb_consts \<Rightarrow> 'c device \<Rightarrow> message res" where
  "Response_device K d = and_then (Device_backend d) (Response_layer K)"

definition Response_device_adu :: "mb_consts \<Rightarrow> 'c device \<Rightarrow> u8 list \<Rightarrow> message res" where
  "Response_device_adu K d bytes = and_then (Device_backend d) (\<lambda>b. Response_layer_adu K b bytes)"

definition Response_device_func :: "mb_consts \<Rightarrow> 'c device \<Rightarrow> Function \<Rightarrow> message res" where
  "Response_device_func K d f = and_then (Device_backend d) (\<lambda>b. Response_layer_func K b f)"

section \<open>Lemmas\<close>

text \<open>What a message of a layer is: a well-formed message of the network of the layer.\<close>

definition layer_ok :: "mb_consts \<Rightarrow> 'c netlayer \<Rightarrow> bool" where
  "layer_ok K b \<longleftrightarrow>
     (nl_net b = Rtu \<and> nl_maxAduLength b = MODBUS_RTU_MAX_ADU_LENGTH K) \<or>
     (nl_net b = Tcp \<and> nl_maxAduLength b = MODBUS_TCP_MAX_ADU_LENGTH K)"

lemma Message_Private_wf:
  assumes "1 \<le> hdr" and "hdr < unat maxlen" and "n = Tcp \<longrightarrow> 6 < unat maxlen"
  shows "\<exists>m. Message_Private K n hdr maxlen b = Inr m \<and> msg_wf m \<and> net m = n \<and> \<not> isResponse m \<and> aduSize m = 0"
  using assms
  by (auto simp: Message_Private_def Let_def vset_def msg_wf_def simp del: of_nat_unat)

lemma Message_Private_layer_wf:
  assumes "consts_ok K" and "layer_ok K b"
  shows "\<exists>m. Message_Private_layer K b = Inr m \<and> msg_wf m \<and> net m = nl_net b \<and>
    \<not> isResponse m \<and> aduSize m = 0"
  unfolding Message_Private_layer_def
  by (rule Message_Private_wf) (use assms in \<open>auto simp: consts_ok_def layer_ok_def\<close>)

lemma Message_Private_net_wf:
  assumes "consts_ok K" and "Message_Private_net K n = Inr m"
  shows "msg_wf m \<and> net m = n \<and> \<not> isResponse m \<and> aduSize m = 0"
  using assms Message_Private_wf [of "hdr_tcp K" "MODBUS_TCP_MAX_ADU_LENGTH K" Tcp K False]
    Message_Private_wf [of "hdr_rtu K" "MODBUS_RTU_MAX_ADU_LENGTH K" Rtu K False]
  by (auto simp: Message_Private_net_def consts_ok_def split: Net.splits)

lemma Response_layer_flag:
  "Response_layer K b = Inr m \<Longrightarrow> \<not> isResponse m"
  by (auto simp: Response_layer_def Message_Private_layer_def Message_Private_def Let_def and_then_eq_Inr
      split: if_splits)

lemma Message_func_wf:
  assumes "msg_wf m" and "Message_Private_func m f = Inr m'"
  shows "msg_wf m'"
  using assms by (auto simp: Message_Private_func_def and_then_eq_Inr msg_wf_def dest: vset_length)

lemma Message_setPdu_wf:
  assumes "msg_wf m" and "Message_setPdu m data len = Inr m'"
  shows "msg_wf m'"
proof -
  from assms(2) obtain d a where d: "vread data 0 (int len) = Inr d" and a: "vwrite (adu m) (pduBegin m) d = Inr a"
    and m': "m' = m\<lparr>adu := a, aduSize := nat (pduBegin m + int len)\<rparr>"
    by (auto simp: Message_setPdu_def Message_setSize_def and_then_eq_Inr)
  have "pduBegin m + int len \<le> int (length (adu m))"
    using a vread_length [OF d] by (auto simp: vwrite_def split: if_splits)
  then show ?thesis
    using assms(1) vwrite_length [OF a] by (simp add: m' msg_wf_def nat_le_iff del: of_nat_unat)
qed

lemma Message_clear_wf:
  assumes "msg_wf m" and "Message_clear K m = Inr m'"
  shows "msg_wf m'"
proof -
  let ?m = "m\<lparr>adu := vresize (adu m) (unat (maxAduLength m)), aduSize := 0\<rparr>"
  have "msg_wf ?m" using assms(1) by (simp add: msg_wf_def del: of_nat_unat)
  then show ?thesis
    using assms(2) setByte_wf by (auto simp: Message_clear_def Message_setSlaveId_def Let_def split: if_splits)
qed

section \<open>The messages that a program builds\<close>

text \<open>Construction on a layer or a network, then writes of the accessors. The flag tells whether the
  program has set the size itself since the message was made, cleared or given a PDU: \<open>setSize\<close> and
  \<open>setAduSize\<close> take any number. The constructors from an ADU are left out: they take the buffer as
  it is.\<close>

inductive msg_built :: "mb_consts \<Rightarrow> 'c netlayer \<Rightarrow> bool \<Rightarrow> message \<Rightarrow> bool" for K b where
  built_layer: "layer_ok K b \<Longrightarrow> Message_layer K b = Inr m \<Longrightarrow> msg_built K b False m"
| built_layer_func: "layer_ok K b \<Longrightarrow> Message_layer_func K b f = Inr m \<Longrightarrow> msg_built K b False m"
| built_net: "Message_Private_net K n = Inr m \<Longrightarrow> msg_built K b False m"
| built_net_func: "Message_net_func K n f = Inr m \<Longrightarrow> msg_built K b False m"
| built_setByte: "msg_built K b z m \<Longrightarrow> Message_setByte m i v = Inr m' \<Longrightarrow> msg_built K b z m'"
| built_setWord: "msg_built K b z m \<Longrightarrow> Message_setWord m i w = Inr m' \<Longrightarrow> msg_built K b z m'"
| built_setPdu: "msg_built K b z m \<Longrightarrow> Message_setPdu m data len = Inr m' \<Longrightarrow> msg_built K b False m'"
| built_setPdu_from: "msg_built K b z m \<Longrightarrow> Message_setPdu_from m src = Inr m' \<Longrightarrow> msg_built K b False m'"
| built_setSize: "msg_built K b z m \<Longrightarrow> msg_built K b True (Message_setSize m n)"
| built_setAduSize: "msg_built K b z m \<Longrightarrow> msg_built K b True (Message_setAduSize m n)"
| built_clear: "msg_built K b z m \<Longrightarrow> Message_clear K m = Inr m' \<Longrightarrow> msg_built K b False m'"
| built_flag: "msg_built K b z m \<Longrightarrow> msg_built K b z (Message_setResponseFlag m flag)"
| built_copy: "msg_built K b z m \<Longrightarrow> msg_built K b z (Message_copy m)"
| built_response: "msg_built K b z m \<Longrightarrow> msg_built K b z (Response_from m)"

text \<open>A message of its network: the lengths are those of the network.\<close>

definition net_msg :: "mb_consts \<Rightarrow> message \<Rightarrow> bool" where
  "net_msg K m \<longleftrightarrow>
     (net m = Rtu \<and> maxAduLength m = MODBUS_RTU_MAX_ADU_LENGTH K \<and> pduBegin m = int (hdr_rtu K) \<or>
      net m = Tcp \<and> maxAduLength m = MODBUS_TCP_MAX_ADU_LENGTH K \<and> pduBegin m = int (hdr_tcp K)) \<and>
     length (adu m) = unat (maxAduLength m)"

lemma net_msg_begin: "consts_ok K \<Longrightarrow> net_msg K m \<Longrightarrow> 1 \<le> pduBegin m \<and> pduBegin m < int (length (adu m))"
  by (auto simp: consts_ok_def net_msg_def simp del: of_nat_unat)

lemma net_msg_wf: "consts_ok K \<Longrightarrow> net_msg K m \<Longrightarrow> aduSize m \<le> length (adu m) \<Longrightarrow> msg_wf m"
  using net_msg_begin [of K m] by (simp add: msg_wf_def net_msg_def del: of_nat_unat)

lemma wf_size: "msg_wf m \<Longrightarrow> aduSize m \<le> length (adu m)"
  by (simp add: msg_wf_def)

lemma net_msg_same: "same_shape m m' \<Longrightarrow> net_msg K m \<Longrightarrow> net_msg K m'"
  by (auto simp: net_msg_def same_shape_def)

lemma net_msg_fields [simp]:
  "net_msg K (m\<lparr>aduSize := s\<rparr>) = net_msg K m" "net_msg K (m\<lparr>isResponse := f\<rparr>) = net_msg K m"
  by (simp_all add: net_msg_def)

lemma Message_Private_net_msg:
  "Message_Private_net K n = Inr m \<Longrightarrow> net_msg K m \<and> aduSize m = 0"
  by (auto simp: Message_Private_net_def Message_Private_def Let_def and_then_eq_Inr net_msg_def
      dest!: vset_length split: Net.splits)

lemma Message_Private_layer_msg:
  "layer_ok K b \<Longrightarrow> Message_Private_layer K b = Inr m \<Longrightarrow> net_msg K m \<and> aduSize m = 0"
  by (auto simp: Message_Private_layer_def Message_Private_def Let_def and_then_eq_Inr net_msg_def layer_ok_def
      dest!: vset_length)

lemma Message_func_msg:
  "Message_Private_func m f = Inr m' \<Longrightarrow> net_msg K m \<Longrightarrow> net_msg K m' \<and> aduSize m' = aduSize m"
  by (auto simp: Message_Private_func_def and_then_eq_Inr net_msg_def dest!: vset_length)

text \<open>A new PDU and \<open>clear\<close> do not look at the old size.\<close>

lemma setPdu_msg:
  assumes "consts_ok K" and "net_msg K m" and "Message_setPdu m data len = Inr m'"
  shows "net_msg K m' \<and> aduSize m' \<le> length (adu m')"
proof -
  have "Message_setPdu (m\<lparr>aduSize := 0\<rparr>) data len = Inr m'"
    using assms(3) by (simp add: Message_setPdu_def Message_setSize_def)
  moreover have "msg_wf (m\<lparr>aduSize := 0\<rparr>)" using assms(1,2) by (intro net_msg_wf) simp_all
  ultimately have "msg_wf m'" using Message_setPdu_wf by blast
  moreover have "net_msg K m'"
    using assms(2,3) by (auto simp: Message_setPdu_def Message_setSize_def and_then_eq_Inr net_msg_def dest!: vwrite_length)
  ultimately show ?thesis by (simp add: wf_size)
qed

lemma setPdu_from_setPdu:
  assumes "Message_setPdu_from m src = Inr m'"
  shows "\<exists>data. Message_setPdu m data (Message_size src) = Inr m'"
proof -
  obtain d a where d: "vread (adu src) (uint (Message_aduHeaderLength src)) (int (Message_size src)) = Inr d"
    and "vwrite (adu m) (pduBegin m) d = Inr a" and "m' = Message_setSize (m\<lparr>adu := a\<rparr>) (Message_size src)"
    using assms by (auto simp: Message_setPdu_from_def and_then_eq_Inr)
  moreover have "vread d 0 (int (Message_size src)) = Inr d"
    using vread_length [OF d] by (simp add: vread_in)
  ultimately have "Message_setPdu m d (Message_size src) = Inr m'" by (simp add: Message_setPdu_def)
  then show ?thesis by blast
qed

lemma clear_msg:
  assumes "consts_ok K" and "net_msg K m" and "Message_clear K m = Inr m'"
  shows "net_msg K m' \<and> aduSize m' \<le> length (adu m')"
proof -
  have "Message_clear K (m\<lparr>aduSize := 0\<rparr>) = Inr m'"
    using assms(3) by (simp add: Message_clear_def Let_def)
  moreover have "msg_wf (m\<lparr>aduSize := 0\<rparr>)" using assms(1,2) by (intro net_msg_wf) simp_all
  ultimately have "msg_wf m'" using Message_clear_wf by blast
  moreover have "net_msg K m'"
  proof -
    let ?m = "m\<lparr>adu := vresize (adu m) (unat (maxAduLength m)), aduSize := 0\<rparr>"
    have "net_msg K ?m" using assms(2) by (simp add: net_msg_def)
    moreover have "m' = ?m \<or> (\<exists>v. Message_setByte ?m (-1) v = Inr m')"
      using assms(3) by (auto simp: Message_clear_def Message_setSlaveId_def Let_def split: if_splits)
    ultimately show ?thesis using net_msg_same setByte_shape by blast
  qed
  ultimately show ?thesis by (simp add: wf_size)
qed

lemma msg_built_msg:
  assumes "msg_built K b z m" and "consts_ok K"
  shows "net_msg K m \<and> (\<not> z \<longrightarrow> aduSize m \<le> length (adu m))"
  using assms
proof induction
  case (built_layer m)
  then show ?case using Message_Private_layer_msg by (fastforce simp: Message_layer_def)
next
  case (built_layer_func f m)
  then show ?case
    using Message_Private_layer_msg Message_func_msg by (fastforce simp: Message_layer_func_def and_then_eq_Inr)
next
  case (built_net n m)
  then show ?case using Message_Private_net_msg by fastforce
next
  case (built_net_func n f m)
  then show ?case
    using Message_Private_net_msg Message_func_msg by (fastforce simp: Message_net_func_def and_then_eq_Inr)
next
  case (built_setByte z m i v m')
  have "\<not> z \<Longrightarrow> msg_wf m'" using built_setByte net_msg_wf setByte_wf by blast
  then show ?case using built_setByte net_msg_same setByte_shape wf_size by blast
next
  case (built_setWord z m i w m')
  have "\<not> z \<Longrightarrow> msg_wf m'" using built_setWord net_msg_wf setWord_wf by blast
  then show ?case using built_setWord net_msg_same setWord_shape wf_size by blast
next
  case (built_setPdu z m data len m')
  then show ?case using setPdu_msg by blast
next
  case (built_setPdu_from z m src m')
  then show ?case using setPdu_msg setPdu_from_setPdu by blast
next
  case (built_clear z m m')
  then show ?case using clear_msg by blast
qed (simp_all add: Message_setSize_def Message_setAduSize_def Message_setResponseFlag_def Message_copy_def Response_from_def)

section \<open>Properties\<close>

text \<open>C25. Every message that is built on a layer (with the sizes of its network) or on a network and
  then written with the accessors is a message of RTU or TCP: its buffer has the length of the
  largest ADU of that network and its PDU begins after that network's header, whatever the program
  sets, so that the address and the function code can be read; its size lies within the buffer
  unless the program has set it with \<open>setSize\<close> or \<open>setAduSize\<close>, which check nothing. A response built
  on a layer is not marked as a response. (The constructors from an ADU are not among them.)\<close>

theorem built_messages_well_formed:
  assumes "msg_built K b z m" and "consts_ok K"
  shows "net m \<in> {Rtu, Tcp} \<and>
    length (adu m) = unat (if net m = Tcp then MODBUS_TCP_MAX_ADU_LENGTH K else MODBUS_RTU_MAX_ADU_LENGTH K) \<and>
    pduBegin m = int (if net m = Tcp then hdr_tcp K else hdr_rtu K) \<and>
    (\<not> z \<longrightarrow> msg_wf m) \<and> (\<exists>i. Message_slave m = Inr i) \<and> (\<exists>f. Message_function m = Inr f) \<and>
    (\<forall>m'. Response_layer K b = Inr m' \<longrightarrow> \<not> isResponse m')"
proof -
  have n: "net_msg K m" and z: "\<not> z \<longrightarrow> aduSize m \<le> length (adu m)"
    using msg_built_msg [OF assms] by simp_all
  have "in_buf m (-1) 1" and "in_buf m 0 1"
    using net_msg_begin [OF assms(2) n] by (simp_all add: in_buf_def)
  then have "(\<exists>i. Message_slave m = Inr i) \<and> (\<exists>f. Message_function m = Inr f)"
    using byte_defined [of m "-1"] byte_defined [of m 0] by (fastforce simp: Message_slave_def Message_function_def)
  moreover have "net m \<in> {Rtu, Tcp} \<and>
    length (adu m) = unat (if net m = Tcp then MODBUS_TCP_MAX_ADU_LENGTH K else MODBUS_RTU_MAX_ADU_LENGTH K) \<and>
    pduBegin m = int (if net m = Tcp then hdr_tcp K else hdr_rtu K)"
    using n by (auto simp: net_msg_def)
  moreover have "\<not> z \<longrightarrow> msg_wf m" using z n net_msg_wf [OF assms(2)] by blast
  ultimately show ?thesis using Response_layer_flag by blast
qed

theorem built_messages_well_formed_witness:
  "\<exists>m m'. Message_net_func libmodbus_values Tcp ReadCoils = Inr m \<and> Message_setWord m 1 100 = Inr m' \<and> msg_wf m' \<and> length (adu m') = 260"
proof -
  obtain m where m: "Message_net_func libmodbus_values Tcp ReadCoils = Inr m" and b: "in_buf m 1 2"
    by (simp add: Message_net_func_def Message_Private_net_def Message_Private_def Let_def vresize_def
        libmodbus_values_def vset_def Message_Private_func_def in_buf_def)
  obtain m' where m': "Message_setWord m 1 100 = Inr m'" using b setWord_defined by blast
  have b: "msg_built libmodbus_values (the (dev_backend (sample_device 0))) False m'"
    using m m' built_net_func built_setWord by blast
  have "net m' = Tcp"
    using m setWord_shape [OF m']
    by (auto simp: Message_net_func_def Message_Private_net_def Message_Private_def Let_def and_then_eq_Inr
        Message_Private_func_def same_shape_def)
  then have "msg_wf m' \<and> length (adu m') = 260"
    using built_messages_well_formed [OF b consts_ok_values] by (simp add: libmodbus_values_def)
  then show ?thesis using m m' by blast
qed

end
