(* ===== verification/Server_Model.thy ===== *)
theory Server_Model
  imports BufferedSlave_Model Master_Model Message_New
begin

text \<open>
  The class \<open>Server\<close> of \<open>src/server.cpp\<close>: a device that receives requests, the map of its
  buffered slaves, the task that serves a request, and the two ways to run it: \<open>poll\<close>, with a
  thread that receives, and \<open>run\<close>, with a thread that receives and serves until it is told to
  stop. \<open>errno\<close> belongs to a thread: code that the program runs in another thread starts with
  its own.
\<close>

section \<open>The server calls of libmodbus\<close>

text \<open>\<open>accept\<close> stores the new socket through its second argument; \<open>receive\<close> returns the bytes
  that it stores at the start of its argument; \<open>reply\<close> works on the tables it is given.\<close>

record 'c modbus_server =
  modbus_rtu_set_recv_filter :: "'c \<Rightarrow> bool \<Rightarrow> 'c reply"
  modbus_tcp_pi_listen :: "'c \<Rightarrow> int \<Rightarrow> 'c reply"
  modbus_tcp_pi_accept :: "'c \<Rightarrow> int \<Rightarrow> int \<times> 'c reply"
  modbus_receive :: "'c \<Rightarrow> u8 list \<times> 'c reply"
  modbus_reply :: "'c \<Rightarrow> u8 list \<Rightarrow> int \<Rightarrow> mapping \<Rightarrow> mapping \<times> 'c reply"
  sys_close :: "'c \<Rightarrow> int \<Rightarrow> 'c reply"
  sys_shutdown :: "'c \<Rightarrow> int \<Rightarrow> 'c reply"
  MODBUSPP_HAVE_RTU_MULTI_SLAVES :: bool

section \<open>State\<close>

text \<open>The future of the receiving thread: not valid, not ready, ready.\<close>

datatype receiving = NoTask | Receiving | Received int

text \<open>\<open>stop_taken\<close> and \<open>stop_set\<close> are the state of the promise \<open>stopDaemon\<close>. \<open>daemon_errno\<close> is
  \<open>errno\<close> of the thread \<open>daemon\<close>. \<open>messageCB\<close> is a pointer that the constructor does not
  initialise: \<open>None\<close> is its indeterminate value, \<open>Some None\<close> the null pointer.\<close>

record server =
  srv_dev :: nat
  sock :: int
  req :: "message option"
  srv_slaves :: "int \<rightharpoonup> bslave"
  receiveTask :: receiving
  daemon :: bool
  daemon_errno :: errno
  stop_taken :: bool
  stop_set :: bool
  messageCB :: "nat option option"

type_synonym ('c, 'a) sstate = "'c world \<times> 'a server_scheme"

text \<open>What the callback of a number does. It may change the request, the tables, the devices.\<close>

type_synonym ('c, 'a) callbacks = "nat \<Rightarrow> ('c, 'a) sstate \<Rightarrow> (int \<times> ('c, 'a) sstate) res"

definition Server_Private :: "nat \<Rightarrow> server" where
  "Server_Private i = \<lparr>srv_dev = i, sock = -1, req = None, srv_slaves = Map.empty,
     receiveTask = NoTask, daemon = False, daemon_errno = ENOERR, stop_taken = False, stop_set = False,
     messageCB = None\<rparr>"

definition Server_new :: "nat \<Rightarrow> 'c world \<Rightarrow> 'c world \<times> server" where
  "Server_new i w = (w\<lparr>w_devices := (w_devices w)(i := Device_new)\<rparr>, Server_Private i)"

definition Server_device :: "('c, 'a) sstate \<Rightarrow> 'c device" where
  "Server_device st = w_devices (fst st) (srv_dev (snd st))"

definition server_call ::
    "('c dev_state \<Rightarrow> ('x \<times> 'c dev_state) res) \<Rightarrow> ('c, 'a) sstate \<Rightarrow> ('x \<times> ('c, 'a) sstate) res" where
  "server_call f st =
     and_then (on_device (srv_dev (snd st)) f (fst st)) (\<lambda>(x, w). Inr (x, w, snd st))"

text \<open>A call on the descriptor \<open>sock\<close>; the sockets are part of the context.\<close>

definition sock_call :: "('c \<Rightarrow> int \<Rightarrow> 'c reply) \<Rightarrow> ('c, 'a) sstate \<Rightarrow> ('c, 'a) sstate res" where
  "sock_call f st =
     (if Device_isValid (Server_device st)
      then and_then (server_call (Device_call (\<lambda>c. f c (sock (snd st)))) st) (\<lambda>(_, st'). Inr st')
      else Inr st)"

definition Server_isOpen :: "('c, 'a) sstate \<Rightarrow> bool" where
  "Server_isOpen st = Device_isOpen (Server_device st)"

definition Server_isRunning :: "('c, 'a) sstate \<Rightarrow> bool" where
  "Server_isRunning st = daemon (snd st)"

definition Server_setMessageCallback :: "('c, 'a) sstate \<Rightarrow> nat option \<Rightarrow> ('c, 'a) sstate" where
  "Server_setMessageCallback st cb = (fst st, (snd st)\<lparr>messageCB := Some cb\<rparr>)"

definition Server_messageCallback :: "('c, 'a) sstate \<Rightarrow> nat option res" where
  "Server_messageCallback st =
     (case messageCB (snd st) of None \<Rightarrow> Inl Undefined_behaviour | Some cb \<Rightarrow> Inr cb)"

definition Server_Private_setBackend ::
    "mb_consts \<Rightarrow> 'c modbus_link \<Rightarrow> 'c rtu_api \<Rightarrow> 'c modbus_server \<Rightarrow>
     ('c, 'a) sstate \<Rightarrow> Net \<Rightarrow> string \<Rightarrow> string \<Rightarrow> ('c, 'a) sstate res" where
  "Server_Private_setBackend K L R SV st n conn s =
     and_then (server_call (\<lambda>(e, d).
         and_then (Device_Private_setBackend K L R d n conn s) (\<lambda>d'. Inr ((), e, d'))) st) (\<lambda>(_, st1).
       if MODBUSPP_HAVE_RTU_MULTI_SLAVES SV \<and> n = Rtu
       then and_then (server_call (Device_call (\<lambda>c. modbus_rtu_set_recv_filter SV c False)) st1)
              (\<lambda>(_, st2). Inr st2)
       else Inr st1)"

definition Server_setBackend ::
    "mb_consts \<Rightarrow> 'c modbus_link \<Rightarrow> 'c rtu_api \<Rightarrow> 'c modbus_server \<Rightarrow>
     ('c, 'a) sstate \<Rightarrow> Net \<Rightarrow> string \<Rightarrow> string \<Rightarrow> (bool \<times> ('c, 'a) sstate) res" where
  "Server_setBackend K L R SV st n conn s =
     (if \<not> Device_isValid (Server_device st)
      then and_then (Server_Private_setBackend K L R SV st n conn s) (\<lambda>st1. Inr (True, st1))
      else Inr (False, st))"

definition Server_new_net ::
    "mb_consts \<Rightarrow> 'c modbus_link \<Rightarrow> 'c rtu_api \<Rightarrow> 'c modbus_server \<Rightarrow>
     nat \<Rightarrow> 'c world \<Rightarrow> Net \<Rightarrow> string \<Rightarrow> string \<Rightarrow> ('c, unit) sstate res" where
  "Server_new_net K L R SV i w n conn s = Server_Private_setBackend K L R SV (Server_new i w) n conn s"

section \<open>Slaves\<close>

definition Server_hasSlave :: "'a server_scheme \<Rightarrow> int \<Rightarrow> bool" where
  "Server_hasSlave v slaveAddr \<longleftrightarrow> srv_slaves v slaveAddr \<noteq> None"

definition Server_slave :: "mb_consts \<Rightarrow> ('c, 'a) sstate \<Rightarrow> int \<Rightarrow> bslave res" where
  "Server_slave K st slaveAddr =
     map_at (srv_slaves (snd st)) (Device_defaultSlave K (Server_device st) slaveAddr)"

definition Server_slavePtr :: "mb_consts \<Rightarrow> ('c, 'a) sstate \<Rightarrow> int \<Rightarrow> bslave option res" where
  "Server_slavePtr K st slaveAddr =
     (let i = Device_defaultSlave K (Server_device st) slaveAddr
      in if Server_hasSlave (snd st) i
         then and_then (map_at (srv_slaves (snd st)) i) (\<lambda>s. Inr (Some s)) else Inr None)"

definition Server_index :: "('c, 'a) sstate \<Rightarrow> int \<Rightarrow> bslave res" where
  "Server_index st slaveAddr = map_at (srv_slaves (snd st)) slaveAddr"

text \<open>\<open>modbus_mapping_new (0, 0, 0, 0)\<close> gives a new slave its empty tables.\<close>

definition Server_Private_addSlave ::
    "'c modbus_client \<Rightarrow> ('c, 'a) sstate \<Rightarrow> int \<Rightarrow> nat option \<Rightarrow> ('c, 'a) sstate res" where
  "Server_Private_addSlave M st slaveAddr master =
     and_then (server_call (Device_call (\<lambda>c. modbus_set_slave M c slaveAddr)) st) (\<lambda>(rc, w, v).
       if rc \<noteq> 0 then Inl Invalid_argument
       else Inr (w, v\<lparr>srv_slaves := (srv_slaves v)(slaveAddr \<mapsto>
              (case srv_slaves v slaveAddr of
                 Some s \<Rightarrow> Slave_setDevice s master
               | None \<Rightarrow> BufferedSlave_Private_at empty_mapping slaveAddr master))\<rparr>))"

definition Server_addSlave ::
    "'c modbus_client \<Rightarrow> ('c, 'a) sstate \<Rightarrow> int \<Rightarrow> nat option \<Rightarrow> ('c, 'a) sstate res" where
  "Server_addSlave M st slaveAddr master =
     (if Server_isOpen st then Inl Logic_error else Server_Private_addSlave M st slaveAddr master)"

text \<open>A call of the slave at the address \<open>a\<close>, which the caller holds a pointer to.\<close>

definition on_slave ::
    "int \<Rightarrow> ('c bstate \<Rightarrow> ('x \<times> 'c bstate) res) \<Rightarrow> ('c, 'a) sstate \<Rightarrow> ('x \<times> ('c, 'a) sstate) res" where
  "on_slave a f st =
     (case srv_slaves (snd st) a of
        None \<Rightarrow> Inl Undefined_behaviour
      | Some s \<Rightarrow> and_then (f (fst st, s)) (\<lambda>(x, w, s').
          Inr (x, w, (snd st)\<lparr>srv_slaves := (srv_slaves (snd st))(a \<mapsto> s')\<rparr>)))"

section \<open>Opening and closing\<close>

definition Server_Private_open ::
    "mb_consts \<Rightarrow> 'c modbus_link \<Rightarrow> 'c modbus_server \<Rightarrow> ('c, 'a) sstate \<Rightarrow> (bool \<times> ('c, 'a) sstate) res" where
  "Server_Private_open K L SV st =
     (case dev_backend (Server_device st) of
        None \<Rightarrow> Inl Undefined_behaviour
      | Some l \<Rightarrow>
          and_then
            (case nl_net l of
               Tcp \<Rightarrow> and_then (server_call (Device_call (\<lambda>c. modbus_tcp_pi_listen SV c 1)) st)
                        (\<lambda>(s, w, v). Inr (s \<noteq> -1, w, v\<lparr>sock := s\<rparr>))
             | Rtu \<Rightarrow> server_call (Device_Private_open L) st
             | NoNet \<Rightarrow> Inr (False, st))
            (\<lambda>(isOk, st1).
              if isOk \<and> req (snd st1) = None
              then and_then (Request_device K (Server_device st1)) (\<lambda>m.
                   Inr (isOk, fst st1, (snd st1)\<lparr>req := Some m\<rparr>))
              else Inr (isOk, st1)))"

definition Server_Private_close ::
    "'c modbus_link \<Rightarrow> 'c modbus_server \<Rightarrow> ('c, 'a) sstate \<Rightarrow> ('c, 'a) sstate res" where
  "Server_Private_close L SV st =
     (case dev_backend (Server_device st) of
        None \<Rightarrow> Inl Undefined_behaviour
      | Some l \<Rightarrow>
          and_then
            (if nl_net l = Tcp \<and> sock (snd st) \<noteq> -1
             then and_then (sock_call (sys_close SV) st) (\<lambda>(w, v). Inr (w, v\<lparr>sock := -1\<rparr>))
             else Inr st)
            (\<lambda>st1. and_then (server_call (\<lambda>s. unit_of (Device_Private_close L s)) st1)
                     (\<lambda>(_, st2). Inr st2)))"

text \<open>\<open>Device::open\<close> and \<open>Device::close\<close>, where \<open>d->open\<close> is the virtual function \<open>opn\<close>.\<close>

definition put_isOpen :: "bool \<Rightarrow> ('c, 'a) sstate \<Rightarrow> ('c, 'a) sstate" where
  "put_isOpen b st =
     ((fst st)\<lparr>w_devices := (w_devices (fst st))(srv_dev (snd st) := (Server_device st)\<lparr>dev_isOpen := b\<rparr>)\<rparr>,
      snd st)"

definition Server_open_by ::
    "(('c, 'a) sstate \<Rightarrow> (bool \<times> ('c, 'a) sstate) res) \<Rightarrow> ('c, 'a) sstate \<Rightarrow> (bool \<times> ('c, 'a) sstate) res" where
  "Server_open_by opn st =
     and_then
       (if Device_isValid (Server_device st) \<and> \<not> Server_isOpen st
        then and_then (opn st) (\<lambda>(isOk, st1). Inr (put_isOpen isOk st1))
        else Inr st)
       (\<lambda>st'. Inr (Server_isOpen st', st'))"

definition Server_open ::
    "mb_consts \<Rightarrow> 'c modbus_link \<Rightarrow> 'c modbus_server \<Rightarrow> ('c, 'a) sstate \<Rightarrow> (bool \<times> ('c, 'a) sstate) res" where
  "Server_open K L SV = Server_open_by (Server_Private_open K L SV)"

text \<open>Setting the promise a second time throws \<open>std::future_error\<close>; \<open>join\<close> waits for the end of
  the iteration that the thread is in.\<close>

definition Server_terminate :: "'c modbus_server \<Rightarrow> ('c, 'a) sstate \<Rightarrow> ('c, 'a) sstate res" where
  "Server_terminate SV st =
     and_then (if sock (snd st) \<noteq> -1 then sock_call (sys_shutdown SV) st else Inr st) (\<lambda>st1.
       if Server_isRunning st1
       then if stop_set (snd st1) then Inl Future_error
            else Inr (fst st1, (snd st1)\<lparr>stop_set := True, daemon := False\<rparr>)
       else Inr st1)"

definition Server_Device_close ::
    "'c modbus_link \<Rightarrow> 'c modbus_server \<Rightarrow> ('c, 'a) sstate \<Rightarrow> ('c, 'a) sstate res" where
  "Server_Device_close L SV st =
     (if Server_isOpen st
      then and_then (Server_Private_close L SV st) (\<lambda>st1. Inr (put_isOpen False st1))
      else Inr st)"

definition Server_close ::
    "'c modbus_link \<Rightarrow> 'c modbus_server \<Rightarrow> ('c, 'a) sstate \<Rightarrow> ('c, 'a) sstate res" where
  "Server_close L SV st =
     (if Server_isOpen st
      then and_then (Server_terminate SV st) (Server_Device_close L SV)
      else Inr st)"

definition Server_run :: "('c, 'a) sstate \<Rightarrow> (bool \<times> ('c, 'a) sstate) res" where
  "Server_run st =
     and_then
       (if \<not> Server_isRunning st \<and> Server_isOpen st
        then if stop_taken (snd st) then Inl Future_error
             else Inr (fst st, (snd st)\<lparr>stop_taken := True, daemon := True, daemon_errno := ENOERR\<rparr>)
        else Inr st)
       (\<lambda>st'. Inr (Server_isRunning st', st'))"

section \<open>Receiving\<close>

definition Server_receive ::
    "mb_consts \<Rightarrow> 'c modbus_link \<Rightarrow> 'c modbus_server \<Rightarrow> ('c, 'a) sstate \<Rightarrow> (int \<times> ('c, 'a) sstate) res" where
  "Server_receive K L SV st =
     (case dev_backend (Server_device st) of
        None \<Rightarrow> Inl Undefined_behaviour
      | Some l \<Rightarrow>
          and_then (Device_Private_isConnected L (Server_device st)) (\<lambda>connected.
          and_then
            (if nl_net l = Tcp \<and> \<not> connected
             then (case modbus_tcp_pi_accept SV (ctx l) (sock (snd st)) of (s, r) \<Rightarrow>
                    and_then (server_call (Device_call (\<lambda>_. r)) st) (\<lambda>(rc, w, v).
                    Inr (rc \<ge> 0, w, v\<lparr>sock := s\<rparr>)))
             else Inr (True, st))
            (\<lambda>(go_on, st1).
              if \<not> go_on then Inr (-1, st1)
              else case (req (snd st1), dev_backend (Server_device st1)) of
                (Some m, Some l1) \<Rightarrow>
                  and_then (Message_clear K m) (\<lambda>m1.
                  case modbus_receive SV (ctx l1) of (out, r) \<Rightarrow>
                    and_then (vwrite (adu m1) 0 out) (\<lambda>a.
                    and_then (server_call (Device_call (\<lambda>_. r)) st1) (\<lambda>(rc, w, v).
                    let m2 = m1\<lparr>adu := a\<rparr>
                    in Inr (rc, w, v\<lparr>req := Some (if rc > 0 then Message_setAduSize m2 (nat rc) else m2)\<rparr>))))
              | _ \<Rightarrow> Inl Undefined_behaviour)))"

section \<open>Serving a request\<close>

text \<open>A callback that is a null pointer is not called; the others return 0 to go on.\<close>

definition run_callback :: "('c, 'a) callbacks \<Rightarrow> nat option \<Rightarrow> ('c, 'a) sstate \<Rightarrow> (int \<times> ('c, 'a) sstate) res" where
  "run_callback cb k st = (case k of None \<Rightarrow> Inr (0, st) | Some n \<Rightarrow> cb n st)"

text \<open>\<open>modbus_reply\<close> on the request, its length \<open>rc\<close> and the tables of the slave \<open>sid\<close>.\<close>

definition Server_reply ::
    "'c modbus_server \<Rightarrow> int \<Rightarrow> int \<Rightarrow> ('c, 'a) sstate \<Rightarrow> (int \<times> ('c, 'a) sstate) res" where
  "Server_reply SV sid rc st =
     (case (req (snd st), srv_slaves (snd st) sid, dev_backend (Server_device st)) of
        (Some m, Some s, Some l) \<Rightarrow>
          (case modbus_reply SV (ctx l) (adu m) rc (bmap s) of (map', r) \<Rightarrow>
             and_then (server_call (Device_call (\<lambda>_. r)) st) (\<lambda>(rc', w, v).
             Inr (rc', w, v\<lparr>srv_slaves := (srv_slaves v)(sid \<mapsto> s\<lparr>bmap := map'\<rparr>)\<rparr>)))
      | _ \<Rightarrow> Inl Undefined_behaviour)"

text \<open>After the reply: the callback, then the registers that the request wrote go to the device.\<close>

definition Server_after_reply ::
    "'c modbus_client \<Rightarrow> ('c, 'a) callbacks \<Rightarrow> int \<Rightarrow> ('c, 'a) sstate \<Rightarrow> (int \<times> ('c, 'a) sstate) res" where
  "Server_after_reply M cb sid st =
     (case srv_slaves (snd st) sid of
        None \<Rightarrow> Inl Undefined_behaviour
      | Some s \<Rightarrow>
          and_then (run_callback cb (afterReplyCB s) st) (\<lambda>(ret, st1).
            if ret \<noteq> 0 then Inr (ret, st1)
            else and_then (on_slave sid (\<lambda>b. BufferedSlave_writeToDevice M b (req (snd st1))) st1)
                   (\<lambda>(_, st2). Inr (0, st2))))"

definition Server_serve ::
    "mb_consts \<Rightarrow> 'c modbus_client \<Rightarrow> 'c modbus_server \<Rightarrow> ('c, 'a) callbacks \<Rightarrow> int \<Rightarrow> int \<Rightarrow>
     ('c, 'a) sstate \<Rightarrow> (int \<times> ('c, 'a) sstate) res" where
  "Server_serve K M SV cb sid rc st =
     and_then (server_call (Device_call (\<lambda>c. modbus_set_slave M c sid)) st) (\<lambda>(r, st1).
       if r \<noteq> 0 then Inr (0, st1)
       else and_then (on_slave sid (\<lambda>b. BufferedSlave_readFromDevice K M b (req (snd st1))) st1) (\<lambda>(ret, st2).
         if ret < 0 then Inr (0, st2)
         else case srv_slaves (snd st2) sid of
           None \<Rightarrow> Inl Undefined_behaviour
         | Some s \<Rightarrow>
             and_then (run_callback cb (beforeReplyCB s) st2) (\<lambda>(ret, st3).
               if ret \<noteq> 0 then Inr (ret, st3)
               else and_then (Server_reply SV sid rc st3) (\<lambda>(rc', st4).
                 if rc' < 0 then Inr (0, st4) else Server_after_reply M cb sid st4))))"

text \<open>The recovery of the link, with the virtual function \<open>opn\<close>.\<close>

definition Server_recover ::
    "'c modbus_link \<Rightarrow> 'c modbus_server \<Rightarrow> (('c, 'a) sstate \<Rightarrow> (bool \<times> ('c, 'a) sstate) res) \<Rightarrow>
     ('c, 'a) sstate \<Rightarrow> (int \<times> ('c, 'a) sstate) res" where
  "Server_recover L SV opn st =
     and_then (Server_Private_close L SV st) (\<lambda>st1.
     and_then (opn st1) (\<lambda>(isOk, st2).
       if isOk then Inr (0, (fst st2)\<lparr>w_errno := ENOERR\<rparr>, snd st2) else Inl Runtime_error))"

text \<open>The inherited \<open>sendRawMessage\<close>: its recovery calls the virtual functions \<open>close\<close> and \<open>open\<close> of the
  private part, those of the server; what \<open>open\<close> answers is not looked at.\<close>

definition Server_sendRecover ::
    "'c modbus_link \<Rightarrow> 'c modbus_server \<Rightarrow> (('c, 'a) sstate \<Rightarrow> (bool \<times> ('c, 'a) sstate) res) \<Rightarrow>
     ('c, 'a) sstate \<Rightarrow> ('c, 'a) sstate res" where
  "Server_sendRecover L SV opn st =
     (let saved_errno = w_errno (fst st)
      in and_then (server_call (\<lambda>s. and_then (Device_responseTimeout L s) (\<lambda>(_, _, s'). Inr ((), s'))) st) (\<lambda>(_, st1).
         and_then
           (if w_errno (fst st1) = EBADF \<or> w_errno (fst st1) = ECONNRESET \<or> w_errno (fst st1) = EPIPE
            then and_then (Server_Private_close L SV st1) (\<lambda>st2.
                 and_then (opn st2) (\<lambda>(_, st3). Inr st3))
            else and_then (server_call (Device_flush L) st1) (\<lambda>(_, st2). Inr st2))
           (\<lambda>(w, v). Inr (w\<lparr>w_errno := saved_errno\<rparr>, v))))"

fun Server_sendLoop ::
    "nat \<Rightarrow> 'c modbus_link \<Rightarrow> 'c rtu_api \<Rightarrow> 'c modbus_server \<Rightarrow> (('c, 'a) sstate \<Rightarrow> (bool \<times> ('c, 'a) sstate) res) \<Rightarrow>
     ('c, 'a) sstate \<Rightarrow> message \<Rightarrow> (int \<times> ('c, 'a) sstate) res option" where
  "Server_sendLoop 0 L R SV opn st msg = None"
| "Server_sendLoop (Suc fuel) L R SV opn st msg =
     (case server_call (\<lambda>s. Device_sendOnce L R s msg) st of
        Inl x \<Rightarrow> Some (Inl x)
      | Inr (rc, st1) \<Rightarrow>
          if rc = -1 \<and> Device_recoveryLink (Server_device st1) \<and> \<not> isResponse msg
          then (case Server_sendRecover L SV opn st1 of
                  Inl x \<Rightarrow> Some (Inl x)
                | Inr st2 \<Rightarrow> Server_sendLoop fuel L R SV opn st2 msg)
          else Some (Inr (rc, st1)))"

definition Server_sendRawMessage ::
    "nat \<Rightarrow> 'c modbus_link \<Rightarrow> 'c rtu_api \<Rightarrow> 'c modbus_server \<Rightarrow> (('c, 'a) sstate \<Rightarrow> (bool \<times> ('c, 'a) sstate) res) \<Rightarrow>
     ('c, 'a) sstate \<Rightarrow> message \<Rightarrow> bool \<Rightarrow> (int \<times> ('c, 'a) sstate \<times> message) res option" where
  "Server_sendRawMessage fuel L R SV opn st msg prepareBefore =
     (if \<not> Device_isValid (Server_device st) then Some (Inl Runtime_error)
      else case server_call (\<lambda>s. and_then (Device_prepare s msg prepareBefore)
               (\<lambda>(ok, s', msg'). Inr ((ok, msg'), s'))) st of
          Inl x \<Rightarrow> Some (Inl x)
        | Inr ((ok, msg1), st1) \<Rightarrow>
            if \<not> ok then Some (Inr (-1, ((fst st1)\<lparr>w_errno := EINVAL\<rparr>, snd st1), msg1))
            else (case Server_sendLoop fuel L R SV opn st1 msg1 of
                    None \<Rightarrow> None
                  | Some (Inl x) \<Rightarrow> Some (Inl x)
                  | Some (Inr (rc, st2)) \<Rightarrow>
                      if rc > 0 \<and> rc \<noteq> int (Message_size msg1)
                      then Some (Inr (-1, ((fst st2)\<lparr>w_errno := EMBBADDATA\<rparr>, snd st2), msg1))
                      else Some (Inr (rc, st2, msg1))))"

definition Server_task ::
    "mb_consts \<Rightarrow> 'c modbus_link \<Rightarrow> 'c modbus_client \<Rightarrow> 'c modbus_server \<Rightarrow> ('c, 'a) callbacks \<Rightarrow>
     (('c, 'a) sstate \<Rightarrow> (bool \<times> ('c, 'a) sstate) res) \<Rightarrow> int \<Rightarrow> ('c, 'a) sstate \<Rightarrow> (int \<times> ('c, 'a) sstate) res" where
  "Server_task K L M SV cb opn rc st =
     (if rc = -1 \<and> w_errno (fst st) \<noteq> EMBBADCRC
      then if Device_recoveryLink (Server_device st) then Server_recover L SV opn st else Inr (rc, st)
      else if rc > 0
      then case req (snd st) of
             None \<Rightarrow> Inl Undefined_behaviour
           | Some m \<Rightarrow> and_then (Message_slave m) (\<lambda>b.
               if Server_hasSlave (snd st) (uint b) then Server_serve K M SV cb (uint b) rc st
               else and_then (Server_messageCallback st) (\<lambda>k.
                      case k of None \<Rightarrow> Inr (rc, st) | Some n \<Rightarrow> cb n st))
      else Inr (rc, st))"

section \<open>Running\<close>

text \<open>\<open>f\<close> in a thread that has \<open>e\<close> in its \<open>errno\<close>; the result has what it leaves there.\<close>

definition in_thread ::
    "errno \<Rightarrow> (('c, 'a) sstate \<Rightarrow> ('x \<times> ('c, 'a) sstate) res) \<Rightarrow> ('c, 'a) sstate \<Rightarrow>
     ('x \<times> errno \<times> ('c, 'a) sstate) res" where
  "in_thread e f st =
     and_then (f ((fst st)\<lparr>w_errno := e\<rparr>, snd st)) (\<lambda>(x, w, v).
       Inr (x, w_errno w, w\<lparr>w_errno := w_errno (fst st)\<rparr>, v))"

text \<open>The thread of \<open>std::async\<close> is a new one: it ends with the result of \<open>receive\<close>.\<close>

definition Server_receive_async ::
    "mb_consts \<Rightarrow> 'c modbus_link \<Rightarrow> 'c modbus_server \<Rightarrow> ('c, 'a) sstate \<Rightarrow> ('c, 'a) sstate res" where
  "Server_receive_async K L SV st =
     and_then (in_thread ENOERR (Server_receive K L SV) st) (\<lambda>(rc, _, w, v).
       Inr (w, v\<lparr>receiveTask := Received rc\<rparr>))"

text \<open>\<open>in_time\<close> tells whether a thread that is still receiving ends before the timeout.\<close>

definition Server_poll ::
    "mb_consts \<Rightarrow> 'c modbus_link \<Rightarrow> 'c modbus_client \<Rightarrow> 'c modbus_server \<Rightarrow> ('c, 'a) callbacks \<Rightarrow>
     (('c, 'a) sstate \<Rightarrow> (bool \<times> ('c, 'a) sstate) res) \<Rightarrow> bool \<Rightarrow> ('c, 'a) sstate \<Rightarrow> (int \<times> ('c, 'a) sstate) res" where
  "Server_poll K L M SV cb opn in_time st =
     (if \<not> Server_isRunning st \<and> Server_isOpen st
      then let v = snd st;
               st1 = (fst st, if receiveTask v = NoTask then v\<lparr>receiveTask := Receiving\<rparr> else v)
           in and_then (if receiveTask (snd st1) = Receiving \<and> in_time then Server_receive_async K L SV st1
                        else Inr st1) (\<lambda>st2.
                case receiveTask (snd st2) of
                  Received rc \<Rightarrow> Server_task K L M SV cb opn rc (fst st2, (snd st2)\<lparr>receiveTask := NoTask\<rparr>)
                | _ \<Rightarrow> Inr (0, st2))
      else Inr (-1, st))"

text \<open>An iteration of \<open>loop\<close>, in the thread \<open>daemon\<close>; the thread ends when the promise is set.\<close>

definition Server_iteration ::
    "mb_consts \<Rightarrow> 'c modbus_link \<Rightarrow> 'c modbus_client \<Rightarrow> 'c modbus_server \<Rightarrow> ('c, 'a) callbacks \<Rightarrow>
     (('c, 'a) sstate \<Rightarrow> (bool \<times> ('c, 'a) sstate) res) \<Rightarrow> ('c, 'a) sstate \<Rightarrow> (int \<times> ('c, 'a) sstate) res" where
  "Server_iteration K L M SV cb opn st =
     and_then (Server_receive K L SV st) (\<lambda>(rc, st1). Server_task K L M SV cb opn rc st1)"

definition Server_loop_step ::
    "mb_consts \<Rightarrow> 'c modbus_link \<Rightarrow> 'c modbus_client \<Rightarrow> 'c modbus_server \<Rightarrow> ('c, 'a) callbacks \<Rightarrow>
     (('c, 'a) sstate \<Rightarrow> (bool \<times> ('c, 'a) sstate) res) \<Rightarrow> ('c, 'a) sstate \<Rightarrow> ('c, 'a) sstate res" where
  "Server_loop_step K L M SV cb opn st =
     (if daemon (snd st) \<and> \<not> stop_set (snd st)
      then and_then (in_thread (daemon_errno (snd st)) (Server_iteration K L M SV cb opn) st)
             (\<lambda>(_, e, w, v). Inr (w, v\<lparr>daemon_errno := e\<rparr>))
      else Inr st)"

end
