(* ===== verification/BufferedSlave_Tables.thy ===== *)
theory BufferedSlave_Tables
  imports BufferedSlave_Model
begin

text \<open>
  The tables of a \<open>BufferedSlave\<close>: the lemmas about one block, the interfaces of a table that
  is read, of one that is written through and of the templates on several registers, proved once
  in their locales and interpreted on the four tables of the image.
\<close>

section \<open>Lemmas: blocks\<close>

text \<open>the image of a table is as long as its block says.\<close>

definition block_ok :: "'v block \<Rightarrow> bool" where
  "block_ok b \<longleftrightarrow> (case blk_tab b of None \<Rightarrow> blk_nb b = 0 | Some xs \<Rightarrow> blk_nb b = int (length xs))"

definition map_ok :: "mapping \<Rightarrow> bool" where
  "map_ok m \<longleftrightarrow> block_ok (map_bits m) \<and> block_ok (map_input_bits m) \<and>
     block_ok (map_registers m) \<and> block_ok (map_input_registers m)"

text \<open>A weaker property, that a failed \<open>setBlock\<close> leaves too: a table without memory may have any
  size.\<close>

definition block_safe :: "'v block \<Rightarrow> bool" where
  "block_safe b \<longleftrightarrow> (case blk_tab b of None \<Rightarrow> True | Some xs \<Rightarrow> blk_nb b = int (length xs))"

definition map_safe :: "mapping \<Rightarrow> bool" where
  "map_safe m \<longleftrightarrow> block_safe (map_bits m) \<and> block_safe (map_input_bits m) \<and>
     block_safe (map_registers m) \<and> block_safe (map_input_registers m)"

lemma block_safe_iff: "block_safe b \<longleftrightarrow> blk_tab b = None \<or> block_ok b"
  by (auto simp: block_safe_def block_ok_def split: option.splits)

lemma map_ok_safe: "map_ok m \<Longrightarrow> map_safe m"
  by (simp add: map_ok_def map_safe_def block_safe_iff)

lemma block_ok_mem: "block_ok b \<Longrightarrow> blk_nb b = int (length (blk_mem b))"
  by (auto simp: block_ok_def blk_mem_def split: option.splits)

lemma in_block_tab: "block_ok b \<Longrightarrow> in_block b a \<Longrightarrow> blk_tab b = Some (blk_mem b)"
  by (auto simp: block_ok_def blk_mem_def in_block_def split: option.splits)

lemma block_ok_put:
  "block_ok b \<Longrightarrow> in_block b a \<Longrightarrow> length xs = length (blk_mem b) \<Longrightarrow>
   block_ok (b\<lparr>blk_tab := map_option (\<lambda>_. xs) (blk_tab b)\<rparr>) \<and>
   blk_mem (b\<lparr>blk_tab := map_option (\<lambda>_. xs) (blk_tab b)\<rparr>) = xs"
  by (auto simp: block_ok_def blk_mem_def in_block_def split: option.splits)

text \<open>The part of a block that a request for \<open>nb\<close> elements at the address \<open>a\<close> reaches.\<close>

definition clipped :: "'v block \<Rightarrow> int \<Rightarrow> int \<Rightarrow> int" where
  "clipped b a nb = min nb (blk_nb b - (a - blk_start b))"

lemma clipped_bounds:
  "block_ok b \<Longrightarrow> in_block b a \<Longrightarrow> 0 \<le> nb \<Longrightarrow>
   0 \<le> clipped b a nb \<and> 0 \<le> a - blk_start b \<and>
   a - blk_start b + clipped b a nb \<le> int (length (blk_mem b)) \<and> clipped b a nb \<le> nb"
  by (auto simp: clipped_def in_block_def block_ok_mem)

lemma clipped_all: "blk_start b \<le> a \<Longrightarrow> a + nb \<le> blk_start b + blk_nb b \<Longrightarrow> clipped b a nb = nb"
  by (simp add: clipped_def)

definition block_at :: "'v block \<Rightarrow> int \<Rightarrow> int \<Rightarrow> 'v list" where
  "block_at b a n = take (nat n) (drop (nat (a - blk_start b)) (blk_mem b))"

lemma store_block_ok:
  assumes "block_ok b" and "in_block b a" and "0 \<le> nb" and "clipped b a nb \<le> int (length src)"
  shows "\<exists>b'. store_block b (a - blk_start b) src (clipped b a nb) = Inr b' \<and> block_ok b' \<and>
    blk_start b' = blk_start b \<and> blk_nb b' = blk_nb b \<and>
    blk_mem b' = take (nat (a - blk_start b)) (blk_mem b) @ take (nat (clipped b a nb)) src @
      drop (nat (a - blk_start b) + nat (clipped b a nb)) (blk_mem b)"
proof -
  note bd = clipped_bounds [OF assms(1-3)]
  let ?o = "nat (a - blk_start b)" and ?n = "nat (clipped b a nb)"
  have len: "?o + ?n \<le> length (blk_mem b)" "?n \<le> length src" using bd assms(4) by linarith+
  let ?mem = "take ?o (blk_mem b) @ take ?n src @ drop (?o + ?n) (blk_mem b)"
  have "vread src 0 (clipped b a nb) = Inr (take ?n src)"
    using bd assms(4) by (simp add: vread_in)
  moreover have "vwrite (blk_mem b) (a - blk_start b) (take ?n src) = Inr ?mem"
    using bd len by (simp add: vwrite_in min_def)
  moreover have "length ?mem = length (blk_mem b)" using len by simp
  ultimately show ?thesis
    using block_ok_put [OF assms(1,2), of ?mem] by (auto simp: store_block_def)
qed

lemma take_drop_middle:
  "m \<le> length xs \<Longrightarrow> n \<le> length ys \<Longrightarrow> take n (drop m (take m xs @ take n ys @ zs)) = take n ys"
  by (simp add: min_absorb1 min_absorb2)

lemma vread_after:
  "m \<le> length xs \<Longrightarrow> 0 \<le> n \<Longrightarrow> n \<le> int (length ys) \<Longrightarrow>
   vread (take m xs @ ys) (int m) n = Inr (take (nat n) ys)"
  by (simp add: vread_in min_absorb2)

section \<open>The interface of a table\<close>

text \<open>\<open>get\<close> and \<open>put\<close> choose one block of the mapping; \<open>rest\<close> is what the others hold.\<close>

locale table_image =
  fixes get :: "mapping \<Rightarrow> 'v block" and put :: "'v block \<Rightarrow> mapping \<Rightarrow> mapping" and rest :: "mapping \<Rightarrow> 'r"
  assumes get_put: "get (put b m) = b"
    and rest_put: "rest (put b m) = rest m"
    and map_ok_get: "map_ok m \<Longrightarrow> block_ok (get m)"
    and map_ok_put: "map_ok m \<Longrightarrow> block_ok b \<Longrightarrow> map_ok (put b m)"
    and map_safe_get: "map_safe m \<Longrightarrow> block_safe (get m)"
    and map_safe_put: "map_safe m \<Longrightarrow> block_safe b \<Longrightarrow> map_safe (put b m)"
begin

lemma image_write_outside:
  "\<not> in_block (get (bmap s)) (Slave_pduAddress s addr) \<Longrightarrow>
   image_write get put (w, s) addr src nb = Inr (-1, w\<lparr>w_errno := EINVAL\<rparr>, s)"
  by (simp add: image_write_def Let_def bfail_def)

lemma image_write_ok:
  assumes "map_ok (bmap s)" and "in_block (get (bmap s)) (Slave_pduAddress s addr)" and "0 \<le> nb"
    and "nb \<le> int (length src)"
  shows "\<exists>m'. image_write get put (w, s) addr src nb
      = Inr (clipped (get (bmap s)) (Slave_pduAddress s addr) nb, w, s\<lparr>bmap := m'\<rparr>) \<and>
    map_ok m' \<and> rest m' = rest (bmap s) \<and>
    blk_start (get m') = blk_start (get (bmap s)) \<and> blk_nb (get m') = blk_nb (get (bmap s)) \<and>
    block_at (get m') (Slave_pduAddress s addr) (clipped (get (bmap s)) (Slave_pduAddress s addr) nb)
      = take (nat (clipped (get (bmap s)) (Slave_pduAddress s addr) nb)) src"
proof -
  let ?b = "get (bmap s)" and ?a = "Slave_pduAddress s addr"
  have ok: "block_ok ?b" using assms(1) by (rule map_ok_get)
  note bd = clipped_bounds [OF ok assms(2,3)]
  obtain b' where b': "store_block ?b (?a - blk_start ?b) src (clipped ?b ?a nb) = Inr b'" "block_ok b'"
    "blk_start b' = blk_start ?b" "blk_nb b' = blk_nb ?b"
    "blk_mem b' = take (nat (?a - blk_start ?b)) (blk_mem ?b) @ take (nat (clipped ?b ?a nb)) src @
      drop (nat (?a - blk_start ?b) + nat (clipped ?b ?a nb)) (blk_mem ?b)"
    using store_block_ok [OF ok assms(2,3), of src] bd assms(4) by auto
  have "block_at b' ?a (clipped ?b ?a nb) = take (nat (clipped ?b ?a nb)) src"
    unfolding block_at_def b'(3,5) by (rule take_drop_middle) (use bd assms(4) in linarith)+
  then show ?thesis
    using b' assms(1,2) map_ok_put [OF assms(1) b'(2)]
    by (auto simp: image_write_def Let_def get_put rest_put clipped_def [symmetric])
qed

end

text \<open>A table with the read of the class \<open>Slave\<close>.\<close>

locale read_table = table_image get put rest
  for get :: "mapping \<Rightarrow> 'v block" and put :: "'v block \<Rightarrow> mapping \<Rightarrow> mapping" and rest :: "mapping \<Rightarrow> 'r" +
  fixes rd :: "'c world \<Rightarrow> bslave \<Rightarrow> int \<Rightarrow> 'v list \<Rightarrow> int \<Rightarrow> (int \<times> 'v list \<times> 'c world) res"
  assumes rd_touches: "rd w s addr dest nb = Inr (rc, dest', w') \<Longrightarrow>
    length dest' = length dest \<and> only_ctx (slave_dev s) w w'"
begin

lemma read_outside:
  "\<not> in_block (get (bmap s)) (Slave_pduAddress s addr) \<Longrightarrow>
   buffered_read rd get put (w, s) addr dest nb = Inr (-1, dest, w\<lparr>w_errno := EINVAL\<rparr>, s)"
  by (simp add: buffered_read_def Let_def bfail_def)

lemma read_offline:
  assumes "map_ok (bmap s)" and "in_block (get (bmap s)) (Slave_pduAddress s addr)" and "0 \<le> nb"
    and "nb \<le> int (length dest)" and "\<not> Slave_isOpen w s"
  shows "buffered_read rd get put (w, s) addr dest nb =
    (let n = clipped (get (bmap s)) (Slave_pduAddress s addr) nb
     in Inr (n, block_at (get (bmap s)) (Slave_pduAddress s addr) n @ drop (nat n) dest, w, s))"
proof -
  let ?b = "get (bmap s)" and ?a = "Slave_pduAddress s addr"
  note bd = clipped_bounds [OF map_ok_get [OF assms(1)] assms(2,3)]
  have r: "vread (blk_mem ?b) (?a - blk_start ?b) (clipped ?b ?a nb) = Inr (block_at ?b ?a (clipped ?b ?a nb))"
    using bd by (simp add: vread_in block_at_def)
  have "length (block_at ?b ?a (clipped ?b ?a nb)) = nat (clipped ?b ?a nb)"
    using vread_length [OF r] by linarith
  then have "vwrite dest 0 (block_at ?b ?a (clipped ?b ?a nb))
      = Inr (block_at ?b ?a (clipped ?b ?a nb) @ drop (nat (clipped ?b ?a nb)) dest)"
    using bd assms(4) by (simp add: vwrite_in)
  then show ?thesis
    using assms(2,5) r by (simp add: buffered_read_def Let_def clipped_def [symmetric])
qed

lemma read_online:
  assumes "map_ok (bmap s)" and "in_block (get (bmap s)) (Slave_pduAddress s addr)" and "0 \<le> nb"
    and "nb \<le> int (length dest)" and "Slave_isOpen w s"
    and "rd w s addr (drop (nat (Slave_pduAddress s addr - blk_start (get (bmap s)))) (blk_mem (get (bmap s))))
           (clipped (get (bmap s)) (Slave_pduAddress s addr) nb) = Inr (rc, img, w')"
  shows "\<exists>m'. buffered_read rd get put (w, s) addr dest nb =
      (let n = clipped (get (bmap s)) (Slave_pduAddress s addr) nb
       in Inr (if rc < 0 then (rc, dest, w', s\<lparr>bmap := m'\<rparr>)
               else (n, take (nat n) img @ drop (nat n) dest, w', s\<lparr>bmap := m'\<rparr>))) \<and>
    map_ok m' \<and> rest m' = rest (bmap s) \<and>
    blk_start (get m') = blk_start (get (bmap s)) \<and> blk_nb (get m') = blk_nb (get (bmap s)) \<and>
    blk_mem (get m') = take (nat (Slave_pduAddress s addr - blk_start (get (bmap s)))) (blk_mem (get (bmap s))) @ img"
proof -
  let ?b = "get (bmap s)" and ?a = "Slave_pduAddress s addr"
  let ?o = "nat (?a - blk_start ?b)" and ?n = "nat (clipped ?b ?a nb)"
  have ok: "block_ok ?b" using assms(1) by (rule map_ok_get)
  note bd = clipped_bounds [OF ok assms(2,3)]
  let ?mem = "take ?o (blk_mem ?b) @ img"
  have li: "length img = length (blk_mem ?b) - ?o" using rd_touches [OF assms(6)] by simp
  then have len: "length ?mem = length (blk_mem ?b)" using bd by simp
  have tab: "blk_tab ?b = Some (blk_mem ?b)" by (rule in_block_tab [OF ok assms(2)])
  let ?b' = "?b\<lparr>blk_tab := map_option (\<lambda>xs. take ?o xs @ img) (blk_tab ?b)\<rparr>"
  have b': "block_ok ?b'" "blk_mem ?b' = ?mem" "blk_start ?b' = blk_start ?b" "blk_nb ?b' = blk_nb ?b"
  proof -
    have t: "blk_tab ?b' = Some ?mem" by (simp add: tab)
    have n: "blk_nb ?b' = int (length ?mem)" using block_ok_mem [OF ok] len by simp
    show "block_ok ?b'" unfolding block_ok_def t using n by simp
    show "blk_mem ?b' = ?mem" unfolding blk_mem_def [of ?b'] t by simp
  qed simp_all
  have o: "int ?o = ?a - blk_start ?b" using bd by simp
  have ol: "?o \<le> length (blk_mem ?b)" using bd by linarith
  have "clipped ?b ?a nb \<le> int (length img)"
    unfolding li of_nat_diff [OF ol] o using bd by linarith
  from vread_after [OF ol conjunct1 [OF bd] this]
  have rd: "vread ?mem (?a - blk_start ?b) (clipped ?b ?a nb) = Inr (take ?n img)"
    unfolding o .
  have "vwrite dest 0 (take ?n img) = Inr (take ?n img @ drop ?n dest)"
    using bd assms(4) \<open>clipped ?b ?a nb \<le> int (length img)\<close> by (simp add: vwrite_in min_absorb2)
  then have "buffered_read rd get put (w, s) addr dest nb =
      Inr (if rc < 0 then (rc, dest, w', s\<lparr>bmap := put ?b' (bmap s)\<rparr>)
           else (clipped ?b ?a nb, take ?n img @ drop ?n dest, w', s\<lparr>bmap := put ?b' (bmap s)\<rparr>))"
    using assms(2,5,6) rd b'(2)
    by (simp add: buffered_read_def Let_def clipped_def [symmetric] get_put)
  then show ?thesis
    using b' map_ok_put [OF assms(1) b'(1)] by (auto simp: Let_def get_put rest_put)
qed

end

section \<open>Writing through\<close>

lemma isOpen_bmap [simp]: "Slave_isOpen w (s\<lparr>bmap := m\<rparr>) = Slave_isOpen w s"
  by (simp add: Slave_isOpen_def Slave_isValid_def Slave_device_def Slave_number_def)

lemma pduAddress_bmap [simp]: "Slave_pduAddress (s\<lparr>bmap := m\<rparr>) a = Slave_pduAddress s a"
  by (simp add: Slave_pduAddress_def)

locale write_table = table_image get put rest
  for get :: "mapping \<Rightarrow> 'v block" and put :: "'v block \<Rightarrow> mapping \<Rightarrow> mapping" and rest :: "mapping \<Rightarrow> 'r" +
  fixes wr1 :: "'c world \<Rightarrow> bslave \<Rightarrow> int \<Rightarrow> 'v \<Rightarrow> (int \<times> 'c world) res"
    and wrn :: "'c world \<Rightarrow> bslave \<Rightarrow> int \<Rightarrow> 'v list \<Rightarrow> int \<Rightarrow> (int \<times> 'c world) res"
  assumes wr1_touches: "wr1 w s addr v = Inr (rc, w') \<Longrightarrow> only_ctx (slave_dev s) w w'"
    and wrn_touches: "wrn w s addr src nb = Inr (rc, w') \<Longrightarrow> only_ctx (slave_dev s) w w'"
begin

lemma write_offline:
  "\<not> Slave_isOpen w s \<Longrightarrow>
   buffered_write wr1 wrn get put (w, s) addr src nb = image_write get put (w, s) addr src nb"
  by (simp add: buffered_write_def image_write_def Let_def)

lemma write_outside:
  "\<not> in_block (get (bmap s)) (Slave_pduAddress s addr) \<Longrightarrow>
   buffered_write wr1 wrn get put (w, s) addr src nb = Inr (-1, w\<lparr>w_errno := EINVAL\<rparr>, s)"
  by (simp add: buffered_write_def Let_def bfail_def)

text \<open>The device gets the elements that were stored: one by the write of one element, several
  from the image, at the same address.\<close>

lemma write_online:
  assumes "Slave_isOpen w s" and "image_write get put (w, s) addr src nb = Inr (n, w, s')" and "n \<noteq> -1"
  shows "buffered_write wr1 wrn get put (w, s) addr src nb =
    and_then
      (if n = 1
       then and_then (vget (blk_mem (get (bmap s'))) (Slave_pduAddress s addr - blk_start (get (bmap s)))) (wr1 w s' addr)
       else wrn w s' addr (drop (nat (Slave_pduAddress s addr - blk_start (get (bmap s)))) (blk_mem (get (bmap s')))) n)
      (\<lambda>(rc, w'). Inr (rc, w', s'))"
proof -
  have "in_block (get (bmap s)) (Slave_pduAddress s addr)"
    using assms(2,3) by (auto simp: image_write_def Let_def split: if_splits)
  then show ?thesis
    using assms(1,2)
    by (auto simp: buffered_write_def image_write_def Let_def and_then_eq_Inr get_put)
qed

end

section \<open>What every operation keeps\<close>

text \<open>The slave part of the object stays, the images keep their lengths, and the world changes at
  most in \<open>errno\<close> and in the context of the device of the slave.\<close>

definition keeps :: "'c bstate \<Rightarrow> 'c bstate \<Rightarrow> bool" where
  "keeps st st' \<longleftrightarrow>
     slave.truncate (snd st') = slave.truncate (snd st) \<and>
     (map_ok (bmap (snd st)) \<longrightarrow> map_ok (bmap (snd st'))) \<and>
     (map_safe (bmap (snd st)) \<longrightarrow> map_safe (bmap (snd st'))) \<and>
     only_ctx (slave_dev (snd st)) (fst st) (fst st')"

named_theorems keeping \<open>operations that keep the invariant of the buffered slave\<close>

lemma keeps_refl [simp]: "keeps st st"
  by (simp add: keeps_def)

lemma truncate_eq: "slave.truncate s' = slave.truncate s \<longleftrightarrow>
    pduAddressing s' = pduAddressing s \<and> slave_id s' = slave_id s \<and> slave_dev s' = slave_dev s"
  by (cases s; cases s') (simp add: slave.truncate_def)

lemma keeps_trans: "keeps st st' \<Longrightarrow> keeps st' st'' \<Longrightarrow> keeps st st''"
  by (auto simp: keeps_def truncate_eq intro: only_ctx_trans)

lemma keeps_bfail [simp]: "keeps st (bfail st)"
  by (simp add: keeps_def bfail_def only_ctx_errno)

lemma keeps_world: "only_ctx (slave_dev s) w w' \<Longrightarrow> keeps (w, s) (w', s)"
  by (simp add: keeps_def)

lemma block_ok_tab:
  "block_ok b \<Longrightarrow> (\<And>xs. blk_tab b = Some xs \<Longrightarrow> length (f xs) = length xs) \<Longrightarrow>
   block_ok (b\<lparr>blk_tab := map_option f (blk_tab b)\<rparr>)"
  by (auto simp: block_ok_def split: option.splits)

context table_image begin

lemma keeps_put:
  assumes "only_ctx (slave_dev s) w w'" and "block_ok (get (bmap s)) \<Longrightarrow> block_ok b"
    and "blk_tab (get (bmap s)) = None \<Longrightarrow> blk_tab b = None"
  shows "keeps (w, s) (w', s\<lparr>bmap := put b (bmap s)\<rparr>)"
proof -
  have "map_safe (put b (bmap s))" if m: "map_safe (bmap s)"
    using assms(2,3) map_safe_get [OF m] by (intro map_safe_put [OF m]) (auto simp: block_safe_iff)
  then show ?thesis using assms(1,2) by (simp add: keeps_def truncate_eq map_ok_get map_ok_put)
qed

lemma store_block_null: "store_block b off src n = Inr b' \<Longrightarrow> blk_tab b = None \<Longrightarrow> blk_tab b' = None"
  by (auto simp: store_block_def and_then_eq_Inr)

lemma store_block_keeps:
  "store_block b off src n = Inr b' \<Longrightarrow> block_ok b \<Longrightarrow> block_ok b'"
  unfolding store_block_def and_then_eq_Inr
  by (auto intro!: block_ok_tab dest!: vwrite_length simp: blk_mem_def)

lemma image_write_keeps:
  "image_write get put st addr src nb = Inr (rc, st') \<Longrightarrow> keeps st st'"
  by (cases st)
    (auto simp: image_write_def Let_def and_then_eq_Inr split: if_splits
      intro!: keeps_put intro: store_block_keeps store_block_null)

end

context read_table begin

lemma image_part:
  assumes "block_ok b" and "rd w s addr (drop m (blk_mem b)) n = Inr (rc, img, w')"
    and "m \<le> length (blk_mem b)"
  shows "block_ok (b\<lparr>blk_tab := map_option (\<lambda>xs. take m xs @ img) (blk_tab b)\<rparr>)"
  using rd_touches [OF assms(2)] assms(3)
  by (intro block_ok_tab [OF assms(1)]) (simp add: blk_mem_def min_absorb2)

lemma read_keeps:
  assumes "buffered_read rd get put st addr dest nb = Inr (rc, dest', st')"
  shows "keeps st st' \<and> length dest' = length dest"
proof -
  obtain w s where st: "st = (w, s)" by (cases st)
  let ?b = "get (bmap s)" and ?a = "Slave_pduAddress s addr"
  let ?m = "nat (?a - blk_start ?b)" and ?n = "min nb (blk_nb ?b - (?a - blk_start ?b))"
  show ?thesis
  proof (cases "in_block ?b ?a \<and> Slave_isOpen w s")
    case True
    then obtain rc1 img w1 where r: "rd w s addr (drop ?m (blk_mem ?b)) ?n = Inr (rc1, img, w1)"
      and st': "st' = (w1, s\<lparr>bmap := put (?b\<lparr>blk_tab := map_option (\<lambda>xs. take ?m xs @ img) (blk_tab ?b)\<rparr>) (bmap s)\<rparr>)"
      and "length dest' = length dest"
      using assms by (auto simp: st buffered_read_def Let_def and_then_eq_Inr vwrite_length split: if_splits)
    moreover have "?m \<le> length (blk_mem ?b)" if "block_ok ?b"
      using True block_ok_mem [OF that] by (auto simp: in_block_def)
    ultimately show ?thesis
      unfolding st st' using rd_touches [OF r]
      by (auto intro!: keeps_put image_part [OF _ r])
  next
    case False
    then show ?thesis
      using assms by (auto simp: st buffered_read_def Let_def and_then_eq_Inr vwrite_length split: if_splits)
  qed
qed

lemma device_read_keeps:
  assumes "device_read rd get put st start nb = Inr (rc, st')"
  shows "keeps st st'"
proof -
  obtain w s where st: "st = (w, s)" by (cases st)
  let ?b = "get (bmap s)" let ?m = "nat (clip_start ?b start - blk_start ?b)"
  from assms obtain img w1 n where r: "rd w s (device_address s (clip_start ?b start)) (drop ?m (blk_mem ?b)) n = Inr (rc, img, w1)"
    and st': "st' = (w1, s\<lparr>bmap := put (?b\<lparr>blk_tab := map_option (\<lambda>xs. take ?m xs @ img) (blk_tab ?b)\<rparr>) (bmap s)\<rparr>)"
    and "?m \<le> length (blk_mem ?b)"
    by (auto simp: st device_read_def Let_def and_then_eq_Inr split: if_splits)
  then show ?thesis
    unfolding st st' using rd_touches [OF r]
    by (auto intro!: keeps_put image_part [OF _ r])
qed

end

context write_table begin

lemma write_keeps:
  assumes "buffered_write wr1 wrn get put st addr src nb = Inr (rc, st')"
  shows "keeps st st'"
proof -
  obtain w s where st: "st = (w, s)" by (cases st)
  have dev: "slave_dev (s\<lparr>bmap := m\<rparr>) = slave_dev s" for m by simp
  show ?thesis
    using assms unfolding st
    by (auto simp: buffered_write_def Let_def and_then_eq_Inr split: if_splits
        dest!: wr1_touches wrn_touches intro!: keeps_put intro: store_block_keeps store_block_null)
qed

lemma device_write_keeps:
  "device_write wrn get st start nb = Inr (rc, st') \<Longrightarrow> keeps st st'"
  by (cases st) (auto simp: device_write_def Let_def and_then_eq_Inr split: if_splits
      dest!: wrn_touches intro!: keeps_world)

lemma device_write1_keeps:
  "device_write1 wr1 get st start = Inr (rc, st') \<Longrightarrow> keeps st st'"
  by (cases st) (auto simp: device_write1_def Let_def and_then_eq_Inr
      dest!: wr1_touches intro!: keeps_world)

end

section \<open>The four tables\<close>

lemma Slave_reads_touch:
  "Slave_readCoils M w s addr dest nb = Inr (rc, dest', w') \<Longrightarrow> length dest' = length dest \<and> only_ctx (slave_dev s) w w'"
  "Slave_readDiscreteInputs M w s addr dest nb = Inr (rc, dest', w') \<Longrightarrow> length dest' = length dest \<and> only_ctx (slave_dev s) w w'"
  "Slave_readRegisters M w s addr rdest nb = Inr (rc, rdest', w') \<Longrightarrow> length rdest' = length rdest \<and> only_ctx (slave_dev s) w w'"
  "Slave_readInputRegisters M w s addr rdest nb = Inr (rc, rdest', w') \<Longrightarrow> length rdest' = length rdest \<and> only_ctx (slave_dev s) w w'"
  by (auto simp: Slave_readCoils_def Slave_readDiscreteInputs_def Slave_readRegisters_def
      Slave_readInputRegisters_def dest!: Slave_request_touches)

lemma Slave_writes_touch:
  "Slave_writeCoil M w s addr v = Inr (rc, w') \<Longrightarrow> only_ctx (slave_dev s) w w'"
  "Slave_writeCoils M w s addr src nb = Inr (rc, w') \<Longrightarrow> only_ctx (slave_dev s) w w'"
  "Slave_writeRegister M w s addr r = Inr (rc, w') \<Longrightarrow> only_ctx (slave_dev s) w w'"
  "Slave_writeRegisters M w s addr rsrc nb = Inr (rc, w') \<Longrightarrow> only_ctx (slave_dev s) w w'"
  by (auto simp: Slave_writeCoil_def Slave_writeCoils_def Slave_writeRegister_def
      Slave_writeRegisters_def dest!: Slave_command_touches)

interpretation coils: read_table map_bits "\<lambda>b m. m\<lparr>map_bits := b\<rparr>"
  "\<lambda>m. (map_input_bits m, map_registers m, map_input_registers m)" "Slave_readCoils M" for M
  by unfold_locales (auto simp: map_ok_def map_safe_def dest: Slave_reads_touch)

interpretation inputs: read_table map_input_bits "\<lambda>b m. m\<lparr>map_input_bits := b\<rparr>"
  "\<lambda>m. (map_bits m, map_registers m, map_input_registers m)" "Slave_readDiscreteInputs M" for M
  by unfold_locales (auto simp: map_ok_def map_safe_def dest: Slave_reads_touch)

interpretation holding: read_table map_registers "\<lambda>b m. m\<lparr>map_registers := b\<rparr>"
  "\<lambda>m. (map_bits m, map_input_bits m, map_input_registers m)" "Slave_readRegisters M" for M
  by unfold_locales (auto simp: map_ok_def map_safe_def dest: Slave_reads_touch)

interpretation input_regs: read_table map_input_registers "\<lambda>b m. m\<lparr>map_input_registers := b\<rparr>"
  "\<lambda>m. (map_bits m, map_input_bits m, map_registers m)" "Slave_readInputRegisters M" for M
  by unfold_locales (auto simp: map_ok_def map_safe_def dest: Slave_reads_touch)

interpretation coils_out: write_table map_bits "\<lambda>b m. m\<lparr>map_bits := b\<rparr>"
  "\<lambda>m. (map_input_bits m, map_registers m, map_input_registers m)"
  "\<lambda>w s addr v. Slave_writeCoil M w s addr (v \<noteq> 0)" "Slave_writeCoils M" for M
  by unfold_locales (auto dest: Slave_writes_touch)

interpretation holding_out: write_table map_registers "\<lambda>b m. m\<lparr>map_registers := b\<rparr>"
  "\<lambda>m. (map_bits m, map_input_bits m, map_input_registers m)"
  "Slave_writeRegister M" "Slave_writeRegisters M" for M
  by unfold_locales (auto dest: Slave_writes_touch)

section \<open>The templates on the image\<close>

text \<open>A closed object serves the registers of a table that its image holds.\<close>

definition serves :: "(mapping \<Rightarrow> u16 block) \<Rightarrow> 'c bstate \<Rightarrow> int \<Rightarrow> int \<Rightarrow> bool" where
  "serves get st addr n \<longleftrightarrow>
     (let b = get (bmap (snd st)); a = Slave_pduAddress (snd st) addr
      in map_ok (bmap (snd st)) \<and> \<not> Slave_isOpen (fst st) (snd st) \<and> in_block b a \<and>
         0 \<le> n \<and> a + n \<le> blk_start b + blk_nb b)"

lemma served_round_trip:
  assumes "table_image get put rest" and "serves get st addr (int (length vs))"
    and "read_table get put rest (rd :: 'c world \<Rightarrow> _)"
  shows "\<exists>st'. image_write get put st addr vs (int (length vs)) = Inr (int (length vs), st') \<and>
    (length dest = length vs \<longrightarrow>
      buffered_read rd get put st' addr dest (int (length vs)) = Inr (int (length vs), vs, st'))"
proof -
  obtain w s where st: "st = (w, s)" by (cases st)
  let ?b = "get (bmap s)" and ?a = "Slave_pduAddress s addr" and ?n = "int (length vs)"
  have s: "map_ok (bmap s)" "\<not> Slave_isOpen w s" "in_block ?b ?a" "?a + ?n \<le> blk_start ?b + blk_nb ?b"
    using assms(2) by (simp_all add: serves_def st Let_def)
  then have clip: "clipped ?b ?a ?n = ?n" by (intro clipped_all) (simp_all add: in_block_def)
  from table_image.image_write_ok [OF assms(1) s(1,3), of ?n vs w]
  obtain m' where m': "image_write get put (w, s) addr vs ?n = Inr (?n, w, s\<lparr>bmap := m'\<rparr>)" "map_ok m'"
    "blk_start (get m') = blk_start ?b" "blk_nb (get m') = blk_nb ?b" "block_at (get m') ?a ?n = vs"
    unfolding clip by auto
  have "buffered_read rd get put (w, s\<lparr>bmap := m'\<rparr>) addr dest ?n = Inr (?n, vs, w, s\<lparr>bmap := m'\<rparr>)"
    if "length dest = length vs"
    using read_table.read_offline [OF assms(3), of "s\<lparr>bmap := m'\<rparr>" addr ?n dest w] m' s that clip
    by (simp add: in_block_def clipped_def)
  then show ?thesis using m'(1) by (auto simp: st)
qed

lemmas holding_round_trip = served_round_trip [OF holding.table_image_axioms _ holding.read_table_axioms]
lemmas input_round_trip = served_round_trip [OF input_regs.table_image_axioms _ input_regs.read_table_axioms]

interpretation holding_port: register_port "BufferedSlave_readRegisters M" "BufferedSlave_writeRegisters M"
  "serves map_registers" for M
proof
  fix st :: "'a bstate" and addr and vs :: "u16 list"
  assume s: "serves map_registers st addr (int (length vs))"
  have eq: "BufferedSlave_writeRegisters M st addr vs (int (length vs))
      = image_write map_registers (\<lambda>b m. m\<lparr>map_registers := b\<rparr>) st addr vs (int (length vs))"
    using s by (cases st) (simp add: BufferedSlave_writeRegisters_def holding_out.write_offline serves_def Let_def)
  show "\<exists>st'. BufferedSlave_writeRegisters M st addr vs (int (length vs)) = Inr (int (length vs), st')"
    using holding_round_trip [OF s] unfolding eq by blast
  show "\<exists>st''. BufferedSlave_readRegisters M st' addr dest (int (length vs)) = Inr (int (length vs), vs, st'')"
    if "BufferedSlave_writeRegisters M st addr vs (int (length vs)) = Inr (int (length vs), st')"
      and "length dest = length vs" for st' dest
    using holding_round_trip [OF s, of dest] that unfolding eq BufferedSlave_readRegisters_def by auto
qed

interpretation input_port: register_port "BufferedSlave_readInputRegisters M" "BufferedSlave_writeInputRegisters"
  "serves map_input_registers" for M
proof
  fix st :: "'a bstate" and addr and vs :: "u16 list"
  assume s: "serves map_input_registers st addr (int (length vs))"
  show "\<exists>st'. BufferedSlave_writeInputRegisters st addr vs (int (length vs)) = Inr (int (length vs), st')"
    using input_round_trip [OF s] unfolding BufferedSlave_writeInputRegisters_def by blast
  show "\<exists>st''. BufferedSlave_readInputRegisters M st' addr dest (int (length vs)) = Inr (int (length vs), vs, st'')"
    if "BufferedSlave_writeInputRegisters st addr vs (int (length vs)) = Inr (int (length vs), st')"
      and "length dest = length vs" for st' dest
    using input_round_trip [OF s, of dest] that
    unfolding BufferedSlave_writeInputRegisters_def BufferedSlave_readInputRegisters_def by auto
qed

end
