(* ===== verification/BufferedSlave_Steps.thy ===== *)
theory BufferedSlave_Steps
  imports BufferedSlave_Tables
begin

text \<open>
  What the operations of a \<open>BufferedSlave\<close> do: the allocation of the blocks, the invariant that
  every call keeps, reading and writing with and without an open device, and what the object
  makes of a request that a server hands to the device.
\<close>

section \<open>Allocation of the blocks\<close>

text \<open>What the code relies on: the memory of \<open>calloc\<close> is clear, \<open>realloc\<close> keeps the contents up
  to the smaller size.\<close>

definition allocates :: "(int \<Rightarrow> 'v::zero list option) \<Rightarrow> ('v list \<Rightarrow> int \<Rightarrow> 'v list option) \<Rightarrow> bool" where
  "allocates calloc realloc \<longleftrightarrow>
     (\<forall>n xs. calloc n = Some xs \<longrightarrow> 0 \<le> n \<and> xs = replicate (nat n) 0) \<and>
     (\<forall>xs n ys. realloc xs n = Some ys \<longrightarrow>
        int (length ys) = n \<and> take (length xs) ys = take (nat n) xs)"

definition memory_ok :: "memory \<Rightarrow> bool" where
  "memory_ok A \<longleftrightarrow> allocates (calloc_bytes A) (realloc_bytes A) \<and> allocates (calloc_words A) (realloc_words A)"

text \<open>The contents of a block after a resize.\<close>

definition resized :: "'v::zero list \<Rightarrow> int \<Rightarrow> 'v list" where
  "resized xs n = take (nat n) xs @ replicate (nat n - length xs) 0"

lemma set_block_outcome:
  assumes "allocates calloc realloc" and "block_ok b" and "0 \<le> n"
  shows "\<exists>rc b'. set_block calloc realloc 1 b start n = Inr (rc, b') \<and>
    (rc = n \<and> block_ok b' \<and> blk_start b' = start \<and> blk_nb b' = n \<and> blk_mem b' = resized (blk_mem b) n \<or>
     rc = -1 \<and> n \<noteq> 0 \<and> blk_tab b' = None)"
proof (cases "n = 0 \<or> blk_nb b = n")
  case True
  have "blk_tab b = None \<Longrightarrow> blk_nb b = 0" using assms(2) by (simp add: block_ok_def)
  then show ?thesis
    using True block_ok_mem [OF assms(2)] assms(2)
    by (auto simp: set_block_def resized_def block_ok_def blk_mem_def split: option.splits)
next
  case False
  show ?thesis
  proof (cases "blk_tab b")
    case None
    then have "blk_mem b = []" by (simp add: blk_mem_def)
    moreover have "xs = replicate (nat n) 0" if "calloc n = Some xs" for xs
      using that assms(1) unfolding allocates_def by blast
    ultimately show ?thesis using False None assms(3)
      by (cases "calloc n") (auto simp: set_block_def resized_def block_ok_def blk_mem_def)
  next
    case (Some xs)
    then have xs: "blk_mem b = xs" "blk_nb b = int (length xs)"
      using assms(2) by (simp_all add: blk_mem_def block_ok_def)
    show ?thesis
    proof (cases "realloc xs n")
      case None
      with False Some show ?thesis by (auto simp: set_block_def)
    next
      case (Some ys)
      then have "int (length ys) = n" and ys2: "take (length xs) ys = take (nat n) xs"
        using assms(1) unfolding allocates_def by blast+
      then have ys1: "length ys = nat n" by linarith
      note ys = ys1 ys2
      have grow: "vwrite ys (int (length xs)) (replicate (nat (n - int (length xs))) 0) = Inr (resized xs n)"
        if "n > int (length xs)"
        using that ys by (simp add: vwrite_in resized_def nat_diff_distrib)
      have "ys = resized xs n" if "\<not> n > int (length xs)"
        using that ys by (simp add: resized_def)
      then show ?thesis
        using False \<open>blk_tab b = Some xs\<close> Some xs grow assms(3) ys(1)
        by (auto simp: set_block_def block_ok_def blk_mem_def [of "\<lparr>blk_start = _, blk_nb = _, blk_tab = _\<rparr>"] resized_def)
    qed
  qed
qed

lemma set_block_words_overflow:
  assumes "block_ok b" and "0 < blk_nb b" and "blk_nb b < n"
    and "realloc (blk_mem b) n = Some ys" and "int (length ys) = n"
  shows "set_block calloc realloc 2 b start n = Inl Undefined_behaviour"
proof -
  have "blk_tab b = Some (blk_mem b)"
    using assms(1,2) by (auto simp: block_ok_def blk_mem_def split: option.splits)
  then show ?thesis
    using assms by (simp add: set_block_def vwrite_def)
qed

fun bit_table :: "Table \<Rightarrow> mapping \<Rightarrow> u8 block" where
  "bit_table Coil m = map_bits m"
| "bit_table _ m = map_input_bits m"

fun register_table :: "Table \<Rightarrow> mapping \<Rightarrow> u16 block" where
  "register_table HoldingRegister m = map_registers m"
| "register_table _ m = map_input_registers m"

text \<open>\<open>setBlock\<close> on the coils or the discrete inputs gives the table the wanted size at the
  PDU address of the start, keeps the elements that still fit, clears the new ones, and leaves
  the other tables alone; it fails with -1, the table then without memory, only when the
  allocator fails.\<close>

theorem bit_block_resized:
  assumes "memory_ok A" and "map_ok (bmap s)" and "0 \<le> n" and "0 \<le> addr" and "t \<in> {Coil, DiscreteInput}"
  shows "\<exists>rc s'. BufferedSlave_setBlock A s t n addr = Inr (rc, s') \<and>
    (\<forall>t' \<in> {Coil, DiscreteInput} - {t}. bit_table t' (bmap s') = bit_table t' (bmap s)) \<and>
    map_registers (bmap s') = map_registers (bmap s) \<and>
    map_input_registers (bmap s') = map_input_registers (bmap s) \<and>
    (rc = n \<and> map_ok (bmap s') \<and>
       blk_start (bit_table t (bmap s')) = Slave_pduAddress s addr \<and>
       blk_nb (bit_table t (bmap s')) = n \<and>
       blk_mem (bit_table t (bmap s')) = resized (blk_mem (bit_table t (bmap s))) n \<or>
     rc = -1 \<and> n \<noteq> 0 \<and> blk_tab (bit_table t (bmap s')) = None)"
proof -
  have "allocates (calloc_bytes A) (realloc_bytes A)" "block_ok (bit_table t (bmap s))"
    using assms(1,2,5) by (auto simp: memory_ok_def map_ok_def)
  from set_block_outcome [OF this assms(3), of "Slave_pduAddress s addr"]
  show ?thesis
    using assms(2,4,5)
    by (auto simp: BufferedSlave_setBlock_def Let_def setCoilBlock_def setDiscreteInputBlock_def map_ok_def)
qed

text \<open>C34. Growing a table of registers that is not empty writes past the end of the new memory,
  for every size: the index from which the code clears is twice the old number of registers.\<close>

theorem register_block_growth_overflows:
  assumes "memory_ok A" and "map_ok (bmap s)" and "t \<in> {HoldingRegister, InputRegister}" and "0 \<le> addr"
    and "0 < blk_nb (register_table t (bmap s))" and "blk_nb (register_table t (bmap s)) < n"
    and "realloc_words A (blk_mem (register_table t (bmap s))) n \<noteq> None"
  shows "BufferedSlave_setBlock A s t n addr = Inl Undefined_behaviour"
proof -
  obtain ys where ys: "realloc_words A (blk_mem (register_table t (bmap s))) n = Some ys"
    using assms(7) by auto
  then have "int (length ys) = n"
    using assms(1) by (auto simp: memory_ok_def allocates_def)
  moreover have "block_ok (register_table t (bmap s))"
    using assms(2,3) by (auto simp: map_ok_def)
  ultimately show ?thesis
    using set_block_words_overflow [of "register_table t (bmap s)" n "realloc_words A" ys "calloc_words A"]
      ys assms(3-6)
    by (auto simp: BufferedSlave_setBlock_def Let_def setHoldingRegisterBlock_def setInputRegisterBlock_def)
qed

text \<open>When the memory for a resized table cannot be had (a negative number of elements is
  enough), the table keeps its old size but has lost its memory, and reading an element
  of it follows a null pointer.\<close>

theorem failed_resize_leaves_null_table:
  assumes "map_ok (bmap s)" and "0 \<le> addr"
    and "0 < blk_nb (map_registers (bmap s))" and "n \<noteq> blk_nb (map_registers (bmap s))" and "n \<noteq> 0"
    and "realloc_words A (blk_mem (map_registers (bmap s))) n = None"
    and "in_block (map_registers (bmap s)) (Slave_pduAddress s a)" and "\<not> Slave_isOpen w s"
  shows "\<exists>s'. BufferedSlave_setBlock A s HoldingRegister n addr = Inr (-1, s') \<and>
    BufferedSlave_readRegisters M (w, s') a dest 1 = Inl Undefined_behaviour"
proof -
  let ?b = "map_registers (bmap s)"
  let ?s' = "s\<lparr>bmap := (bmap s)\<lparr>map_registers := ?b\<lparr>blk_tab := None\<rparr>\<rparr>\<rparr>"
  have "blk_tab ?b = Some (blk_mem ?b)"
    using assms(1,3) by (auto simp: map_ok_def block_ok_def blk_mem_def split: option.splits)
  then have "BufferedSlave_setBlock A s HoldingRegister n addr = Inr (-1, ?s')"
    using assms(2,4,5,6) by (simp add: BufferedSlave_setBlock_def setHoldingRegisterBlock_def set_block_def)
  moreover have "BufferedSlave_readRegisters M (w, ?s') a dest 1 = Inl Undefined_behaviour"
    using assms(7,8)
    by (simp add: BufferedSlave_readRegisters_def buffered_read_def Let_def in_block_def blk_mem_def
        vread_def min_def)
  ultimately show ?thesis by blast
qed

text \<open>Objects for the witnesses: an allocator that always succeeds up to a thousand elements,
  and slave 3 without a device, with its four tables.\<close>

definition sample_memory :: memory where
  "sample_memory = \<lparr>
     calloc_bytes = (\<lambda>n. if 0 \<le> n \<and> n \<le> 1000 then Some (replicate (nat n) 0) else None),
     realloc_bytes = (\<lambda>xs n. if 0 \<le> n \<and> n \<le> 1000 then Some (take (nat n) xs @ replicate (nat n - length xs) 7) else None),
     calloc_words = (\<lambda>n. if 0 \<le> n \<and> n \<le> 1000 then Some (replicate (nat n) 0) else None),
     realloc_words = (\<lambda>xs n. if 0 \<le> n \<and> n \<le> 1000 then Some (take (nat n) xs @ replicate (nat n - length xs) 7) else None) \<rparr>"

definition sample_map :: mapping where
  "sample_map = \<lparr>
     map_bits = \<lparr>blk_start = 0, blk_nb = 3, blk_tab = Some [1, 0, 1]\<rparr>,
     map_input_bits = \<lparr>blk_start = 10, blk_nb = 2, blk_tab = Some [1, 1]\<rparr>,
     map_registers = \<lparr>blk_start = 0, blk_nb = 4, blk_tab = Some [1, 2, 3, 4]\<rparr>,
     map_input_registers = \<lparr>blk_start = 5, blk_nb = 4, blk_tab = Some [5, 6, 7, 8]\<rparr> \<rparr>"

definition sample_slave :: "nat option \<Rightarrow> bslave" where
  "sample_slave d = BufferedSlave_Private_at sample_map 3 d"

lemma sample_map_ok: "map_ok sample_map"
  by (simp add: sample_map_def map_ok_def block_ok_def)

lemma take_resized: "take (length xs) (take m xs @ replicate (m - length xs) x) = take m xs"
  by (cases "m \<le> length xs") simp_all

lemma sample_memory_ok: "memory_ok sample_memory"
  by (auto simp: sample_memory_def memory_ok_def allocates_def take_resized
      simp del: take_append take_replicate split: if_splits)

lemma sample_slave_simps [simp]:
  "bmap (sample_slave d) = sample_map" "slave_id (sample_slave d) = 3"
  "slave_dev (sample_slave d) = d" "pduAddressing (sample_slave d) = False"
  by (simp_all add: sample_slave_def BufferedSlave_Private_at_def BufferedSlave_Private_def Slave_Private_def
      slave.extend_def)

lemma sample_slave_closed [simp]: "\<not> Slave_isOpen w (sample_slave None)"
  by (simp add: Slave_isOpen_def Slave_isValid_def Slave_device_def)

theorem bit_block_resized_witness:
  "\<exists>rc s'. BufferedSlave_setBlock sample_memory (sample_slave None) Coil 5 1 = Inr (rc, s') \<and>
     (rc = 5 \<and> blk_mem (map_bits (bmap s')) = [1, 0, 1, 0, 0] \<or> rc = -1 \<and> blk_tab (map_bits (bmap s')) = None)"
  using bit_block_resized [OF sample_memory_ok, of "sample_slave None" 5 1 Coil]
  by (auto simp: sample_map_ok) (auto simp: sample_map_def resized_def blk_mem_def numeral_2_eq_2)

theorem register_block_growth_overflows_witness:
  "BufferedSlave_setBlock sample_memory (sample_slave None) HoldingRegister 5 1 = Inl Undefined_behaviour"
  by (rule register_block_growth_overflows)
    (simp_all add: sample_memory_ok sample_map_ok, simp_all add: sample_map_def sample_memory_def)

theorem failed_resize_leaves_null_table_witness:
  "\<exists>s'. BufferedSlave_setBlock sample_memory (sample_slave None) HoldingRegister (-1) 1 = Inr (-1, s') \<and>
    BufferedSlave_readRegisters sample_client (sample_world, s') 2 [0] 1 = Inl Undefined_behaviour"
  by (rule failed_resize_leaves_null_table)
    (simp_all add: sample_map_ok sample_slave_closed Slave_pduAddress_def,
      simp_all add: sample_map_def sample_memory_def in_block_def)

section \<open>Steps of a buffered slave\<close>

lemma reads_keep [keeping]:
  "BufferedSlave_readCoils M st addr dest nb = Inr (rc, dest', st') \<Longrightarrow> keeps st st'"
  "BufferedSlave_readDiscreteInputs M st addr dest nb = Inr (rc, dest', st') \<Longrightarrow> keeps st st'"
  "BufferedSlave_readRegisters M st addr rdest nb = Inr (rc, rdest', st') \<Longrightarrow> keeps st st'"
  "BufferedSlave_readInputRegisters M st addr rdest nb = Inr (rc, rdest', st') \<Longrightarrow> keeps st st'"
  unfolding BufferedSlave_readCoils_def BufferedSlave_readDiscreteInputs_def
    BufferedSlave_readRegisters_def BufferedSlave_readInputRegisters_def
  by (blast dest: coils.read_keeps inputs.read_keeps holding.read_keeps input_regs.read_keeps)+

lemma writes_keep [keeping]:
  "BufferedSlave_writeCoils M st addr src nb = Inr (rc, st') \<Longrightarrow> keeps st st'"
  "BufferedSlave_writeCoil M st addr v = Inr (rc, st') \<Longrightarrow> keeps st st'"
  "BufferedSlave_writeRegisters M st addr rsrc nb = Inr (rc, st') \<Longrightarrow> keeps st st'"
  "BufferedSlave_writeRegister M st addr r = Inr (rc, st') \<Longrightarrow> keeps st st'"
  "BufferedSlave_writeDiscreteInputs st addr src nb = Inr (rc, st') \<Longrightarrow> keeps st st'"
  "BufferedSlave_writeDiscreteInput st addr v = Inr (rc, st') \<Longrightarrow> keeps st st'"
  "BufferedSlave_writeInputRegisters st addr rsrc nb = Inr (rc, st') \<Longrightarrow> keeps st st'"
  "BufferedSlave_writeInputRegister st addr r = Inr (rc, st') \<Longrightarrow> keeps st st'"
  unfolding BufferedSlave_writeCoil_def BufferedSlave_writeCoils_def BufferedSlave_writeRegister_def
    BufferedSlave_writeRegisters_def BufferedSlave_writeDiscreteInput_def BufferedSlave_writeDiscreteInputs_def
    BufferedSlave_writeInputRegister_def BufferedSlave_writeInputRegisters_def
  by (blast dest: coils_out.write_keeps holding_out.write_keeps inputs.image_write_keeps
      input_regs.image_write_keeps)+

lemma keeps_report: "only_ctx (slave_dev s) w w' \<Longrightarrow> keeps (w, s) (w', s\<lparr>idReport := r\<rparr>)"
  by (simp add: keeps_def truncate_eq)

lemma reportSlaveId_keeps [keeping]:
  "BufferedSlave_reportSlaveId K M st n dest = Inr (rc, dest', st') \<Longrightarrow> keeps st st'"
  by (cases st) (auto simp: BufferedSlave_reportSlaveId_def Slave_reportSlaveId_def and_then_eq_Inr Let_def
      split: if_splits intro: keeps_report dest!: Slave_request_touches)

lemma updateBlock_keeps [keeping]:
  "BufferedSlave_updateBlockFromSlave M st t = Inr (rc, st') \<Longrightarrow> keeps st st'"
  by (auto simp: BufferedSlave_updateBlockFromSlave_def updateCoilBlockFromSlave_def
      updateDiscreteInputBlockFromSlave_def updateInputRegisterBlockFromSlave_def
      updateHoldingRegisterBlockFromSlave_def Let_def and_then_eq_Inr
      split: Table.splits if_splits dest: keeping)

lemma updateBlocks_keep: "updateBlocksFromSlave M st ts = Inr (ok, st') \<Longrightarrow> keeps st st'"
proof (induction ts arbitrary: st)
  case (Cons t ts)
  then show ?case
    by (auto simp: and_then_eq_Inr split: if_splits dest!: updateBlock_keeps intro: keeps_trans)
qed simp

lemma updateAllBlocks_keep [keeping]: "BufferedSlave_updateBlocksFromSlave M st = Inr (ok, st') \<Longrightarrow> keeps st st'"
  unfolding BufferedSlave_updateBlocksFromSlave_def by (rule updateBlocks_keep)

lemma updateSlave_keeps [keeping]:
  "BufferedSlave_updateSlaveFromBlock M st t = Inr (rc, st') \<Longrightarrow> keeps st st'"
  by (auto simp: BufferedSlave_updateSlaveFromBlock_def updateSlaveCoilFromBlock_def
      updateSlaveHoldingRegisterFromBlock_def Let_def and_then_eq_Inr
      split: Table.splits if_splits dest: keeping)

lemma updateSlaves_keep [keeping]:
  "BufferedSlave_updateSlaveFromBlocks M st = Inr (ok, st') \<Longrightarrow> keeps st st'"
  by (auto simp: BufferedSlave_updateSlaveFromBlocks_def and_then_eq_Inr
      split: if_splits dest!: updateSlave_keeps intro: keeps_trans)

lemma readFromDevice_switch_keeps:
  assumes "readFromDevice_switch K M st f start nb = Inr (rc, st')"
  shows "keeps st st'"
proof (cases f)
  case ReportServerId
  then obtain n rc1 bytes w1 where "Slave_reportSlaveId M (fst st) (snd st) n
      (vresize (idReport (snd st)) (unat (MODBUS_MAX_PDU_LENGTH K))) = Inr (rc1, bytes, w1)"
    and "st' = (w1, (snd st)\<lparr>idReport := bytes\<rparr>)"
    using assms by (auto simp: readFromDevice_switch_def Let_def and_then_eq_Inr split: if_splits)
  then show ?thesis
    using keeps_report [of "snd st" "fst st" w1]
    by (auto simp: Slave_reportSlaveId_def dest!: Slave_request_touches)
next
  case ReadCoils
  with assms show ?thesis by (auto simp: readFromDevice_switch_def dest: coils.device_read_keeps)
next
  case ReadDiscreteInputs
  with assms show ?thesis by (auto simp: readFromDevice_switch_def dest: inputs.device_read_keeps)
next
  case ReadHoldingRegisters
  with assms show ?thesis by (auto simp: readFromDevice_switch_def dest: holding.device_read_keeps)
next
  case ReadInputRegisters
  with assms show ?thesis by (auto simp: readFromDevice_switch_def dest: input_regs.device_read_keeps)
qed (use assms in \<open>simp_all add: readFromDevice_switch_def\<close>)

lemma readFromDevice_keeps [keeping]:
  "BufferedSlave_readFromDevice K M st req = Inr (rc, st') \<Longrightarrow> keeps st st'"
  by (cases req)
    (auto simp: BufferedSlave_readFromDevice_def and_then_eq_Inr split: if_splits
      dest: readFromDevice_switch_keeps)

lemma writeToDevice_switch_keeps:
  assumes "writeToDevice_switch M st f start nb = Inr (rc, st')"
  shows "keeps st st'"
proof (cases f)
  case WriteSingleCoil
  with assms show ?thesis by (auto simp: writeToDevice_switch_def dest: coils_out.device_write1_keeps)
next
  case WriteMultipleCoils
  with assms show ?thesis by (auto simp: writeToDevice_switch_def dest: coils_out.device_write_keeps)
next
  case WriteSingleRegister
  with assms show ?thesis by (auto simp: writeToDevice_switch_def dest: holding_out.device_write1_keeps)
next
  case WriteMultipleRegisters
  with assms show ?thesis by (auto simp: writeToDevice_switch_def dest: holding_out.device_write_keeps)
qed (use assms in \<open>simp_all add: writeToDevice_switch_def\<close>)

lemma writeToDevice_keeps [keeping]:
  "BufferedSlave_writeToDevice M st req = Inr (rc, st') \<Longrightarrow> keeps st st'"
  by (cases req)
    (auto simp: BufferedSlave_writeToDevice_def and_then_eq_Inr split: if_splits
      dest: writeToDevice_switch_keeps)

lemma writeRead_keeps [keeping]:
  assumes "BufferedSlave_writeReadRegisters M st wa src wn ra dest rn = Inr (rc, dest', st')"
  shows "keeps st st'"
proof -
  obtain w s where st: "st = (w, s)" by (cases st)
  let ?b = "map_registers (bmap s)" and ?m = "nat (Slave_pduAddress s ra - blk_start (map_registers (bmap s)))"
  show ?thesis
  proof (cases "in_block ?b (Slave_pduAddress s ra) \<and> in_block ?b (Slave_pduAddress s wa)")
    case False
    then show ?thesis using assms by (auto simp: st BufferedSlave_writeReadRegisters_def Let_def)
  next
    case True
    let ?off = "Slave_pduAddress s wa - blk_start ?b"
    let ?wn = "min wn (blk_nb ?b - ?off)" and ?rn = "min rn (blk_nb ?b - (Slave_pduAddress s ra - blk_start ?b))"
    from True assms obtain b1 where b1: "store_block ?b ?off src ?wn = Inr b1"
      by (simp add: st BufferedSlave_writeReadRegisters_def Let_def and_then_eq_Inr) blast
    let ?s1 = "s\<lparr>bmap := (bmap s)\<lparr>map_registers := b1\<rparr>\<rparr>"
    have st': "st' = (w, ?s1) \<or>
        (\<exists>rc1 img w1 f. Slave_request M w ?s1 f (drop ?m (blk_mem b1)) = Inr (rc1, img, w1) \<and>
          st' = (w1, s\<lparr>bmap := (bmap s)\<lparr>map_registers := b1\<lparr>blk_tab := map_option (\<lambda>xs. take ?m xs @ img) (blk_tab b1)\<rparr>\<rparr>\<rparr>))"
    proof (cases "Slave_isOpen w s")
      case False
      with True assms b1 show ?thesis
        by (simp add: st BufferedSlave_writeReadRegisters_def Let_def and_then_eq_Inr split: if_splits) blast?
    next
      case opn: True
      obtain r where "Slave_writeReadRegisters M w ?s1 wa (drop (nat ?off) (blk_mem b1)) ?wn ra
          (drop ?m (blk_mem b1)) ?rn = r" by simp
      with True assms b1 opn show ?thesis
        by (cases r) (auto simp: st BufferedSlave_writeReadRegisters_def Slave_writeReadRegisters_def Let_def
          and_then_eq_Inr split: if_splits)
    qed
    have same: "blk_start b1 = blk_start ?b" "blk_nb b1 = blk_nb ?b"
      using b1 by (auto simp: store_block_def and_then_eq_Inr)
    have ok1: "block_ok ?b \<Longrightarrow> block_ok b1" by (rule holding.store_block_keeps [OF b1])
    from st' show ?thesis
    proof (elim disjE exE conjE)
      fix rc1 img w1 f
      assume r: "Slave_request M w (s\<lparr>bmap := (bmap s)\<lparr>map_registers := b1\<rparr>\<rparr>) f (drop ?m (blk_mem b1)) = Inr (rc1, img, w1)"
        and e: "st' = (w1, s\<lparr>bmap := (bmap s)\<lparr>map_registers := b1\<lparr>blk_tab := map_option (\<lambda>xs. take ?m xs @ img) (blk_tab b1)\<rparr>\<rparr>\<rparr>)"
      have li: "length img = length (drop ?m (blk_mem b1))" and oc: "only_ctx (slave_dev s) w w1"
        using Slave_request_touches [OF r] by simp_all
      have "block_ok (b1\<lparr>blk_tab := map_option (\<lambda>xs. take ?m xs @ img) (blk_tab b1)\<rparr>)" if ok: "block_ok ?b"
      proof (rule block_ok_tab [OF ok1 [OF ok]])
        fix xs assume "blk_tab b1 = Some xs"
        moreover from this have "?m \<le> length xs"
          using True same block_ok_mem [OF ok1 [OF ok]] by (auto simp: in_block_def blk_mem_def)
        ultimately show "length (take ?m xs @ img) = length xs" using li by (simp add: blk_mem_def)
      qed
      then show ?thesis unfolding st e using same holding.store_block_null [OF b1] by (intro holding.keeps_put [OF oc]) simp_all
    qed (auto simp: st intro!: holding.keeps_put ok1 holding.store_block_null [OF b1])
  qed
qed

lemma set_block_keeps:
  assumes "allocates calloc realloc" and "block_ok b"
    and "set_block calloc realloc k b start n = Inr (rc, b')" and "rc \<noteq> -1"
  shows "block_ok b'"
proof -
  have c: "int (length xs) = n" if "calloc n = Some xs" for xs
  proof -
    have "0 \<le> n \<and> xs = replicate (nat n) 0" using assms(1) that unfolding allocates_def by blast
    then show ?thesis by simp
  qed
  have r: "int (length ys) = n" if "realloc xs n = Some ys" for xs ys
    using assms(1) that unfolding allocates_def by blast
  show ?thesis
  proof (cases "n = 0 \<or> blk_nb b = n")
    case True
    then show ?thesis
      using assms(2-4) by (auto simp: set_block_def block_ok_def split: option.splits if_splits)
  next
    case False
    show ?thesis
    proof (cases "blk_tab b")
      case None
      with False assms(3,4) c show ?thesis
        by (cases "calloc n") (auto simp: set_block_def block_ok_def)
    next
      case (Some xs)
      show ?thesis
      proof (cases "realloc xs n")
        case None
        with False Some assms(3,4) show ?thesis by (simp add: set_block_def)
      next
        case (Some ys)
        with False \<open>blk_tab b = Some xs\<close> assms(3,4) r [OF Some] show ?thesis
          by (auto simp: set_block_def block_ok_def and_then_eq_Inr split: if_splits dest!: vwrite_length)
      qed
    qed
  qed
qed

text \<open>A resize that fails leaves the table without memory: what is kept then is the weaker property.\<close>

lemma set_block_safe:
  assumes "allocates calloc realloc" and "block_safe b" and "set_block calloc realloc k b start n = Inr (rc, b')"
  shows "block_safe b'"
proof (cases "rc = -1")
  case True
  have "n \<noteq> -1 \<or> b' = b\<lparr>blk_tab := None\<rparr> \<or> blk_tab b' = None \<or> blk_nb b = -1"
    using assms(1,3) unfolding allocates_def
    by (cases "blk_tab b") (fastforce simp: set_block_def and_then_eq_Inr split: if_splits option.splits)+
  then show ?thesis
    using True assms(2,3)
    by (auto simp: set_block_def block_safe_def and_then_eq_Inr split: if_splits option.splits)
next
  case False
  show ?thesis
  proof (cases "blk_tab b = None")
    case True
    then show ?thesis
      using False assms(1,3) set_block_keeps [of calloc realloc "b\<lparr>blk_nb := 0\<rparr>" k start n rc b']
      by (auto simp: set_block_def block_safe_iff block_ok_def allocates_def split: if_splits option.splits)
  next
    case False
    then show ?thesis
      using \<open>rc \<noteq> -1\<close> set_block_keeps [OF assms(1) _ assms(3)] assms(2) by (auto simp: block_safe_iff)
  qed
qed

lemma setBlock_keeps:
  assumes "memory_ok A" and "BufferedSlave_setBlock A s t n addr = Inr (rc, s')"
  shows "slave.truncate s' = slave.truncate s \<and> (map_safe (bmap s) \<longrightarrow> map_safe (bmap s')) \<and>
    (rc \<noteq> -1 \<longrightarrow> map_ok (bmap s) \<longrightarrow> map_ok (bmap s'))"
proof -
  have "allocates (calloc_bytes A) (realloc_bytes A)" "allocates (calloc_words A) (realloc_words A)"
    using assms(1) by (simp_all add: memory_ok_def)
  with assms(2) show ?thesis
    by (auto simp: BufferedSlave_setBlock_def Let_def setCoilBlock_def setDiscreteInputBlock_def
        setHoldingRegisterBlock_def setInputRegisterBlock_def and_then_eq_Inr truncate_eq map_ok_def map_safe_def
        split: Table.splits intro: set_block_keeps set_block_safe)
qed

text \<open>Every call that changes the object, with the kind of change it can make: the calls that read and
  write, \<open>setBlock\<close> that gives the table its size, \<open>setBlock\<close> that fails, the setters of the
  number, of the device and of the addressing mode, and those of the callbacks. The functions on
  typed values of the headers are made of these calls.\<close>

inductive bslave_step ::
    "mb_consts \<Rightarrow> memory \<Rightarrow> 'c modbus_client \<Rightarrow> slave_call \<Rightarrow> 'c bstate \<Rightarrow> 'c bstate \<Rightarrow> bool"
  for K A M where
  bs_setBlock: "BufferedSlave_setBlock A s t n addr = Inr (rc, s') \<Longrightarrow>
      bslave_step K A M (if rc = -1 then Resize_failed else Resize) (w, s) (w, s')"
| bs_setNumber: "bslave_step K A M Set_number (w, s) (w, Slave_setNumber s i)"
| bs_setDevice: "bslave_step K A M Set_device (w, s) (w, Slave_setDevice s dv)"
| bs_setPduAddressing: "bslave_step K A M Set_mode (w, s) (w, Slave_setPduAddressing s pdu)"
| bs_setBefore: "bslave_step K A M Set_callback (w, s) (w, BufferedSlave_setBeforeReplyCallback s cb)"
| bs_setAfter: "bslave_step K A M Set_callback (w, s) (w, BufferedSlave_setAfterReplyCallback s cb)"
| bs_readCoils: "BufferedSlave_readCoils M st addr dest nb = Inr (rc, dest', st') \<Longrightarrow> bslave_step K A M Access st st'"
| bs_readInputs: "BufferedSlave_readDiscreteInputs M st addr dest nb = Inr (rc, dest', st') \<Longrightarrow>
      bslave_step K A M Access st st'"
| bs_readRegs: "BufferedSlave_readRegisters M st addr rdest nb = Inr (rc, rdest', st') \<Longrightarrow>
      bslave_step K A M Access st st'"
| bs_readInRegs: "BufferedSlave_readInputRegisters M st addr rdest nb = Inr (rc, rdest', st') \<Longrightarrow>
      bslave_step K A M Access st st'"
| bs_writeCoil: "BufferedSlave_writeCoil M st addr v = Inr (rc, st') \<Longrightarrow> bslave_step K A M Access st st'"
| bs_writeCoils: "BufferedSlave_writeCoils M st addr src nb = Inr (rc, st') \<Longrightarrow> bslave_step K A M Access st st'"
| bs_writeReg: "BufferedSlave_writeRegister M st addr r = Inr (rc, st') \<Longrightarrow> bslave_step K A M Access st st'"
| bs_writeRegs: "BufferedSlave_writeRegisters M st addr src nb = Inr (rc, st') \<Longrightarrow> bslave_step K A M Access st st'"
| bs_writeInput: "BufferedSlave_writeDiscreteInput st addr v = Inr (rc, st') \<Longrightarrow> bslave_step K A M Access st st'"
| bs_writeInputs: "BufferedSlave_writeDiscreteInputs st addr src nb = Inr (rc, st') \<Longrightarrow>
      bslave_step K A M Access st st'"
| bs_writeInReg: "BufferedSlave_writeInputRegister st addr r = Inr (rc, st') \<Longrightarrow> bslave_step K A M Access st st'"
| bs_writeInRegs: "BufferedSlave_writeInputRegisters st addr rsrc nb = Inr (rc, st') \<Longrightarrow>
      bslave_step K A M Access st st'"
| bs_writeRead: "BufferedSlave_writeReadRegisters M st wa rsrc wn ra rdest rn = Inr (rc, rdest', st') \<Longrightarrow>
      bslave_step K A M Access st st'"
| bs_report: "BufferedSlave_reportSlaveId K M st m dest = Inr (rc, dest', st') \<Longrightarrow> bslave_step K A M Access st st'"
| bs_updateBlock: "BufferedSlave_updateBlockFromSlave M st t = Inr (rc, st') \<Longrightarrow> bslave_step K A M Access st st'"
| bs_updateBlocks: "BufferedSlave_updateBlocksFromSlave M st = Inr (ok, st') \<Longrightarrow> bslave_step K A M Access st st'"
| bs_updateSlave: "BufferedSlave_updateSlaveFromBlock M st t = Inr (rc, st') \<Longrightarrow> bslave_step K A M Access st st'"
| bs_updateSlaves: "BufferedSlave_updateSlaveFromBlocks M st = Inr (ok, st') \<Longrightarrow> bslave_step K A M Access st st'"
| bs_readFromDevice: "BufferedSlave_readFromDevice K M st req = Inr (rc, st') \<Longrightarrow> bslave_step K A M Access st st'"
| bs_writeToDevice: "BufferedSlave_writeToDevice M st req = Inr (rc, st') \<Longrightarrow> bslave_step K A M Access st st'"

text \<open>A sequence of calls, with the kinds of the calls made, the last one first.\<close>

inductive bslave_reach ::
    "mb_consts \<Rightarrow> memory \<Rightarrow> 'c modbus_client \<Rightarrow> slave_call list \<Rightarrow> 'c bstate \<Rightarrow> 'c bstate \<Rightarrow> bool"
  for K A M where
  br_start: "bslave_reach K A M [] st st"
| br_step: "bslave_reach K A M ks st st1 \<Longrightarrow> bslave_step K A M k st1 st2 \<Longrightarrow> bslave_reach K A M (k # ks) st st2"

text \<open>What a call, or a sequence of calls of the kinds \<open>ks\<close>, keeps.\<close>

definition calls_keep :: "slave_call set \<Rightarrow> 'c bstate \<Rightarrow> 'c bstate \<Rightarrow> bool" where
  "calls_keep ks st st' \<longleftrightarrow>
     (map_safe (bmap (snd st)) \<longrightarrow> map_safe (bmap (snd st'))) \<and>
     (Resize_failed \<notin> ks \<longrightarrow> map_ok (bmap (snd st)) \<longrightarrow> map_ok (bmap (snd st'))) \<and>
     (Set_number \<notin> ks \<longrightarrow> slave_id (snd st') = slave_id (snd st)) \<and>
     (Set_mode \<notin> ks \<longrightarrow> pduAddressing (snd st') = pduAddressing (snd st)) \<and>
     (Set_device \<notin> ks \<longrightarrow> slave_dev (snd st') = slave_dev (snd st) \<and>
        only_ctx (slave_dev (snd st)) (fst st) (fst st')) \<and>
     (\<forall>d. same_device (w_devices (fst st) d) (w_devices (fst st') d))"

lemma keeps_calls: "keeps st st' \<Longrightarrow> calls_keep ks st st'"
  by (simp add: keeps_def calls_keep_def truncate_eq only_ctx_def)

lemma setters_keep:
  "calls_keep {Set_number} (w, s) (w, Slave_setNumber s i)"
  "calls_keep {Set_device} (w, s) (w, Slave_setDevice s dv)"
  "calls_keep {Set_mode} (w, s) (w, Slave_setPduAddressing s pdu)"
  "calls_keep {Set_callback} (w, s) (w, BufferedSlave_setBeforeReplyCallback s cb)"
  "calls_keep {Set_callback} (w, s) (w, BufferedSlave_setAfterReplyCallback s cb)"
  by (simp_all add: calls_keep_def Slave_setNumber_def Slave_setDevice_def Slave_setPduAddressing_def
      BufferedSlave_setBeforeReplyCallback_def BufferedSlave_setAfterReplyCallback_def)

lemma bslave_step_keeps:
  assumes "memory_ok A" and "bslave_step K A M k st st'"
  shows "calls_keep {k} st st'"
  using assms(2)
proof cases
  case (bs_setBlock s t n addr rc s' w)
  with setBlock_keeps [OF assms(1) bs_setBlock(4)] show ?thesis
    by (simp add: calls_keep_def truncate_eq)
qed (auto intro: setters_keep keeps_calls dest: keeping)

lemma calls_keep_trans:
  assumes "calls_keep ks st st1" and "calls_keep {k} st1 st2"
  shows "calls_keep (insert k ks) st st2"
proof -
  have "same_device (w_devices (fst st) d) (w_devices (fst st2) d)" for d
    using assms same_device_trans unfolding calls_keep_def by blast
  moreover have "slave_dev (snd st2) = slave_dev (snd st) \<and> only_ctx (slave_dev (snd st)) (fst st) (fst st2)"
    if d: "Set_device \<notin> insert k ks"
  proof -
    have 1: "slave_dev (snd st1) = slave_dev (snd st) \<and> only_ctx (slave_dev (snd st)) (fst st) (fst st1)"
      using assms(1) d by (simp add: calls_keep_def)
    have 2: "slave_dev (snd st2) = slave_dev (snd st1) \<and> only_ctx (slave_dev (snd st1)) (fst st1) (fst st2)"
      using assms(2) d by (simp add: calls_keep_def)
    show ?thesis using 1 2 only_ctx_trans [of _ "fst st" "fst st1" "fst st2"] by simp
  qed
  ultimately show ?thesis using assms by (simp add: calls_keep_def)
qed

text \<open>C3. No sequence of calls makes the tables and the mapping disagree: a table has either no memory
  at all or exactly the elements that its size says, and it can lose its memory only by a
  \<open>setBlock\<close> that fails. The number, the addressing mode and the device change only by their setters;
  without the setter of the device no other device is touched, and no call opens, closes or
  reconfigures a device.\<close>

theorem buffered_slave_invariant:
  assumes "memory_ok A" and "map_safe (bmap (snd st))" and "bslave_reach K A M ks st st'"
  shows "map_safe (bmap (snd st')) \<and>
    (map_ok (bmap (snd st)) \<longrightarrow> Resize_failed \<notin> set ks \<longrightarrow> map_ok (bmap (snd st'))) \<and>
    (Set_number \<notin> set ks \<longrightarrow> slave_id (snd st') = slave_id (snd st)) \<and>
    (Set_mode \<notin> set ks \<longrightarrow> pduAddressing (snd st') = pduAddressing (snd st)) \<and>
    (Set_device \<notin> set ks \<longrightarrow> slave_dev (snd st') = slave_dev (snd st) \<and>
       (\<forall>d. Some d \<noteq> slave_dev (snd st) \<longrightarrow> w_devices (fst st') d = w_devices (fst st) d)) \<and>
    (\<forall>d. same_device (w_devices (fst st) d) (w_devices (fst st') d))"
proof -
  have "calls_keep (set ks) st st'"
    using assms(3)
  proof induction
    case (br_step ks st st1 k st2)
    then show ?case
      using calls_keep_trans [OF _ bslave_step_keeps [OF assms(1)]] by simp
  qed (simp add: calls_keep_def)
  then show ?thesis using assms(2) by (simp add: calls_keep_def only_ctx_def)
qed

theorem buffered_slave_invariant_witness:
  "\<exists>st'. bslave_reach libmodbus_values sample_memory sample_client [Resize_failed, Access]
      (sample_world, sample_slave None) st' \<and>
     blk_mem (map_registers (bmap (snd st'))) = [1, 9, 8, 4] \<and>
     blk_tab (map_bits (bmap (snd st'))) = None \<and> blk_nb (map_bits (bmap (snd st'))) = 3 \<and>
     map_safe (bmap (snd st')) \<and> slave_id (snd st') = 3"
proof -
  let ?s = "sample_slave None"
  let ?m = "sample_map\<lparr>map_registers := \<lparr>blk_start = 0, blk_nb = 4, blk_tab = Some [1, 9, 8, 4]\<rparr>\<rparr>"
  let ?s1 = "?s\<lparr>bmap := ?m\<rparr>"
  let ?s2 = "?s\<lparr>bmap := ?m\<lparr>map_bits := \<lparr>blk_start = 0, blk_nb = 3, blk_tab = None\<rparr>\<rparr>\<rparr>"
  have "BufferedSlave_writeRegisters sample_client (sample_world, ?s) 2 [9, 8] 2 = Inr (2, sample_world, ?s1)"
    by (simp add: BufferedSlave_writeRegisters_def buffered_write_def Let_def in_block_def store_block_def
        blk_mem_def Slave_pduAddress_def) (simp add: sample_map_def vread_def vwrite_def)
  then have 1: "bslave_reach libmodbus_values sample_memory sample_client [Access] (sample_world, ?s) (sample_world, ?s1)"
    by (blast intro: br_step br_start bs_writeRegs)
  have "BufferedSlave_setBlock sample_memory ?s1 Coil 2000 1 = Inr (-1, ?s2)"
    by (simp add: BufferedSlave_setBlock_def setCoilBlock_def set_block_def sample_map_def sample_memory_def)
  then have "bslave_step libmodbus_values sample_memory sample_client Resize_failed (sample_world, ?s1) (sample_world, ?s2)"
    using bs_setBlock [of sample_memory ?s1 Coil 2000 1 "-1" ?s2] by simp
  with 1 have r: "bslave_reach libmodbus_values sample_memory sample_client [Resize_failed, Access]
      (sample_world, ?s) (sample_world, ?s2)"
    by (rule br_step)
  have "map_safe (bmap (snd (sample_world, ?s2))) \<and> slave_id (snd (sample_world, ?s2)) = 3"
    using buffered_slave_invariant [OF sample_memory_ok _ r] map_ok_safe [OF sample_map_ok] by simp
  then show ?thesis using r by (force simp: blk_mem_def)
qed

section \<open>Reading and writing\<close>

text \<open>Of a closed object, a write of holding registers at an address of the table stores as
  many registers as fit and answers their number, the read back at the same address gives
  exactly these, and neither changes another table; outside the table both answer -1 with
  \<open>EINVAL\<close> and change nothing.\<close>

theorem holding_registers_read_back:
  assumes "map_ok (bmap s)" and "\<not> Slave_isOpen w s" and "0 \<le> nb" and "nb \<le> int (length src)"
    and "length dest = length src" and "b = map_registers (bmap s)" and "a = Slave_pduAddress s addr"
  shows "if in_block b a
    then (let n = min nb (blk_nb b - (a - blk_start b)) in
      \<exists>m'. BufferedSlave_writeRegisters M (w, s) addr src nb = Inr (n, w, s\<lparr>bmap := m'\<rparr>) \<and>
        map_bits m' = map_bits (bmap s) \<and> map_input_bits m' = map_input_bits (bmap s) \<and>
        map_input_registers m' = map_input_registers (bmap s) \<and> map_ok m' \<and>
        BufferedSlave_readRegisters M (w, s\<lparr>bmap := m'\<rparr>) addr dest n
          = Inr (n, take (nat n) src @ drop (nat n) dest, w, s\<lparr>bmap := m'\<rparr>))
    else BufferedSlave_writeRegisters M (w, s) addr src nb = Inr (-1, w\<lparr>w_errno := EINVAL\<rparr>, s) \<and>
      BufferedSlave_readRegisters M (w, s) addr dest nb = Inr (-1, dest, w\<lparr>w_errno := EINVAL\<rparr>, s)"
proof (cases "in_block b a")
  case False
  then show ?thesis
    using assms(6,7)
    by (simp add: BufferedSlave_writeRegisters_def BufferedSlave_readRegisters_def
        holding_out.write_outside holding.read_outside)
next
  case True
  let ?n = "clipped b a nb"
  have ok: "block_ok b" using assms(1,6) by (simp add: map_ok_def)
  note bd = clipped_bounds [OF ok True assms(3)]
  have w: "BufferedSlave_writeRegisters M (w, s) addr src nb
      = image_write map_registers (\<lambda>b m. m\<lparr>map_registers := b\<rparr>) (w, s) addr src nb"
    unfolding BufferedSlave_writeRegisters_def by (rule holding_out.write_offline [OF assms(2)])
  obtain m' where m': "BufferedSlave_writeRegisters M (w, s) addr src nb = Inr (?n, w, s\<lparr>bmap := m'\<rparr>)"
    "map_ok m'" "map_bits m' = map_bits (bmap s)" "map_input_bits m' = map_input_bits (bmap s)"
    "map_input_registers m' = map_input_registers (bmap s)"
    "blk_start (map_registers m') = blk_start b" "blk_nb (map_registers m') = blk_nb b"
    "block_at (map_registers m') a ?n = take (nat ?n) src"
    using holding.image_write_ok [OF assms(1) True [unfolded assms(6,7)] assms(3,4), of w] assms(6,7)
    unfolding w by auto
  have "in_block (map_registers m') a" "clipped (map_registers m') a ?n = ?n"
    using True m'(6,7) by (auto simp: in_block_def clipped_def)
  then have "BufferedSlave_readRegisters M (w, s\<lparr>bmap := m'\<rparr>) addr dest ?n
      = Inr (?n, take (nat ?n) src @ drop (nat ?n) dest, w, s\<lparr>bmap := m'\<rparr>)"
    using holding.read_offline [of "s\<lparr>bmap := m'\<rparr>" addr ?n dest w M] m' bd assms(2,4,5,7)
    unfolding BufferedSlave_readRegisters_def by (simp add: Let_def)
  then show ?thesis
    using True m' by (auto simp: Let_def clipped_def [symmetric])
qed

theorem holding_registers_read_back_witness:
  "\<exists>m'. BufferedSlave_writeRegisters sample_client (sample_world, sample_slave None) 4 [9, 8] 2
      = Inr (1, sample_world, (sample_slave None)\<lparr>bmap := m'\<rparr>) \<and>
    BufferedSlave_readRegisters sample_client (sample_world, (sample_slave None)\<lparr>bmap := m'\<rparr>) 4 [0, 0] 1
      = Inr (1, [9, 0], sample_world, (sample_slave None)\<lparr>bmap := m'\<rparr>)"
  using holding_registers_read_back [of "sample_slave None" sample_world 2 "[9, 8]" "[0, 0]"
      "map_registers sample_map" 3 4 sample_client]
  by (simp add: sample_map_ok Slave_pduAddress_def)
    (auto simp: sample_map_def in_block_def split: if_splits)

text \<open>C18. Reading input registers of an open object asks the device for the part of the request
  that the table holds; the answer of the device replaces that part of the image and is what
  the caller gets. When the device fails, the caller gets its code and an untouched
  destination.\<close>

theorem input_registers_refreshed:
  assumes "map_ok (bmap s)" and "Slave_isOpen w s" and "0 \<le> nb" and "nb \<le> int (length dest)"
    and "b = map_input_registers (bmap s)" and "a = Slave_pduAddress s addr" and "in_block b a"
    and "off = nat (a - blk_start b)" and "n = min nb (blk_nb b - (a - blk_start b))"
    and "Slave_readInputRegisters M w s addr (drop off (blk_mem b)) n = Inr (rc, answer, w')"
  shows "\<exists>m'. BufferedSlave_readInputRegisters M (w, s) addr dest nb
      = Inr (if rc < 0 then (rc, dest, w', s\<lparr>bmap := m'\<rparr>)
             else (n, take (nat n) answer @ drop (nat n) dest, w', s\<lparr>bmap := m'\<rparr>)) \<and>
    map_ok m' \<and> map_bits m' = map_bits (bmap s) \<and> map_input_bits m' = map_input_bits (bmap s) \<and>
    map_registers m' = map_registers (bmap s) \<and>
    blk_mem (map_input_registers m') = take off (blk_mem b) @ answer"
proof -
  have n: "n = clipped b a nb" using assms(9) by (simp add: clipped_def)
  from input_regs.read_online [OF assms(1) _ assms(3,4,2), of addr M rc answer w'] assms(5-8,10)
  show ?thesis
    unfolding BufferedSlave_readInputRegisters_def n by (auto simp: Let_def split: if_splits)
qed

lemma sample_open: "Slave_isOpen sample_world (sample_slave (Some 0))"
  by (simp add: Slave_isOpen_def Slave_isValid_def Slave_device_def Slave_number_def sample_world_def
      sample_device_def Device_isValid_def Device_isOpen_def)

lemma sample_put_ctx: "put_ctx sample_world (sample_slave (Some 0)) None 0 = sample_world"
  by (simp add: put_ctx_def sample_world_def sample_device_def fun_upd_idem)

theorem input_registers_refreshed_witness:
  "\<exists>m'. BufferedSlave_readInputRegisters sample_client (sample_world, sample_slave (Some 0)) 7 [0, 0] 2
      = Inr (2, [106, 107], sample_world, (sample_slave (Some 0))\<lparr>bmap := m'\<rparr>) \<and>
    blk_mem (map_input_registers m') = [5, 106, 107, 8]"
proof -
  let ?s = "sample_slave (Some 0)" and ?b = "map_input_registers sample_map"
  have "Slave_isValid sample_world ?s"
    by (simp add: Slave_isValid_def Slave_device_def Slave_number_def sample_world_def sample_device_def Device_isValid_def)
  moreover have "Slave_ctx sample_world ?s = Inr 0"
    by (simp add: Slave_ctx_def sample_world_def sample_device_def Device_backend_def)
  ultimately have "Slave_readInputRegisters sample_client sample_world ?s 7 [6, 7, 8] 2
      = Inr (2, [106, 107, 8], sample_world)"
    by (simp add: Slave_readInputRegisters_def Slave_request_def Slave_pduAddress_def sample_client_def
        sample_put_ctx vwrite_def upt_rec numeral_2_eq_2)
  then have r: "Slave_readInputRegisters sample_client sample_world ?s 7 (drop 1 (blk_mem ?b)) 2
      = Inr (2, [106, 107, 8], sample_world)"
    by (simp add: sample_map_def blk_mem_def)
  show ?thesis
    using input_registers_refreshed [of ?s sample_world 2 "[0, 0]" ?b 6 7 1 2 sample_client 2
        "[106, 107, 8]" sample_world] r
    by (simp add: sample_map_ok sample_open Slave_pduAddress_def)
      (auto simp: sample_map_def in_block_def blk_mem_def split: if_splits)
qed

text \<open>C19. Values of any type that occupies registers, of any byte and word order, that are written
  through the templates to a closed object are read back from it, as many as the table holds:
  holding registers and input registers alike.\<close>

theorem buffered_values_round_trip:
  assumes "list_all (data_wf k) src" and "list_all (data_wf k) dest" and "map m_endian dest = map m_endian src"
    and "serves map_registers st addr (int (length src * k))"
    and "serves map_input_registers st addr' (int (length src * k))"
  shows "(\<exists>src' st' dest' st''.
      Slave_writeData (BufferedSlave_writeRegisters M) st addr src (int (length src))
        = Inr (int (length src * k), src', st') \<and>
      Slave_readData k (BufferedSlave_readRegisters M) st' addr dest (int (length src))
        = Inr (int (length src * k), dest', st'') \<and>
      map m_value dest' = map m_value src) \<and>
    (\<exists>src' st' dest' st''.
      Slave_writeData BufferedSlave_writeInputRegisters st addr' src (int (length src))
        = Inr (int (length src * k), src', st') \<and>
      Slave_readData k (BufferedSlave_readInputRegisters M) st' addr' dest (int (length src))
        = Inr (int (length src * k), dest', st'') \<and>
      map m_value dest' = map m_value src)"
  using holding_port.data_through_port [OF assms(1-4)] input_port.data_through_port [OF assms(1-3,5)]
  by blast

theorem buffered_values_round_trip_witness:
  "\<exists>src' st' dest' st''.
     Slave_writeData (BufferedSlave_writeRegisters sample_client) (sample_world, sample_slave None) 2
       [Data_of_value [1, 2, 3, 4] EndianBigLittle] 1 = Inr (2, src', st') \<and>
     Slave_readData 2 (BufferedSlave_readRegisters sample_client) st' 2 [Data_default 4 EndianBigLittle] 1
       = Inr (2, dest', st'') \<and>
     map m_value dest' = [[1, 2, 3, 4]]"
proof -
  let ?st = "(sample_world, sample_slave None)"
  have s: "serves map_registers ?st 2 2" "serves map_input_registers ?st 6 2"
    by (simp_all add: serves_def Slave_pduAddress_def sample_map_ok)
      (simp_all add: sample_map_def in_block_def)
  have "data_wf 2 (Data_of_value [1, 2, 3, 4] EndianBigLittle)" "data_wf 2 (Data_default 4 EndianBigLittle)"
    by (simp_all add: data_wf_def Data_of_value_def Data_default_def updateRegisters_words)
  with s buffered_values_round_trip [of 2 "[Data_of_value [1, 2, 3, 4] EndianBigLittle]"
      "[Data_default 4 EndianBigLittle]" ?st 2 6 sample_client]
  show ?thesis by (simp add: Data_of_value_def Data_default_def)
qed

section \<open>Requests handed to the device\<close>

text \<open>A request for holding registers that a server hands to the device of the slave
  asks libmodbus for PDU address 0 with PDU addressing, and for -1 without, whatever the
  address of the request, unless that address is 0: the conversion to a data address is lost in
  the precedence of the conditional.\<close>

theorem device_read_address_lost:
  assumes "Slave_isOpen w s" and "Message_function m = Inr ReadHoldingRegisters"
    and "Message_startingAddress m = Inr a" and "Message_quantity m = Inr q"
    and "b = map_registers (bmap s)" and "map_ok (bmap s)" and "in_block b (uint a)"
    and "off = nat (uint a - blk_start b)" and "n = min (uint q) (blk_nb b - (uint a - blk_start b))"
  shows "\<exists>f. BufferedSlave_readFromDevice K M (w, s) (Some m)
      = and_then (Slave_request M w s f (drop off (blk_mem b))) (\<lambda>(rc, img, w').
          Inr (rc, w', s\<lparr>bmap := (bmap s)\<lparr>map_registers := b\<lparr>blk_tab := Some (take off (blk_mem b) @ img)\<rparr>\<rparr>\<rparr>)) \<and>
    (\<forall>c. f c = modbus_read_registers M c (if a = 0 \<or> pduAddressing s then 0 else -1) n)"
proof -
  have ok: "block_ok b" using assms(5,6) by (simp add: map_ok_def)
  have clip: "clip_start b (uint a) = uint a" using assms(7) by (simp add: clip_start_def in_block_def)
  have off: "0 \<le> uint a - blk_start b" "uint a - blk_start b \<le> int (length (blk_mem b))"
    using assms(7) block_ok_mem [OF ok] by (auto simp: in_block_def)
  have tab: "blk_tab b = Some (blk_mem b)" by (rule in_block_tab [OF ok assms(7)])
  have addr: "Slave_pduAddress s (device_address s (uint a)) = (if a = 0 \<or> pduAddressing s then 0 else -1)"
  proof -
    have "0 \<le> uint a" by simp
    then have "uint a + 1 \<noteq> 0" by linarith
    then show ?thesis by (simp add: Slave_pduAddress_def device_address_def unsigned_eq_0_iff)
  qed
  have "BufferedSlave_readFromDevice K M (w, s) (Some m)
      = device_read (Slave_readRegisters M) map_registers (\<lambda>b m. m\<lparr>map_registers := b\<rparr>) (w, s) (uint a) (uint q)"
    using assms(1-4) by (simp add: BufferedSlave_readFromDevice_def readFromDevice_switch_def)
  also have "\<dots> = and_then (Slave_request M w s
          (\<lambda>c. modbus_read_registers M c (if a = 0 \<or> pduAddressing s then 0 else -1) n) (drop off (blk_mem b)))
        (\<lambda>(rc, img, w'). Inr (rc, w', s\<lparr>bmap := (bmap s)\<lparr>map_registers := b\<lparr>blk_tab := Some (take off (blk_mem b) @ img)\<rparr>\<rparr>\<rparr>))"
    unfolding device_read_def Let_def prod.case assms(5) [symmetric] clip tab
    using off by (simp add: Slave_readRegisters_def addr assms(8,9))
  finally show ?thesis by blast
qed

text \<open>The request to read two holding registers at address 2, over RTU.\<close>

definition sample_request :: message where
  "sample_request = \<lparr>net = Rtu, pduBegin = 1, aduSize = 6, maxAduLength = 8, isResponse = False,
     backend = False, transactionId = 1, adu = [3, 3, 0, 2, 0, 2, 0, 0]\<rparr>"

lemma sample_request_simps:
  "Message_function sample_request = Inr ReadHoldingRegisters"
  "Message_startingAddress sample_request = Inr 2" "Message_quantity sample_request = Inr 2"
  by (simp_all add: sample_request_def Message_function_def Message_byte_def Message_startingAddress_def
      Message_quantity_def Message_word_def vget_def function_of_byte_def word_be_def)

theorem device_read_address_lost_witness:
  "\<exists>f. BufferedSlave_readFromDevice libmodbus_values sample_client (sample_world, sample_slave (Some 0)) (Some sample_request)
      = and_then (Slave_request sample_client sample_world (sample_slave (Some 0)) f [3, 4]) (\<lambda>(rc, img, w').
          Inr (rc, w', (sample_slave (Some 0))\<lparr>bmap := sample_map\<lparr>map_registers :=
            (map_registers sample_map)\<lparr>blk_tab := Some ([1, 2] @ img)\<rparr>\<rparr>\<rparr>)) \<and>
    (\<forall>c. f c = modbus_read_registers sample_client c (-1) 2)"
proof -
  have "in_block (map_registers sample_map) 2" "blk_start (map_registers sample_map) = 0"
    "blk_nb (map_registers sample_map) = 4" "blk_mem (map_registers sample_map) = [1, 2, 3, 4]"
    by (simp_all add: sample_map_def in_block_def blk_mem_def)
  then show ?thesis
    using device_read_address_lost [OF sample_open sample_request_simps refl _ _ refl refl, of libmodbus_values sample_client]
    by (simp add: sample_map_ok)
qed

text \<open>When the device of a slave does not answer a report request that a server hands to it,
  \<open>readFromDevice\<close> throws \<open>std::length_error\<close>: it resizes the report to the negative code.\<close>

theorem device_report_failure_throws:
  assumes "Slave_isOpen w s" and "Message_function m = Inr ReportServerId"
    and "Message_startingAddress m = Inr a" and "Message_quantity m = Inr q"
    and "Slave_ctx w s = Inr c" and "modbus_set_slave M c (slave_id s) = (rc0, e0, c0)"
    and "rc0 = 0 \<Longrightarrow> modbus_report_slave_id M c0 (MODBUS_MAX_PDU_LENGTH K) = ([], -1, e1, c1)"
  shows "BufferedSlave_readFromDevice K M (w, s) (Some m) = Inl Length_error"
proof -
  have "Slave_isValid w s" using assms(1) by (simp add: Slave_isOpen_def split: if_splits)
  moreover have "length (vresize (idReport s) n) = n" for n by (simp add: vresize_def)
  ultimately show ?thesis
    using assms by (cases "rc0 = 0")
      (simp_all add: BufferedSlave_readFromDevice_def readFromDevice_switch_def Let_def Slave_reportSlaveId_def
        Slave_request_def vwrite_def)
qed

theorem device_report_failure_throws_witness:
  "BufferedSlave_readFromDevice libmodbus_values
     (sample_client\<lparr>modbus_report_slave_id := (\<lambda>c n. ([], -1, Some ECONNRESET, c))\<rparr>)
     (sample_world, sample_slave (Some 0)) (Some (sample_request\<lparr>adu := [3, 17, 0, 0, 0, 0, 0, 0]\<rparr>)) = Inl Length_error"
  by (rule device_report_failure_throws [where c = 0 and a = 0 and q = 0 and ?rc0.0 = 0 and ?e0.0 = None
        and ?c0.0 = 0 and ?e1.0 = "Some ECONNRESET" and ?c1.0 = 0], rule sample_open)
    (simp_all add: sample_request_def Message_function_def Message_byte_def Message_startingAddress_def
      Message_quantity_def Message_word_def vget_def function_of_byte_def Slave_ctx_def sample_world_def
      sample_device_def Device_backend_def sample_client_def)

end
