(* ===== verification/Server_Steps.thy ===== *)
theory Server_Steps
  imports Server_Model BufferedSlave_Steps
begin

text \<open>
  The server as a state machine. What the operations of a server leave alone is the relation
  \<open>srv_frame\<close>; the interface and the threads are a step relation, and the invariant of its
  reachable states ties the thread, its promise, the open flag and the tables together.
\<close>

section \<open>What serving leaves alone\<close>

definition slave_kept :: "bslave \<Rightarrow> bslave \<Rightarrow> bool" where
  "slave_kept s s' \<longleftrightarrow> slave_id s' = slave_id s \<and> (map_ok (bmap s) \<longrightarrow> map_ok (bmap s')) \<and>
     (map_safe (bmap s) \<longrightarrow> map_safe (bmap s'))"

definition srv_frame :: "('c, 'a) sstate \<Rightarrow> ('c, 'a) sstate \<Rightarrow> bool" where
  "srv_frame st st' \<longleftrightarrow>
     srv_dev (snd st') = srv_dev (snd st) \<and> daemon (snd st') = daemon (snd st) \<and>
     stop_taken (snd st') = stop_taken (snd st) \<and> stop_set (snd st') = stop_set (snd st) \<and>
     same_device (Server_device st) (Server_device st') \<and>
     (req (snd st) \<noteq> None \<longrightarrow> req (snd st') \<noteq> None) \<and>
     (\<forall>a. srv_slaves (snd st') a = None \<longleftrightarrow> srv_slaves (snd st) a = None) \<and>
     (\<forall>a s s'. srv_slaves (snd st) a = Some s \<longrightarrow> srv_slaves (snd st') a = Some s' \<longrightarrow> slave_kept s s')"

text \<open>What the environment is relied on for: \<open>modbus_reply\<close> writes inside the tables, so that none of
  them changes its size or gets or loses its memory, and a callback changes neither the server's
  own flags nor its set of slaves.\<close>

definition reply_ok :: "'c modbus_server \<Rightarrow> bool" where
  "reply_ok SV \<longleftrightarrow> (\<forall>c q rc mp. (map_ok mp \<longrightarrow> map_ok (fst (modbus_reply SV c q rc mp))) \<and>
     (map_safe mp \<longrightarrow> map_safe (fst (modbus_reply SV c q rc mp))))"

definition callbacks_ok :: "('c, 'a) callbacks \<Rightarrow> bool" where
  "callbacks_ok cb \<longleftrightarrow> (\<forall>n st r st'. cb n st = Inr (r, st') \<longrightarrow> srv_frame st st')"

named_theorems server_frame \<open>operations that keep the frame of the server\<close>

lemma srv_frame_refl [simp]: "srv_frame st st"
  by (simp add: srv_frame_def slave_kept_def)

lemma srv_frame_trans: "srv_frame st st1 \<Longrightarrow> srv_frame st1 st2 \<Longrightarrow> srv_frame st st2"
proof -
  assume f: "srv_frame st st1" "srv_frame st1 st2"
  have "slave_kept s s'" if s: "srv_slaves (snd st) a = Some s" "srv_slaves (snd st2) a = Some s'" for a s s'
  proof -
    obtain s1 where "srv_slaves (snd st1) a = Some s1" using f(1) s(1) by (fastforce simp: srv_frame_def)
    then show ?thesis using f s by (fastforce simp: srv_frame_def slave_kept_def)
  qed
  then show ?thesis using f by (auto simp: srv_frame_def intro: same_device_trans)
qed

text \<open>A call on the device, and the fields that it does not touch.\<close>

lemma server_call_world:
  "server_call f st = Inr (x, st') \<Longrightarrow>
   snd st' = snd st \<and> f (w_errno (fst st), Server_device st) = Inr (x, w_errno (fst st'), Server_device st') \<and>
   (\<forall>j. j \<noteq> srv_dev (snd st) \<longrightarrow> w_devices (fst st') j = w_devices (fst st) j)"
  by (auto simp: server_call_def and_then_eq_Inr Server_device_def dest!: on_device_world)

lemma server_call_same:
  assumes "server_call f st = Inr (x, st')"
    and "\<And>s x s'. f s = Inr (x, s') \<Longrightarrow> same_device (snd s) (snd s')"
  shows "snd st' = snd st \<and> same_device (Server_device st) (Server_device st')"
  using server_call_world [OF assms(1)] assms(2) by fastforce

lemma server_call_frame:
  assumes "server_call f st = Inr (x, st')"
    and "\<And>s x s'. f s = Inr (x, s') \<Longrightarrow> same_device (snd s) (snd s')"
  shows "srv_frame st st'"
  using server_call_same [OF assms] by (simp add: srv_frame_def slave_kept_def)

lemma server_ctx_frame [server_frame]: "server_call (Device_call f) st = Inr (rc, st') \<Longrightarrow> srv_frame st st'"
  by (rule server_call_frame) (auto dest: Device_call_same)

lemma Server_device_with [simp]:
  "Server_device (w, v\<lparr>sock := s\<rparr>) = Server_device (w, v)"
  "Server_device (w, v\<lparr>req := q\<rparr>) = Server_device (w, v)"
  "Server_device (w, v\<lparr>srv_slaves := ss\<rparr>) = Server_device (w, v)"
  "Server_device (w, v\<lparr>receiveTask := t\<rparr>) = Server_device (w, v)"
  "Server_device (w, v\<lparr>daemon := b\<rparr>) = Server_device (w, v)"
  "Server_device (w, v\<lparr>daemon_errno := e\<rparr>) = Server_device (w, v)"
  "Server_device (w, v\<lparr>stop_taken := b\<rparr>) = Server_device (w, v)"
  "Server_device (w, v\<lparr>stop_set := b\<rparr>) = Server_device (w, v)"
  "Server_device (w, v\<lparr>messageCB := k\<rparr>) = Server_device (w, v)"
  "Server_device (w\<lparr>w_errno := e\<rparr>, v) = Server_device (w, v)"
  by (simp_all add: Server_device_def)

lemma srv_frame_fields [simp]:
  "srv_frame st (w, v\<lparr>sock := s\<rparr>) = srv_frame st (w, v)"
  "srv_frame st (w, v\<lparr>receiveTask := t\<rparr>) = srv_frame st (w, v)"
  "srv_frame st (w, v\<lparr>daemon_errno := e\<rparr>) = srv_frame st (w, v)"
  "srv_frame st (w\<lparr>w_errno := e\<rparr>, v) = srv_frame st (w, v)"
  "srv_frame (w\<lparr>w_errno := e\<rparr>, v) st = srv_frame (w, v) st"
  by (simp_all add: srv_frame_def)

lemma srv_frame_req: "srv_frame st (w, v) \<Longrightarrow> srv_frame st (w, v\<lparr>req := Some m\<rparr>)"
  by (simp add: srv_frame_def)

lemma srv_frame_slave:
  assumes "srv_frame st (w, v)" and "srv_slaves v a = Some s" and "slave_kept s s'"
  shows "srv_frame st (w, v\<lparr>srv_slaves := (srv_slaves v)(a \<mapsto> s')\<rparr>)"
proof (rule srv_frame_trans [OF assms(1)])
  show "srv_frame (w, v) (w, v\<lparr>srv_slaves := (srv_slaves v)(a \<mapsto> s')\<rparr>)"
    using assms(2,3) by (auto simp: srv_frame_def slave_kept_def)
qed

lemma on_slave_frame:
  assumes "on_slave a f st = Inr (x, st')" and "\<And>b x b'. f b = Inr (x, b') \<Longrightarrow> keeps b b'"
  shows "srv_frame st st'"
proof -
  obtain s w s' where s: "srv_slaves (snd st) a = Some s" and f: "f (fst st, s) = Inr (x, w, s')"
    and st': "st' = (w, (snd st)\<lparr>srv_slaves := (srv_slaves (snd st))(a \<mapsto> s')\<rparr>)"
    using assms(1) by (auto simp: on_slave_def and_then_eq_Inr split: option.splits)
  have k: "only_ctx (slave_dev s) (fst st) w" "slave_kept s s'"
    using assms(2) [OF f] by (auto simp: keeps_def truncate_eq slave_kept_def)
  have "srv_frame st (w, snd st)"
    using k(1) by (simp add: srv_frame_def only_ctx_def Server_device_def slave_kept_def)
  then show ?thesis unfolding st' using s k(2) by (rule srv_frame_slave)
qed

lemma fromDevice_frame [server_frame]:
  "on_slave a (\<lambda>b. BufferedSlave_readFromDevice K M b q) st = Inr (x, st') \<Longrightarrow> srv_frame st st'"
  by (erule on_slave_frame) (rule readFromDevice_keeps)

lemma toDevice_frame [server_frame]:
  "on_slave a (\<lambda>b. BufferedSlave_writeToDevice M b q) st = Inr (x, st') \<Longrightarrow> srv_frame st st'"
  by (erule on_slave_frame) (rule writeToDevice_keeps)

lemma callback_ok: "callbacks_ok cb \<Longrightarrow> cb n st = Inr (r, st') \<Longrightarrow> srv_frame st st'"
  unfolding callbacks_ok_def by blast

lemma callback_frame [server_frame]:
  "callbacks_ok cb \<Longrightarrow> run_callback cb k st = Inr (r, st') \<Longrightarrow> srv_frame st st'"
  using callback_ok [of cb "the k" st r st'] by (cases k) (auto simp: run_callback_def)

lemma Server_reply_frame [server_frame]:
  assumes "reply_ok SV" and "Server_reply SV a rc st = Inr (x, st')"
  shows "srv_frame st st'"
proof -
  obtain m s l where m: "req (snd st) = Some m" and s: "srv_slaves (snd st) a = Some s"
    and l: "dev_backend (Server_device st) = Some l"
    using assms(2) by (auto simp: Server_reply_def split: option.splits)
  obtain map' r where q: "modbus_reply SV (ctx l) (adu m) rc (bmap s) = (map', r)" by (metis prod.collapse)
  have st': "and_then (server_call (Device_call (\<lambda>_. r)) st) (\<lambda>(rc', w, v).
      Inr (rc', w, v\<lparr>srv_slaves := (srv_slaves v)(a \<mapsto> s\<lparr>bmap := map'\<rparr>)\<rparr>)) = Inr (x, st')"
    using assms(2) by (simp add: Server_reply_def m s l q)
  from st' obtain w v where c: "server_call (Device_call (\<lambda>_. r)) st = Inr (x, w, v)"
    and st'': "st' = (w, v\<lparr>srv_slaves := (srv_slaves v)(a \<mapsto> s\<lparr>bmap := map'\<rparr>)\<rparr>)"
    by (auto simp: and_then_eq_Inr)
  have "srv_slaves v a = Some s" using server_call_world [OF c] s by simp
  moreover have "map' = fst (modbus_reply SV (ctx l) (adu m) rc (bmap s))" using q by simp
  then have "slave_kept s (s\<lparr>bmap := map'\<rparr>)"
    using assms(1) by (simp add: slave_kept_def reply_ok_def)
  ultimately show ?thesis unfolding st'' by (rule srv_frame_slave [OF server_ctx_frame [OF c]])
qed

lemma Server_after_reply_frame [server_frame]:
  assumes "callbacks_ok cb" and "Server_after_reply M cb a st = Inr (x, st')"
  shows "srv_frame st st'"
proof -
  obtain s where s: "srv_slaves (snd st) a = Some s"
    using assms(2) by (auto simp: Server_after_reply_def split: option.splits)
  have "and_then (run_callback cb (afterReplyCB s) st) (\<lambda>(ret, st1).
      if ret \<noteq> 0 then Inr (ret, st1)
      else and_then (on_slave a (\<lambda>b. BufferedSlave_writeToDevice M b (req (snd st1))) st1)
             (\<lambda>(_, st2). Inr (0, st2))) = Inr (x, st')"
    using assms(2) by (simp add: Server_after_reply_def s)
  then obtain ret st1 where 1: "run_callback cb (afterReplyCB s) st = Inr (ret, st1)"
    and 2: "(if ret \<noteq> 0 then Inr (ret, st1)
      else and_then (on_slave a (\<lambda>b. BufferedSlave_writeToDevice M b (req (snd st1))) st1)
             (\<lambda>(_, st2). Inr (0, st2))) = Inr (x, st')"
    by (rule and_then_pairE) simp
  note f1 = callback_frame [OF assms(1) 1]
  show ?thesis
  proof (cases "ret = 0")
    case True
    with 2 obtain y where "on_slave a (\<lambda>b. BufferedSlave_writeToDevice M b (req (snd st1))) st1 = Inr (y, st')"
      by (auto simp: and_then_eq_Inr)
    then show ?thesis using f1 toDevice_frame srv_frame_trans by blast
  qed (use 2 f1 in simp)
qed

lemma Server_serve_frame [server_frame]:
  assumes ok: "reply_ok SV" "callbacks_ok cb" and s: "Server_serve K M SV cb a rc st = Inr (x, st')"
  shows "srv_frame st st'"
proof -
  define tail where "tail = (\<lambda>(rc' :: int, st4). if rc' < 0 then Inr (0, st4) else Server_after_reply M cb a st4)"
  define mid where "mid = (\<lambda>(ret, st3). if ret \<noteq> (0 :: int) then Inr (ret, st3)
      else and_then (Server_reply SV a rc st3) tail)"
  define front where "front = (\<lambda>(ret, st2). if ret < (0 :: int) then Inr (0, st2)
      else case srv_slaves (snd st2) a of None \<Rightarrow> Inl Undefined_behaviour
        | Some s \<Rightarrow> and_then (run_callback cb (beforeReplyCB s) st2) mid)"
  have tail: "srv_frame st4 st'" if "tail (y, st4) = Inr (x, st')" for y st4
    using that Server_after_reply_frame [OF ok(2)] by (auto simp: tail_def split: if_splits)
  have mid: "srv_frame st3 st'" if m: "mid (y, st3) = Inr (x, st')" for y st3
  proof (cases "y = 0")
    case True
    with m have "and_then (Server_reply SV a rc st3) tail = Inr (x, st')" by (simp add: mid_def)
    then show ?thesis
      by (rule and_then_pairE) (blast intro: srv_frame_trans Server_reply_frame [OF ok(1)] tail)
  qed (use m in \<open>simp add: mid_def\<close>)
  have front: "srv_frame st2 st'" if b: "front (y, st2) = Inr (x, st')" for y st2
  proof (cases "y < 0")
    case False
    with b obtain s :: bslave where "and_then (run_callback cb (beforeReplyCB s) st2) mid = Inr (x, st')"
      by (auto simp: front_def split: option.splits)
    then show ?thesis
      by (rule and_then_pairE) (blast intro: srv_frame_trans callback_frame [OF ok(2)] mid)
  qed (use b in \<open>simp add: front_def\<close>)
  have "and_then (server_call (Device_call (\<lambda>c. modbus_set_slave M c a)) st) (\<lambda>(r, st1).
      if r \<noteq> 0 then Inr (0, st1)
      else and_then (on_slave a (\<lambda>b. BufferedSlave_readFromDevice K M b (req (snd st1))) st1) front) = Inr (x, st')"
    using s unfolding Server_serve_def front_def mid_def tail_def .
  then obtain r st1 where 1: "server_call (Device_call (\<lambda>c. modbus_set_slave M c a)) st = Inr (r, st1)"
    and 2: "(if r \<noteq> 0 then Inr (0, st1)
      else and_then (on_slave a (\<lambda>b. BufferedSlave_readFromDevice K M b (req (snd st1))) st1) front) = Inr (x, st')"
    by (rule and_then_pairE) simp
  note f1 = server_ctx_frame [OF 1]
  show ?thesis
  proof (cases "r = 0")
    case True
    with 2 have "and_then (on_slave a (\<lambda>b. BufferedSlave_readFromDevice K M b (req (snd st1))) st1) front = Inr (x, st')"
      by simp
    then show ?thesis
      by (rule and_then_pairE) (blast intro: srv_frame_trans f1 fromDevice_frame front)
  qed (use 2 f1 in simp)
qed

lemma sock_call_frame [server_frame]: "sock_call f st = Inr st' \<Longrightarrow> srv_frame st st' \<and> snd st' = snd st"
  by (auto simp: sock_call_def and_then_eq_Inr split: if_splits dest: server_ctx_frame server_call_world)

lemma Server_Private_openE:
  assumes "Server_Private_open K L SV st = Inr (ok, st')"
  obtains l st1 where "dev_backend (Server_device st) = Some l"
    and "(case nl_net l of
        Tcp \<Rightarrow> and_then (server_call (Device_call (\<lambda>c. modbus_tcp_pi_listen SV c 1)) st)
                 (\<lambda>(s, w, v). Inr (s \<noteq> -1, w, v\<lparr>sock := s\<rparr>))
      | Rtu \<Rightarrow> server_call (Device_Private_open L) st
      | NoNet \<Rightarrow> Inr (False, st)) = Inr (ok, st1)"
    and "st' = st1 \<or> (\<exists>m. st' = (fst st1, (snd st1)\<lparr>req := Some m\<rparr>))" and "ok \<longrightarrow> req (snd st') \<noteq> None"
proof -
  obtain l where l: "dev_backend (Server_device st) = Some l"
    using assms by (auto simp: Server_Private_open_def split: option.splits)
  define inner where "inner = (case nl_net l of
      Tcp \<Rightarrow> and_then (server_call (Device_call (\<lambda>c. modbus_tcp_pi_listen SV c 1)) st)
               (\<lambda>(s, w, v). Inr (s \<noteq> -1, w, v\<lparr>sock := s\<rparr>))
    | Rtu \<Rightarrow> server_call (Device_Private_open L) st
    | NoNet \<Rightarrow> Inr (False, st))"
  have "and_then inner (\<lambda>(isOk, st1).
      if isOk \<and> req (snd st1) = None
      then and_then (Request_device K (Server_device st1)) (\<lambda>m. Inr (isOk, fst st1, (snd st1)\<lparr>req := Some m\<rparr>))
      else Inr (isOk, st1)) = Inr (ok, st')"
    using assms unfolding Server_Private_open_def l inner_def by simp
  then obtain ok1 st1 where 1: "inner = Inr (ok1, st1)"
    and 2: "(if ok1 \<and> req (snd st1) = None
      then and_then (Request_device K (Server_device st1)) (\<lambda>m. Inr (ok1, fst st1, (snd st1)\<lparr>req := Some m\<rparr>))
      else Inr (ok1, st1)) = Inr (ok, st')"
    by (rule and_then_pairE) simp
  have "ok1 = ok" and "st' = st1 \<or> (\<exists>m. st' = (fst st1, (snd st1)\<lparr>req := Some m\<rparr>))"
    and "ok \<longrightarrow> req (snd st') \<noteq> None"
    using 2 by (cases "ok1 \<and> req (snd st1) = None"; auto simp: and_then_eq_Inr)+
  then show thesis using that [OF l _ _ _] 1 unfolding inner_def by blast
qed

lemma Server_Private_open_frame [server_frame]:
  assumes "Server_Private_open K L SV st = Inr (ok, st')"
  shows "srv_frame st st' \<and> (ok \<longrightarrow> req (snd st') \<noteq> None)"
  using assms
proof (rule Server_Private_openE)
  fix l st1
  assume 1: "(case nl_net l of
        Tcp \<Rightarrow> and_then (server_call (Device_call (\<lambda>c. modbus_tcp_pi_listen SV c 1)) st)
                 (\<lambda>(s, w, v). Inr (s \<noteq> -1, w, v\<lparr>sock := s\<rparr>))
      | Rtu \<Rightarrow> server_call (Device_Private_open L) st
      | NoNet \<Rightarrow> Inr (False, st)) = Inr (ok, st1)"
    and 2: "st' = st1 \<or> (\<exists>m. st' = (fst st1, (snd st1)\<lparr>req := Some m\<rparr>))" and 3: "ok \<longrightarrow> req (snd st') \<noteq> None"
  have "srv_frame st st1"
    using 1
    by (cases "nl_net l") (auto simp: and_then_eq_Inr dest: server_ctx_frame intro: server_call_frame Device_Private_open_same)
  then show ?thesis
    using 2 3 srv_frame_req [of st "fst st1" "snd st1"] by auto
qed

lemma Server_Private_close_frame [server_frame]:
  assumes "Server_Private_close L SV st = Inr st'"
  shows "srv_frame st st'"
proof -
  obtain l where l: "dev_backend (Server_device st) = Some l"
    using assms by (auto simp: Server_Private_close_def split: option.splits)
  define inner where "inner = (if nl_net l = Tcp \<and> sock (snd st) \<noteq> -1
      then and_then (sock_call (sys_close SV) st) (\<lambda>(w, v). Inr (w, v\<lparr>sock := -1\<rparr>)) else Inr st)"
  have "and_then inner (\<lambda>st1. and_then (server_call (\<lambda>s. unit_of (Device_Private_close L s)) st1)
      (\<lambda>(_, st2). Inr st2)) = Inr st'"
    using assms by (simp add: Server_Private_close_def l inner_def)
  then obtain st1 u where 1: "inner = Inr st1"
    and c: "server_call (\<lambda>s. unit_of (Device_Private_close L s)) st1 = Inr (u, st')"
    by (auto simp: and_then_eq_Inr)
  have "srv_frame st st1"
    using 1 by (auto simp: inner_def and_then_eq_Inr split: if_splits dest!: sock_call_frame)
  moreover have "srv_frame st1 st'"
    using c by (rule server_call_frame) (auto simp: unit_of_def and_then_eq_Inr dest: Device_Private_close_same)
  ultimately show ?thesis using srv_frame_trans by blast
qed

text \<open>What the recovery and the task need of the virtual \<open>open\<close>.\<close>

definition opener_ok :: "(('c, 'a) sstate \<Rightarrow> (bool \<times> ('c, 'a) sstate) res) \<Rightarrow> bool" where
  "opener_ok opn \<longleftrightarrow> (\<forall>st ok st'. opn st = Inr (ok, st') \<longrightarrow>
     srv_frame st st' \<and> (ok \<longrightarrow> req (snd st') \<noteq> None))"

lemma Server_open_ok [simp]: "opener_ok (Server_Private_open K L SV)"
  unfolding opener_ok_def using Server_Private_open_frame by blast

lemma Server_recover_frame [server_frame]:
  assumes "opener_ok opn" and "Server_recover L SV opn st = Inr (x, st')"
  shows "srv_frame st st'"
proof -
  obtain st1 where 1: "Server_Private_close L SV st = Inr st1"
    and "and_then (opn st1) (\<lambda>(isOk, st2).
      if isOk then Inr (0, (fst st2)\<lparr>w_errno := ENOERR\<rparr>, snd st2) else Inl Runtime_error) = Inr (x, st')"
    using assms(2) unfolding Server_recover_def by (rule and_then_InrE)
  then obtain w v where 2: "opn st1 = Inr (True, w, v)" and 3: "st' = (w\<lparr>w_errno := ENOERR\<rparr>, v)"
    by (auto simp: and_then_eq_Inr split: if_splits)
  have "srv_frame st1 (w, v)" using assms(1) 2 unfolding opener_ok_def by blast
  then show ?thesis
    using srv_frame_trans [OF Server_Private_close_frame [OF 1]] by (simp add: 3)
qed

lemma Server_task_frame [server_frame]:
  assumes ok: "reply_ok SV" "callbacks_ok cb" "opener_ok opn"
    and t: "Server_task K L M SV cb opn rc st = Inr (x, st')"
  shows "srv_frame st st'"
proof (cases "rc = -1 \<and> w_errno (fst st) \<noteq> EMBBADCRC")
  case True
  with t show ?thesis
    using Server_recover_frame [OF ok(3)] by (auto simp: Server_task_def split: if_splits)
next
  case False
  show ?thesis
  proof (cases "rc > 0")
    case True
    with t False obtain m b where "req (snd st) = Some m" "Message_slave m = Inr b"
      by (auto simp: Server_task_def and_then_eq_Inr split: option.splits)
    with True False t have "(if Server_hasSlave (snd st) (uint b) then Server_serve K M SV cb (uint b) rc st
        else and_then (Server_messageCallback st) (\<lambda>k. case k of None \<Rightarrow> Inr (rc, st) | Some n \<Rightarrow> cb n st))
      = Inr (x, st')"
      by (simp add: Server_task_def)
    then consider "Server_serve K M SV cb (uint b) rc st = Inr (x, st')" | "st' = st"
      | n where "cb n st = Inr (x, st')"
      by (auto simp: and_then_eq_Inr split: if_splits option.splits)
    then show ?thesis
      using Server_serve_frame [OF ok(1,2)] callback_ok [OF ok(2)] by cases simp_all
  qed (use False t in \<open>auto simp: Server_task_def\<close>)
qed

lemma Server_receive_frame [server_frame]:
  assumes "Server_receive K L SV st = Inr (rc, st')"
  shows "srv_frame st st'"
proof -
  obtain l where l: "dev_backend (Server_device st) = Some l"
    using assms by (auto simp: Server_receive_def split: option.splits)
  define accepted where "accepted = (if nl_net l = Tcp \<and> \<not> modbus_get_socket L (ctx l) \<ge> 0
      then (case modbus_tcp_pi_accept SV (ctx l) (sock (snd st)) of (s, r) \<Rightarrow>
             and_then (server_call (Device_call (\<lambda>_. r)) st) (\<lambda>(rc, w, v). Inr (rc \<ge> 0, w, v\<lparr>sock := s\<rparr>)))
      else Inr (True, st))"
  define read where "read = (\<lambda>(go_on, st1 :: ('a, 'b) sstate).
      if \<not> go_on then Inr (-1, st1)
      else case (req (snd st1), dev_backend (Server_device st1)) of
        (Some m, Some l1) \<Rightarrow>
          and_then (Message_clear K m) (\<lambda>m1.
          case modbus_receive SV (ctx l1) of (out, r) \<Rightarrow>
            and_then (vwrite (adu m1) 0 out) (\<lambda>a.
            and_then (server_call (Device_call (\<lambda>_. r)) st1) (\<lambda>(rc, w, v).
            let m2 = m1\<lparr>adu := a\<rparr>
            in Inr (rc, w, v\<lparr>req := Some (if rc > 0 then Message_setAduSize m2 (nat rc) else m2)\<rparr>))))
      | _ \<Rightarrow> Inl Undefined_behaviour)"
  have "and_then accepted read = Inr (rc, st')"
    using assms by (simp add: Server_receive_def l Device_Private_isConnected_def accepted_def read_def)
  then obtain go st1 where 1: "accepted = Inr (go, st1)" and 2: "read (go, st1) = Inr (rc, st')"
    by (rule and_then_pairE)
  have "srv_frame st st1"
    using 1 unfolding accepted_def
    by (auto simp: and_then_eq_Inr split: if_splits prod.splits dest!: server_ctx_frame)
  moreover have "srv_frame st1 st'"
  proof (cases go)
    case True
    with 2 obtain m l1 where m: "req (snd st1) = Some m" "dev_backend (Server_device st1) = Some l1"
      by (auto simp: read_def split: option.splits)
    obtain out r where "modbus_receive SV (ctx l1) = (out, r)" by (metis prod.collapse)
    with 2 True m obtain w v q where "server_call (Device_call (\<lambda>_. r)) st1 = Inr (rc, w, v)"
      and st': "st' = (w, v\<lparr>req := Some q\<rparr>)"
      by (auto simp: read_def and_then_eq_Inr Let_def)
    from server_ctx_frame [OF this(1)] show ?thesis unfolding st' by (rule srv_frame_req)
  qed (use 2 in \<open>simp add: read_def\<close>)
  ultimately show ?thesis by (rule srv_frame_trans)
qed

text \<open>In another thread: the frame does not speak of \<open>errno\<close>.\<close>

lemma in_thread_frame:
  assumes "in_thread e f st = Inr (x, e', st')"
    and "\<And>st x st'. f st = Inr (x, st') \<Longrightarrow> srv_frame st st'"
  shows "srv_frame st st'"
proof -
  obtain w v where "f ((fst st)\<lparr>w_errno := e\<rparr>, snd st) = Inr (x, w, v)"
    and st': "st' = (w\<lparr>w_errno := w_errno (fst st)\<rparr>, v)"
    using assms(1) by (auto simp: in_thread_def and_then_eq_Inr)
  from assms(2) [OF this(1)] show ?thesis by (simp add: st')
qed

lemma Server_receive_async_frame [server_frame]:
  assumes "Server_receive_async K L SV st = Inr st'"
  shows "srv_frame st st'"
proof -
  obtain rc e w v where t: "in_thread ENOERR (Server_receive K L SV) st = Inr (rc, e, w, v)"
    and st': "st' = (w, v\<lparr>receiveTask := Received rc\<rparr>)"
    using assms by (auto simp: Server_receive_async_def and_then_eq_Inr)
  show ?thesis
    using in_thread_frame [OF t Server_receive_frame] by (simp add: st')
qed

text \<open>The inherited \<open>sendRawMessage\<close>.\<close>

lemma Server_sendRecover_frame [server_frame]:
  assumes "opener_ok opn" and "Server_sendRecover L SV opn st = Inr st'"
  shows "srv_frame st st'"
proof -
  obtain u st1 where 1: "server_call (\<lambda>s. and_then (Device_responseTimeout L s) (\<lambda>(_, _, s'). Inr ((), s'))) st
      = Inr (u, st1)"
    and 2: "and_then
         (if w_errno (fst st1) = EBADF \<or> w_errno (fst st1) = ECONNRESET \<or> w_errno (fst st1) = EPIPE
          then and_then (Server_Private_close L SV st1) (\<lambda>st2. and_then (opn st2) (\<lambda>(_, st3). Inr st3))
          else and_then (server_call (Device_flush L) st1) (\<lambda>(_, st2). Inr st2))
         (\<lambda>(w, v). Inr (w\<lparr>w_errno := w_errno (fst st)\<rparr>, v)) = Inr st'"
    using assms(2) unfolding Server_sendRecover_def Let_def by (rule and_then_pairE) simp
  have f1: "srv_frame st st1"
    using 1 by (rule server_call_frame) (auto simp: and_then_eq_Inr Device_responseTimeout_def dest: Device_getTimeout_same)
  obtain w v where st': "st' = (w\<lparr>w_errno := w_errno (fst st)\<rparr>, v)"
    and "(\<exists>st2 ok. Server_Private_close L SV st1 = Inr st2 \<and> opn st2 = Inr (ok, w, v)) \<or>
      (\<exists>rc. server_call (Device_flush L) st1 = Inr (rc, w, v))"
    using 2 by (auto simp: and_then_eq_Inr split: if_splits)
  then have "srv_frame st1 (w, v)"
  proof (elim disjE exE conjE)
    fix st2 ok assume "Server_Private_close L SV st1 = Inr st2" and "opn st2 = Inr (ok, w, v)"
    then show ?thesis
      using assms(1) Server_Private_close_frame srv_frame_trans unfolding opener_ok_def by blast
  next
    fix rc assume "server_call (Device_flush L) st1 = Inr (rc, w, v)"
    then show ?thesis by (rule server_call_frame) (rule Device_flush_same)
  qed
  then show ?thesis using srv_frame_trans [OF f1] by (simp add: st')
qed

lemma Server_sendLoop_frame [server_frame]:
  assumes "opener_ok opn"
  shows "Server_sendLoop fuel L R SV opn st msg = Some (Inr (rc, st')) \<Longrightarrow> srv_frame st st'"
proof (induction fuel arbitrary: st)
  case (Suc n)
  obtain rc1 st1 where 1: "server_call (\<lambda>s. Device_sendOnce L R s msg) st = Inr (rc1, st1)"
    using Suc.prems by (auto split: sum.splits)
  have f1: "srv_frame st st1" using 1 by (rule server_call_frame) (rule Device_sendOnce_same)
  show ?case
  proof (cases "rc1 = -1 \<and> Device_recoveryLink (Server_device st1) \<and> \<not> isResponse msg")
    case True
    then obtain st2 where "Server_sendRecover L SV opn st1 = Inr st2"
      and "Server_sendLoop n L R SV opn st2 msg = Some (Inr (rc, st'))"
      using Suc.prems 1 by (auto split: sum.splits)
    then show ?thesis using f1 Suc.IH Server_sendRecover_frame [OF assms] srv_frame_trans by blast
  next
    case False
    then show ?thesis using Suc.prems 1 f1 by auto
  qed
qed simp

lemma Server_sendRawMessage_frame [server_frame]:
  assumes "opener_ok opn" and "Server_sendRawMessage fuel L R SV opn st msg p = Some (Inr (rc, st', msg'))"
  shows "srv_frame st st'"
proof -
  obtain ok msg1 st1 where 1: "server_call (\<lambda>s. and_then (Device_prepare s msg p)
      (\<lambda>(ok, s', msg'). Inr ((ok, msg'), s'))) st = Inr ((ok, msg1), st1)"
    using assms(2) by (auto simp: Server_sendRawMessage_def split: sum.splits if_splits)
  have f1: "srv_frame st st1"
    using 1 by (rule server_call_frame) (auto simp: and_then_eq_Inr dest: Device_prepare_same)
  show ?thesis
  proof (cases ok)
    case True
    then obtain rc2 st2 where l: "Server_sendLoop fuel L R SV opn st1 msg1 = Some (Inr (rc2, st2))"
      and st': "st' = ((fst st2)\<lparr>w_errno := EMBBADDATA\<rparr>, snd st2) \<or> st' = st2"
      using assms(2) 1
      by (auto simp: Server_sendRawMessage_def split: sum.splits if_splits option.splits prod.splits)
    have "srv_frame st st2" using srv_frame_trans [OF f1 Server_sendLoop_frame [OF assms(1) l]] .
    then show ?thesis using st' by (cases st2) auto
  next
    case False
    then show ?thesis
      using assms(2) 1 f1 by (cases st1) (auto simp: Server_sendRawMessage_def split: sum.splits if_splits)
  qed
qed

text \<open>A response is sent once, with no recovery: for it the function of the class \<open>Device\<close> alone gives
  the result, the same as for any device.\<close>

lemma Server_sendLoop_response:
  "isResponse msg \<Longrightarrow> Server_sendLoop (Suc n) L R SV opn st msg = Some (server_call (\<lambda>s. Device_sendOnce L R s msg) st)"
  by (auto split: sum.split)

lemma Device_sendLoop_response:
  "isResponse msg \<Longrightarrow> Device_sendLoop (Suc n) L R st msg = Some (Device_sendOnce L R st msg)"
  by (auto split: sum.split)

lemma Server_send_response:
  assumes "isResponse msg"
  shows "Server_sendRawMessage (Suc n) L R SV opn st msg p =
    (case Device_sendRawMessage (Suc n) L R (w_errno (fst st), Server_device st) msg p of
       None \<Rightarrow> None
     | Some (Inl x) \<Rightarrow> Some (Inl x)
     | Some (Inr (rc, s', msg')) \<Rightarrow>
         Some (and_then (server_call (\<lambda>_. Inr (rc, s')) st) (\<lambda>(rc, st'). Inr (rc, st', msg'))))"
proof (cases "Device_isValid (Server_device st)")
  case True
  show ?thesis
  proof (cases "Device_prepare (w_errno (fst st), Server_device st) msg p")
    case (Inl x)
    then show ?thesis
      using True by (simp add: Server_sendRawMessage_def Device_sendRawMessage_def Device_prepare_def [symmetric]
          server_call_def on_device_def Server_device_def)
  next
    case (Inr a)
    obtain ok e d msg1 where a: "a = (ok, (e, d), msg1)" by (cases a) auto
    have f: "isResponse msg1" using Device_prepare_flag [of _ msg p ok "(e, d)" msg1] Inr a assms by simp
    show ?thesis
      using True Inr a f
      by (cases "Device_sendOnce L R (e, d) msg1")
        (auto simp: Server_sendRawMessage_def Device_sendRawMessage_def Device_prepare_def [symmetric]
          Server_sendLoop_response Device_sendLoop_response server_call_def on_device_def Server_device_def
          simp del: Server_sendLoop.simps Device_sendLoop.simps)
  qed
qed (simp add: Server_sendRawMessage_def Device_sendRawMessage_def)

section \<open>The invariant\<close>

text \<open>The slave at the address \<open>a\<close>, where \<open>ks\<close> are the kinds of calls that the program makes on the
  slaves of the server.\<close>

definition slave_ok :: "slave_call set \<Rightarrow> int \<Rightarrow> bslave \<Rightarrow> bool" where
  "slave_ok ks a s \<longleftrightarrow> map_safe (bmap s) \<and> (Resize_failed \<notin> ks \<longrightarrow> map_ok (bmap s)) \<and>
     (Set_number \<notin> ks \<longrightarrow> slave_id s = a)"

definition srv_inv :: "slave_call set \<Rightarrow> ('c, 'a) sstate \<Rightarrow> bool" where
  "srv_inv ks st \<longleftrightarrow> dev_inv (Server_device st) \<and> (Server_isOpen st \<longrightarrow> req (snd st) \<noteq> None) \<and>
     (daemon (snd st) \<longrightarrow> Server_isOpen st \<and> \<not> stop_set (snd st)) \<and>
     (stop_taken (snd st) \<longleftrightarrow> daemon (snd st) \<or> stop_set (snd st)) \<and>
     (\<forall>a s. srv_slaves (snd st) a = Some s \<longrightarrow> slave_ok ks a s)"

lemma srv_frame_slaves:
  "srv_frame st st' \<Longrightarrow> srv_slaves (snd st') a = None \<longleftrightarrow> srv_slaves (snd st) a = None"
  by (simp add: srv_frame_def)

lemma srv_inv_frame:
  assumes "srv_inv ks st" and "srv_frame st st'"
  shows "srv_inv ks st'"
proof -
  have "slave_ok ks a s'" if s': "srv_slaves (snd st') a = Some s'" for a s'
  proof -
    obtain s where "srv_slaves (snd st) a = Some s"
      using srv_frame_slaves [OF assms(2), of a] s' by auto
    then show ?thesis using assms s' by (fastforce simp: srv_frame_def srv_inv_def slave_kept_def slave_ok_def)
  qed
  moreover have "dev_isOpen (Server_device st') = dev_isOpen (Server_device st)"
    using assms(2) by (simp add: srv_frame_def same_device_def)
  moreover have "dev_inv (Server_device st')"
    using assms dev_inv_same by (auto simp: srv_frame_def srv_inv_def)
  ultimately show ?thesis
    using assms by (simp add: srv_inv_def srv_frame_def Server_isOpen_def Device_isOpen_def)
qed

lemma srv_inv_fields [simp]:
  "srv_inv ks (w, v\<lparr>sock := s\<rparr>) = srv_inv ks (w, v)"
  "srv_inv ks (w, v\<lparr>receiveTask := t\<rparr>) = srv_inv ks (w, v)"
  "srv_inv ks (w, v\<lparr>daemon_errno := e\<rparr>) = srv_inv ks (w, v)"
  "srv_inv ks (w, v\<lparr>messageCB := k\<rparr>) = srv_inv ks (w, v)"
  "srv_inv ks (w\<lparr>w_errno := e\<rparr>, v) = srv_inv ks (w, v)"
  by (simp_all add: srv_inv_def Server_isOpen_def)

lemma Server_device_put [simp]: "Server_device (put_isOpen b st) = (Server_device st)\<lparr>dev_isOpen := b\<rparr>"
  by (simp add: put_isOpen_def Server_device_def)

lemma snd_put [simp]: "snd (put_isOpen b st) = snd st"
  by (simp add: put_isOpen_def)

text \<open>The open flag: up with a layer and a request, down when no thread runs.\<close>

lemma srv_inv_put:
  assumes "srv_inv ks st" and "b \<Longrightarrow> Device_isValid (Server_device st) \<and> req (snd st) \<noteq> None"
    and "\<not> b \<Longrightarrow> \<not> daemon (snd st)"
  shows "srv_inv ks (put_isOpen b st)"
  using assms
  by (cases b) (auto simp: srv_inv_def Server_isOpen_def dev_inv_def Device_isOpen_def Device_isValid_def)

lemma srv_frame_valid: "srv_frame st st' \<Longrightarrow> Device_isValid (Server_device st') = Device_isValid (Server_device st)"
  by (auto simp: srv_frame_def dest: same_device_valid)

lemma srv_frame_open: "srv_frame st st' \<Longrightarrow> Server_isOpen st' = Server_isOpen st"
  by (simp add: srv_frame_def same_device_def Server_isOpen_def Device_isOpen_def)

lemma Server_open_by_inv:
  assumes "opener_ok opn" and "Server_open_by opn st = Inr (ok, st')" and "srv_inv ks st"
  shows "srv_inv ks st' \<and> stop_set (snd st') = stop_set (snd st)"
proof (cases "Device_isValid (Server_device st) \<and> \<not> Server_isOpen st")
  case True
  with assms(2) obtain b st1 where o: "opn st = Inr (b, st1)" and st': "st' = put_isOpen b st1"
    by (auto simp: Server_open_by_def and_then_eq_Inr)
  have f: "srv_frame st st1" and r: "b \<longrightarrow> req (snd st1) \<noteq> None"
    using assms(1) o unfolding opener_ok_def by blast+
  have "\<not> daemon (snd st)" using assms(3) True by (auto simp: srv_inv_def)
  then have "srv_inv ks st'"
    unfolding st' using True r srv_frame_valid [OF f] f
    by (intro srv_inv_put srv_inv_frame [OF assms(3) f]) (auto simp: srv_frame_def)
  then show ?thesis using f by (simp add: st' srv_frame_def)
next
  case False
  then show ?thesis using assms(2,3) by (auto simp: Server_open_by_def)
qed

lemma sock_call_total: "\<exists>st'. sock_call f st = Inr st'"
  using Device_call_valid [of "(w_errno (fst st), Server_device st)" "\<lambda>c. f c (sock (snd st))"]
  by (fastforce simp: sock_call_def server_call_def on_device_def Server_device_def)

text \<open>\<open>terminate\<close> stops the thread, and never throws on a server in its invariant.\<close>

lemma Server_terminate_effect:
  assumes "srv_inv ks st"
  shows "\<exists>w. srv_frame st (w, snd st) \<and>
    Server_terminate SV st = Inr (w, if daemon (snd st) then (snd st)\<lparr>stop_set := True, daemon := False\<rparr> else snd st)"
proof -
  obtain st1 where 1: "(if sock (snd st) \<noteq> -1 then sock_call (sys_shutdown SV) st else Inr st) = Inr st1"
    using sock_call_total by (metis (full_types))
  then have "srv_frame st st1 \<and> snd st1 = snd st"
    using sock_call_frame [of "sys_shutdown SV" st st1] by (cases "sock (snd st) = -1") auto
  then obtain w where w: "srv_frame st (w, snd st)" and 2: "st1 = (w, snd st)" by (cases st1) auto
  have "daemon (snd st) \<Longrightarrow> \<not> stop_set (snd st)" using assms by (simp add: srv_inv_def)
  then show ?thesis
    using w 1 by (auto simp: Server_terminate_def Server_isRunning_def 2)
qed

lemma Server_terminate_inv:
  assumes "Server_terminate SV st = Inr st'" and "srv_inv ks st"
  shows "srv_inv ks st' \<and> \<not> daemon (snd st') \<and> (stop_set (snd st) \<or> daemon (snd st) \<longrightarrow> stop_set (snd st'))"
proof -
  obtain w where f: "srv_frame st (w, snd st)"
    and st': "st' = (w, if daemon (snd st) then (snd st)\<lparr>stop_set := True, daemon := False\<rparr> else snd st)"
    using Server_terminate_effect [OF assms(2), of SV] assms(1) by auto
  have i: "srv_inv ks (w, snd st)" using assms(2) f by (rule srv_inv_frame)
  have "srv_inv ks (w, (snd st)\<lparr>stop_set := True, daemon := False\<rparr>)" if "daemon (snd st)"
    using i that by (auto simp: srv_inv_def Server_isOpen_def)
  then show ?thesis
    using i by (simp add: st')
qed

section \<open>Steps of a server\<close>

text \<open>The calls of the interface, those that the class inherits from \<open>Device\<close> and those of the layer
  (which only use its context), every call on a slave of the server of a kind in \<open>ks\<close>, the end of
  the receiving thread, and an iteration of the thread \<open>daemon\<close>. Each is one step.\<close>

inductive srv_step ::
    "mb_consts \<Rightarrow> memory \<Rightarrow> 'c modbus_link \<Rightarrow> 'c rtu_api \<Rightarrow> 'c modbus_client \<Rightarrow> 'c modbus_server \<Rightarrow>
     ('c, 'a) callbacks \<Rightarrow> slave_call set \<Rightarrow> ('c, 'a) sstate \<Rightarrow> ('c, 'a) sstate \<Rightarrow> bool"
  for K A L R M SV cb ks where
  s_setBackend: "Server_setBackend K L R SV st n conn s = Inr (ok, st') \<Longrightarrow> srv_step K A L R M SV cb ks st st'"
| s_addSlave: "Server_addSlave M st a dv = Inr st' \<Longrightarrow> srv_step K A L R M SV cb ks st st'"
| s_open: "Server_open K L SV st = Inr (ok, st') \<Longrightarrow> srv_step K A L R M SV cb ks st st'"
| s_close: "Server_close L SV st = Inr st' \<Longrightarrow> srv_step K A L R M SV cb ks st st'"
| s_run: "Server_run st = Inr (ok, st') \<Longrightarrow> srv_step K A L R M SV cb ks st st'"
| s_terminate: "Server_terminate SV st = Inr st' \<Longrightarrow> srv_step K A L R M SV cb ks st st'"
| s_setMessageCallback: "srv_step K A L R M SV cb ks st (Server_setMessageCallback st k)"
| s_setRecoveryLink: "server_call (\<lambda>(e, d). case Device_setRecoveryLink d b of (ok, d') \<Rightarrow> Inr (ok, e, d')) st
      = Inr (ok, st') \<Longrightarrow> srv_step K A L R M SV cb ks st st'"
| s_setDebug: "server_call (\<lambda>s. Device_setDebug L s b) st = Inr (ok, st') \<Longrightarrow> srv_step K A L R M SV cb ks st st'"
| s_flush: "server_call (Device_flush L) st = Inr (rc, st') \<Longrightarrow> srv_step K A L R M SV cb ks st st'"
| s_setTimeout: "server_call (\<lambda>s. Device_setTimeout f s t) st = Inr (ok, st') \<Longrightarrow> srv_step K A L R M SV cb ks st st'"
| s_getTimeout: "server_call (\<lambda>s. and_then (Device_getTimeout g s) (\<lambda>(ok, t, s'). Inr ((ok, t), s'))) st
      = Inr (x, st') \<Longrightarrow> srv_step K A L R M SV cb ks st st'"
| s_layer: "server_call (Device_call f) st = Inr (rc, st') \<Longrightarrow> srv_step K A L R M SV cb ks st st'"
| s_send: "Server_sendRawMessage fuel L R SV (Server_Private_open K L SV) st msg p = Some (Inr (rc, st', msg')) \<Longrightarrow>
      srv_step K A L R M SV cb ks st st'"
| s_poll: "Server_poll K L M SV cb (Server_Private_open K L SV) t st = Inr (rc, st') \<Longrightarrow>
      srv_step K A L R M SV cb ks st st'"
| s_received: "receiveTask (snd st) = Receiving \<Longrightarrow> Server_receive_async K L SV st = Inr st' \<Longrightarrow>
      srv_step K A L R M SV cb ks st st'"
| s_loop: "Server_loop_step K L M SV cb (Server_Private_open K L SV) st = Inr st' \<Longrightarrow>
      srv_step K A L R M SV cb ks st st'"
| s_slave: "k \<in> ks \<Longrightarrow> srv_slaves v a = Some s \<Longrightarrow> bslave_step K A M k (w, s) (w', s') \<Longrightarrow>
      srv_step K A L R M SV cb ks (w, v) (w', v\<lparr>srv_slaves := (srv_slaves v)(a \<mapsto> s')\<rparr>)"

inductive srv_reach ::
    "mb_consts \<Rightarrow> memory \<Rightarrow> 'c modbus_link \<Rightarrow> 'c rtu_api \<Rightarrow> 'c modbus_client \<Rightarrow> 'c modbus_server \<Rightarrow>
     ('c, unit) callbacks \<Rightarrow> slave_call set \<Rightarrow> ('c, unit) sstate \<Rightarrow> bool"
  for K A L R M SV cb ks where
  s_new: "srv_reach K A L R M SV cb ks (Server_new i w)"
| s_step: "srv_reach K A L R M SV cb ks st \<Longrightarrow> srv_step K A L R M SV cb ks st st' \<Longrightarrow> srv_reach K A L R M SV cb ks st'"

text \<open>What the lemmas on steps suppose of the environment.\<close>

definition env_ok :: "memory \<Rightarrow> 'c modbus_server \<Rightarrow> ('c, 'a) callbacks \<Rightarrow> bool" where
  "env_ok A SV cb \<longleftrightarrow> memory_ok A \<and> reply_ok SV \<and> callbacks_ok cb"

lemma Server_poll_frame:
  assumes "env_ok A SV cb" and "opener_ok opn" and "Server_poll K L M SV cb opn t st = Inr (rc, st')"
  shows "srv_frame st st'"
proof (cases "\<not> Server_isRunning st \<and> Server_isOpen st")
  case True
  define st1 where "st1 = (fst st, if receiveTask (snd st) = NoTask then (snd st)\<lparr>receiveTask := Receiving\<rparr> else snd st)"
  define read where "read = (if receiveTask (snd st1) = Receiving \<and> t then Server_receive_async K L SV st1 else Inr st1)"
  have "and_then read (\<lambda>st2. case receiveTask (snd st2) of
      Received rc \<Rightarrow> Server_task K L M SV cb opn rc (fst st2, (snd st2)\<lparr>receiveTask := NoTask\<rparr>)
    | _ \<Rightarrow> Inr (0, st2)) = Inr (rc, st')"
    using assms(3) unfolding Server_poll_def Let_def if_P [OF True] st1_def [symmetric] read_def [symmetric] .
  then obtain st2 where 2: "read = Inr st2"
    and 3: "(case receiveTask (snd st2) of
        Received rc \<Rightarrow> Server_task K L M SV cb opn rc (fst st2, (snd st2)\<lparr>receiveTask := NoTask\<rparr>)
      | _ \<Rightarrow> Inr (0, st2)) = Inr (rc, st')"
    by (rule and_then_InrE)
  have 1: "srv_frame st st1" by (cases st) (simp add: st1_def)
  have "srv_frame st1 st2"
    using 2 Server_receive_async_frame [of K L SV st1 st2]
    by (cases "receiveTask (snd st1) = Receiving \<and> t") (auto simp: read_def)
  moreover have "srv_frame st2 st'"
  proof (cases "receiveTask (snd st2)")
    case (Received r)
    with 3 have "Server_task K L M SV cb opn r (fst st2, (snd st2)\<lparr>receiveTask := NoTask\<rparr>) = Inr (rc, st')"
      by simp
    then have "srv_frame (fst st2, (snd st2)\<lparr>receiveTask := NoTask\<rparr>) st'"
      using Server_task_frame assms(1,2) unfolding env_ok_def by blast
    then show ?thesis
      using srv_frame_trans [of st2 "(fst st2, (snd st2)\<lparr>receiveTask := NoTask\<rparr>)" st'] by simp
  qed (use 3 in simp_all)
  ultimately show ?thesis using 1 srv_frame_trans by blast
next
  case False
  then show ?thesis using assms(3) by (auto simp: Server_poll_def)
qed

lemma Server_loop_step_frame:
  assumes "env_ok A SV cb" and "opener_ok opn" and "Server_loop_step K L M SV cb opn st = Inr st'"
  shows "srv_frame st st'"
proof (cases "daemon (snd st) \<and> \<not> stop_set (snd st)")
  case True
  with assms(3) obtain x e w v
    where t: "in_thread (daemon_errno (snd st)) (Server_iteration K L M SV cb opn) st = Inr (x, e, w, v)"
    and st': "st' = (w, v\<lparr>daemon_errno := e\<rparr>)"
    by (auto simp: Server_loop_step_def and_then_eq_Inr)
  have "srv_frame s s'" if i: "Server_iteration K L M SV cb opn s = Inr (y, s')" for s y s'
  proof -
    obtain rc s1 where "Server_receive K L SV s = Inr (rc, s1)"
      and "Server_task K L M SV cb opn rc s1 = Inr (y, s')"
      using i unfolding Server_iteration_def by (rule and_then_pairE) simp
    then show ?thesis
      using Server_receive_frame Server_task_frame assms(1,2) srv_frame_trans unfolding env_ok_def by blast
  qed
  then show ?thesis using in_thread_frame [OF t] by (simp add: st')
next
  case False
  then show ?thesis using assms(3) by (auto simp: Server_loop_step_def)
qed

lemma map_ok_empty [simp]: "map_ok empty_mapping" "map_safe empty_mapping"
  by (simp_all add: map_ok_def map_safe_def empty_mapping_def empty_block_def block_ok_def block_safe_def)

lemma srv_step_setBackend:
  assumes "Server_setBackend K L R SV st n conn s = Inr (ok, st')" and "srv_inv ks st"
  shows "srv_inv ks st' \<and> snd st' = snd st"
proof (cases "Device_isValid (Server_device st)")
  case True
  then show ?thesis using assms by (simp add: Server_setBackend_def)
next
  case False
  define filter where "filter = (\<lambda>(u :: unit, st1 :: ('a, 'b) sstate).
      if MODBUSPP_HAVE_RTU_MULTI_SLAVES SV \<and> n = Rtu
      then and_then (server_call (Device_call (\<lambda>c. modbus_rtu_set_recv_filter SV c False)) st1) (\<lambda>(_, st2). Inr st2)
      else Inr st1)"
  have "Server_Private_setBackend K L R SV st n conn s = Inr st'"
    using assms(1) False by (auto simp: Server_setBackend_def and_then_eq_Inr)
  then have "and_then (server_call (\<lambda>(e, d). and_then (Device_Private_setBackend K L R d n conn s)
      (\<lambda>d'. Inr ((), e, d'))) st) filter = Inr st'"
    unfolding Server_Private_setBackend_def filter_def .
  then obtain u st1 where c: "server_call (\<lambda>(e, d). and_then (Device_Private_setBackend K L R d n conn s)
      (\<lambda>d'. Inr ((), e, d'))) st = Inr (u, st1)" and 2: "filter (u, st1) = Inr st'"
    by (rule and_then_pairE)
  have d: "Device_Private_setBackend K L R (Server_device st) n conn s = Inr (Server_device st1)"
    and v: "snd st1 = snd st"
    using server_call_world [OF c] by (auto simp: and_then_eq_Inr)
  obtain l where "Server_device st1 = (Server_device st)\<lparr>dev_backend := Some l\<rparr>" "nl_net l \<noteq> NoNet"
    using Device_setBackend_layer [OF d] by auto
  moreover have "\<not> Device_isOpen (Server_device st)"
    using assms(2) False by (auto simp: srv_inv_def dev_inv_def)
  ultimately have i: "srv_inv ks st1"
    using assms(2) v by (auto simp: srv_inv_def dev_inv_def Server_isOpen_def Device_isOpen_def Device_isValid_def)
  have "st' = st1 \<or> (\<exists>r. server_call (Device_call (\<lambda>c. modbus_rtu_set_recv_filter SV c False)) st1 = Inr (r, st'))"
    using 2 by (auto simp: filter_def and_then_eq_Inr split: if_splits)
  then show ?thesis
  proof
    assume "\<exists>r. server_call (Device_call (\<lambda>c. modbus_rtu_set_recv_filter SV c False)) st1 = Inr (r, st')"
    then obtain r where r: "server_call (Device_call (\<lambda>c. modbus_rtu_set_recv_filter SV c False)) st1 = Inr (r, st')" ..
    then show ?thesis
      using srv_inv_frame [OF i server_ctx_frame [OF r]] server_call_world [OF r] v by simp
  qed (use i v in simp)
qed

lemma srv_step_addSlave:
  assumes "Server_addSlave M st a dv = Inr st'" and "srv_inv ks st"
  shows "srv_inv ks st' \<and> stop_set (snd st') = stop_set (snd st) \<and> \<not> Server_isOpen st"
proof -
  obtain w v s where c: "server_call (Device_call (\<lambda>c. modbus_set_slave M c a)) st = Inr (0, w, v)"
    and o: "\<not> Server_isOpen st"
    and s: "s = (case srv_slaves v a of Some s \<Rightarrow> Slave_setDevice s dv
        | None \<Rightarrow> BufferedSlave_Private_at empty_mapping a dv)"
    and st': "st' = (w, v\<lparr>srv_slaves := (srv_slaves v)(a \<mapsto> s)\<rparr>)"
    using assms(1) by (auto simp: Server_addSlave_def Server_Private_addSlave_def and_then_eq_Inr split: if_splits)
  have i: "srv_inv ks (w, v)" using assms(2) server_ctx_frame [OF c] by (rule srv_inv_frame)
  have "slave_ok ks a s"
    using i by (auto simp: s srv_inv_def slave_ok_def Slave_setDevice_def BufferedSlave_Private_at_def BufferedSlave_Private_def
        slave.extend_def split: option.split)
  then show ?thesis
    using i o server_call_world [OF c] by (auto simp: st' srv_inv_def Server_isOpen_def)
qed

lemma srv_step_close:
  assumes "Server_close L SV st = Inr st'" and "srv_inv ks st"
  shows "srv_inv ks st' \<and> (stop_set (snd st) \<longrightarrow> stop_set (snd st'))"
proof (cases "Server_isOpen st")
  case True
  then obtain st1 where t: "Server_terminate SV st = Inr st1" and c: "Server_Device_close L SV st1 = Inr st'"
    using assms(1) by (auto simp: Server_close_def and_then_eq_Inr)
  note i = Server_terminate_inv [OF t assms(2)]
  show ?thesis
  proof (cases "Server_isOpen st1")
    case True
    with c obtain st2 where p: "Server_Private_close L SV st1 = Inr st2" and st': "st' = put_isOpen False st2"
      by (auto simp: Server_Device_close_def and_then_eq_Inr)
    note f = Server_Private_close_frame [OF p]
    then have "srv_inv ks st2" "\<not> daemon (snd st2)" "stop_set (snd st2) = stop_set (snd st1)"
      using i srv_inv_frame by (blast, simp_all add: srv_frame_def)
    then show ?thesis using i by (auto simp: st' intro: srv_inv_put)
  qed (use c i in \<open>simp add: Server_Device_close_def\<close>)
qed (use assms in \<open>simp add: Server_close_def\<close>)

lemma srv_step_run:
  assumes "Server_run st = Inr (ok, st')" and "srv_inv ks st"
  shows "srv_inv ks st' \<and> stop_set (snd st') = stop_set (snd st)"
proof (cases "\<not> Server_isRunning st \<and> Server_isOpen st")
  case True
  with assms(1) have "\<not> stop_taken (snd st)"
    and "st' = (fst st, (snd st)\<lparr>stop_taken := True, daemon := True, daemon_errno := ENOERR\<rparr>)"
    by (auto simp: Server_run_def split: if_splits)
  then show ?thesis
    using True assms(2) by (auto simp: srv_inv_def Server_isOpen_def Server_isRunning_def)
next
  case False
  then show ?thesis using assms by (auto simp: Server_run_def)
qed

lemma srv_inv_slave:
  assumes "srv_inv ks (w, v)" and "\<forall>d. same_device (w_devices w d) (w_devices w' d)" and "slave_ok ks a s'"
  shows "srv_inv ks (w', v\<lparr>srv_slaves := (srv_slaves v)(a \<mapsto> s')\<rparr>)"
proof -
  have "srv_frame (w, v) (w', v)"
    using assms(2) by (simp add: srv_frame_def Server_device_def slave_kept_def)
  then have "srv_inv ks (w', v)" by (rule srv_inv_frame [OF assms(1)])
  then show ?thesis using assms(3) by (simp add: srv_inv_def Server_isOpen_def)
qed

lemma srv_step_slave:
  assumes "memory_ok A" and "srv_inv ks (w, v)" and "k \<in> ks" and "srv_slaves v a = Some s"
    and "bslave_step K A M k (w, s) (w', s')"
  shows "srv_inv ks (w', v\<lparr>srv_slaves := (srv_slaves v)(a \<mapsto> s')\<rparr>)"
proof (rule srv_inv_slave [OF assms(2)])
  have k: "calls_keep {k} (w, s) (w', s')" using assms(1,5) by (rule bslave_step_keeps)
  then show "\<forall>d. same_device (w_devices w d) (w_devices w' d)" by (simp add: calls_keep_def)
  have "slave_ok ks a s" using assms(2,4) by (simp add: srv_inv_def)
  then show "slave_ok ks a s'" using k assms(3) by (auto simp: slave_ok_def calls_keep_def)
qed

lemma srv_step_keeps:
  assumes "env_ok A SV cb" and "srv_step K A L R M SV cb ks st st'" and "srv_inv ks st"
  shows "srv_inv ks st' \<and> (stop_set (snd st) \<longrightarrow> stop_set (snd st'))"
proof -
  have framed: ?thesis if "srv_frame st st'"
    using srv_inv_frame [OF assms(3) that] that by (simp add: srv_frame_def)
  from assms(2) show ?thesis
  proof cases
    case (s_setBackend n conn s ok)
    then show ?thesis using srv_step_setBackend assms(3) by fastforce
  next
    case (s_addSlave a dv)
    then show ?thesis using srv_step_addSlave assms(3) by blast
  next
    case (s_open ok)
    then have o: "Server_open_by (Server_Private_open K L SV) st = Inr (ok, st')" by (simp add: Server_open_def)
    show ?thesis using Server_open_by_inv [OF Server_open_ok o assms(3)] by simp
  next
    case s_close
    then show ?thesis using srv_step_close assms(3) by blast
  next
    case (s_run ok)
    then show ?thesis using srv_step_run assms(3) by blast
  next
    case s_terminate
    then show ?thesis using Server_terminate_inv assms(3) by blast
  next
    case (s_setMessageCallback k)
    then show ?thesis using assms(3) by (cases st) (simp add: Server_setMessageCallback_def)
  next
    case (s_setRecoveryLink b ok)
    have "snd st' = snd st" and d: "Server_device st' = (Server_device st)\<lparr>dev_recoveryLink := b\<rparr>"
      using server_call_world [OF s_setRecoveryLink] by (auto simp: Device_setRecoveryLink_def)
    then show ?thesis
      using assms(3) by (auto simp: srv_inv_def dev_inv_def Server_isOpen_def Device_isOpen_def Device_isValid_def)
  next
    case (s_setDebug b ok)
    have v: "snd st' = snd st"
      and d: "Device_setDebug L (w_errno (fst st), Server_device st) b = Inr (ok, w_errno (fst st'), Server_device st')"
      using server_call_world [OF s_setDebug] by simp_all
    have "dev_isOpen (Server_device st') = dev_isOpen (Server_device st)"
      using Device_setDebug_keeps [OF d] by simp
    moreover have "dev_inv (Server_device st')"
      using dev_step_keeps [OF step_setDebug [OF d]] assms(3) by (simp add: srv_inv_def)
    ultimately show ?thesis
      using assms(3) v by (simp add: srv_inv_def Server_isOpen_def Device_isOpen_def)
  next
    case (s_flush rc)
    then show ?thesis by (intro framed server_call_frame [OF s_flush] Device_flush_same)
  next
    case (s_setTimeout f t ok)
    then show ?thesis by (intro framed server_call_frame [OF s_setTimeout] Device_setTimeout_same)
  next
    case (s_getTimeout g x)
    have "srv_frame st st'"
      using s_getTimeout by (rule server_call_frame) (auto simp: and_then_eq_Inr dest: Device_getTimeout_same)
    then show ?thesis by (rule framed)
  next
    case (s_layer f rc)
    then show ?thesis using framed server_ctx_frame by blast
  next
    case (s_send fuel msg p rc msg')
    then show ?thesis using framed Server_sendRawMessage_frame [OF Server_open_ok] by blast
  next
    case (s_poll t rc)
    then show ?thesis using framed Server_poll_frame [OF assms(1) Server_open_ok] by blast
  next
    case s_received
    then show ?thesis using framed Server_receive_async_frame by blast
  next
    case s_loop
    then show ?thesis using framed Server_loop_step_frame [OF assms(1) Server_open_ok] by blast
  next
    case (s_slave k v a s w w' s')
    then show ?thesis using srv_step_slave [of A ks w v k a s K M w' s'] assms(1,3) by (simp add: env_ok_def)
  qed
qed

lemma srv_reach_inv:
  assumes "srv_reach K A L R M SV cb ks st" and "env_ok A SV cb"
  shows "srv_inv ks st"
  using assms
proof induction
  case (s_new i w)
  then show ?case
    by (simp add: srv_inv_def Server_new_def Server_Private_def Server_device_def Server_isOpen_def Device_isOpen_def Device_new_def dev_inv_def)
next
  case (s_step st st')
  then show ?case using srv_step_keeps by blast
qed

end
