(* ===== verification/Server_Props.thy ===== *)
theory Server_Props
  imports Server_Steps
begin

text \<open>
  What holds of a server: its reachable states, the second \<open>run\<close>, the requests that it serves
  from its tables, the requests for a slave that it does not have, and the difference between
  \<open>poll\<close> and \<open>run\<close> on a frame with a bad CRC.
\<close>

section \<open>Reachable states\<close>

text \<open>C5. In every state that the calls of a server, its own, the inherited ones and any calls on its
  slaves, and its threads can produce, step by step: a running server is open; an open one has a
  layer and a request to receive into; a table of a slave has either no memory at all or exactly
  the elements that its size says; as long as no \<open>setBlock\<close> has failed every table has its memory,
  and as long as the program sets no number every slave has the number it is stored under;
  \<open>terminate\<close> does not throw, and after it, with the thread joined, the server does not run. What
  is relied on (\<open>env_ok\<close>): the allocator and \<open>modbus_reply\<close> do what they document, and a callback of
  the program leaves alone the link and the flags of the server's device, its thread, and the set
  and the numbers of its slaves, and keeps their tables in agreement with their sizes.\<close>

theorem server_reachable_states:
  assumes "srv_reach K A L R M SV cb ks st" and "env_ok A SV cb"
  shows "(Server_isRunning st \<longrightarrow> Server_isOpen st) \<and>
    (Server_isOpen st \<longrightarrow> Device_isValid (Server_device st) \<and> req (snd st) \<noteq> None) \<and>
    (\<forall>a s. Server_index st a = Inr s \<longrightarrow> map_safe (bmap s) \<and>
       (Resize_failed \<notin> ks \<longrightarrow> map_ok (bmap s)) \<and> (Set_number \<notin> ks \<longrightarrow> slave_id s = a)) \<and>
    (\<exists>st'. Server_terminate SV st = Inr st' \<and> \<not> Server_isRunning st')"
proof -
  have i: "srv_inv ks st" using assms by (rule srv_reach_inv)
  obtain st' where t: "Server_terminate SV st = Inr st'"
    using Server_terminate_effect [OF i, of SV] by blast
  have "slave_ok ks a s" if "Server_index st a = Inr s" for a s
    using that i by (auto simp: Server_index_def map_at_def srv_inv_def split: option.splits)
  moreover have "\<not> Server_isRunning st'"
    using Server_terminate_inv [OF t i] by (simp add: Server_isRunning_def)
  ultimately show ?thesis
    using i t by (auto simp: srv_inv_def slave_ok_def dev_inv_def Server_isRunning_def Server_isOpen_def)
qed

text \<open>C23. A server whose thread has been terminated never runs again: however the program goes on,
  \<open>run\<close> on the open server throws \<open>std::future_error\<close>, because the future of the promise
  can be taken only once.\<close>

theorem server_runs_once:
  assumes "srv_reach K A L R M SV cb ks st" and "env_ok A SV cb" and "Server_isRunning st"
    and "Server_terminate SV st = Inr st1" and "rtranclp (srv_step K A L R M SV cb ks) st1 st2"
    and "Server_isOpen st2"
  shows "Server_run st2 = Inl Future_error"
proof -
  have i: "srv_inv ks st" using assms(1,2) by (rule srv_reach_inv)
  have 1: "srv_inv ks st1" "stop_set (snd st1)"
    using Server_terminate_inv [OF assms(4) i] assms(3) by (simp_all add: Server_isRunning_def)
  have "srv_inv ks st2 \<and> stop_set (snd st2)"
    using assms(5) by induction (use 1 srv_step_keeps [OF assms(2)] in blast)+
  then show ?thesis
    using assms(6) by (auto simp: srv_inv_def Server_run_def Server_isRunning_def)
qed

section \<open>Serving\<close>

lemma on_slave_same:
  assumes "srv_slaves (snd st) a = Some s" and "f (fst st, s) = Inr (x, fst st, s)"
  shows "on_slave a f st = Inr (x, st)"
proof -
  have "(srv_slaves (snd st))(a \<mapsto> s) = srv_slaves (snd st)" using assms(1) by auto
  then have "(fst st, (snd st)\<lparr>srv_slaves := (srv_slaves (snd st))(a \<mapsto> s)\<rparr>) = st" by (cases st) simp
  then show ?thesis using assms by (simp add: on_slave_def)
qed

text \<open>A call on the context of the server's device, with all that it changes.\<close>

lemma server_call_exact:
  assumes "dev_backend (Server_device st) = Some l"
  shows "server_call (Device_call f) st = (case f (ctx l) of (rc, e, c) \<Rightarrow>
    Inr (rc, (fst st)\<lparr>w_errno := set_errno e (w_errno (fst st)),
        w_devices := (w_devices (fst st))(srv_dev (snd st) :=
          (Server_device st)\<lparr>dev_backend := Some (l\<lparr>ctx := c\<rparr>)\<rparr>)\<rparr>, snd st))"
  using assms
  by (simp add: server_call_def on_device_def Device_call_def on_ctx_def Server_device_def split: prod.split)

lemma server_call_reply:
  assumes "dev_backend (Server_device st) = Some l"
  shows "\<exists>w l'. server_call (Device_call (\<lambda>_. (rc, e, c))) st = Inr (rc, w, snd st) \<and>
    dev_backend (Server_device (w, snd st)) = Some l' \<and> ctx l' = c"
  by (simp add: server_call_exact [OF assms]) (simp add: Server_device_def)

lemma server_call_at:
  "dev_backend (Server_device st) = Some l \<Longrightarrow>
   server_call (Device_call f) st = server_call (Device_call (\<lambda>_. f (ctx l))) st"
  by (simp add: server_call_def on_device_def Device_call_def Server_device_def)

lemma offline_device_calls:
  assumes "\<not> Slave_isOpen w s"
  shows "BufferedSlave_readFromDevice K M (w, s) (Some m) = Inr (0, w, s)"
    and "BufferedSlave_writeToDevice M (w, s) (Some m) = Inr (0, w, s)"
  using assms by (simp_all add: BufferedSlave_readFromDevice_def BufferedSlave_writeToDevice_def)

text \<open>The device of a slave is open after a call on the server's device exactly when it was.\<close>

lemma server_call_isOpen:
  assumes "server_call (Device_call f) st = Inr (rc, w, v)"
  shows "Slave_isOpen w (s :: 'b slave_scheme) = Slave_isOpen (fst st) s"
proof -
  have "same_device (w_devices (fst st) d) (w_devices w d)" for d
    using server_call_world [OF assms] conjunct2 [OF server_call_same [OF assms]] Device_call_same
    by (cases "d = srv_dev (snd st)") (fastforce simp: Server_device_def)+
  then have "only_ctx (Some (srv_dev (snd st))) (fst st) w"
    using server_call_world [OF assms] by (simp add: only_ctx_def)
  then show ?thesis by (rule only_ctx_isOpen)
qed

text \<open>C6. A request for a slave of the server without an open device and without callbacks before and
  after the reply is answered by \<open>modbus_reply\<close> on the request, its length and the tables of that
  slave, after the slave has been selected, and the task returns 0, also when the reply fails. The
  tables of the slave become what \<open>modbus_reply\<close> makes of them; of the server nothing else changes, no
  other device is touched, and of its own device nothing but the context (the link stays open, with
  its settings) that the two calls of the library leave, and their \<open>errno\<close>.\<close>

theorem server_serves_from_tables:
  assumes "0 < rc" and "req (snd st) = Some m" and "Message_slave m = Inr b"
    and "srv_slaves (snd st) (uint b) = Some s" and "\<not> Slave_isOpen (fst st) s"
    and "beforeReplyCB s = None" and "afterReplyCB s = None"
    and "dev_backend (Server_device st) = Some l" and "modbus_set_slave M (ctx l) (uint b) = (0, e1, c1)"
    and "modbus_reply SV c1 (adu m) rc (bmap s) = (map', r, e2, c2)"
  shows "Server_task K L M SV cb opn rc st
    = Inr (0, (fst st)\<lparr>w_errno := set_errno e2 (set_errno e1 (w_errno (fst st))),
          w_devices := (w_devices (fst st))(srv_dev (snd st) :=
            (Server_device st)\<lparr>dev_backend := Some (l\<lparr>ctx := c2\<rparr>)\<rparr>)\<rparr>,
        (snd st)\<lparr>srv_slaves := (srv_slaves (snd st))(uint b \<mapsto> s\<lparr>bmap := map'\<rparr>)\<rparr>)"
proof -
  let ?w1 = "(fst st)\<lparr>w_errno := set_errno e1 (w_errno (fst st)),
      w_devices := (w_devices (fst st))(srv_dev (snd st) := (Server_device st)\<lparr>dev_backend := Some (l\<lparr>ctx := c1\<rparr>)\<rparr>)\<rparr>"
  let ?w2 = "(fst st)\<lparr>w_errno := set_errno e2 (set_errno e1 (w_errno (fst st))),
      w_devices := (w_devices (fst st))(srv_dev (snd st) := (Server_device st)\<lparr>dev_backend := Some (l\<lparr>ctx := c2\<rparr>)\<rparr>)\<rparr>"
  have d1: "Server_device (?w1, snd st) = (Server_device st)\<lparr>dev_backend := Some (l\<lparr>ctx := c1\<rparr>)\<rparr>"
    by (simp add: Server_device_def)
  have 1: "server_call (Device_call (\<lambda>c. modbus_set_slave M c (uint b))) st = Inr (0, ?w1, snd st)"
    using server_call_exact [OF assms(8), of "\<lambda>c. modbus_set_slave M c (uint b)"] assms(9) by simp
  have o1: "\<not> Slave_isOpen ?w1 s" using server_call_isOpen [OF 1, of s] assms(5) by simp
  have 2: "on_slave (uint b) (\<lambda>x. BufferedSlave_readFromDevice K M x (Some m)) (?w1, snd st) = Inr (0, ?w1, snd st)"
    by (rule on_slave_same) (use assms(4) offline_device_calls(1) [OF o1] in simp_all)
  have 3: "server_call (Device_call (\<lambda>_. (r, e2, c2))) (?w1, snd st) = Inr (r, ?w2, snd st)"
    using server_call_exact [of "(?w1, snd st)" "l\<lparr>ctx := c1\<rparr>" "\<lambda>_. (r, e2, c2)"] d1 by (simp add: Server_device_def)
  let ?s = "s\<lparr>bmap := map'\<rparr>"
  let ?v = "(snd st)\<lparr>srv_slaves := (srv_slaves (snd st))(uint b \<mapsto> ?s)\<rparr>"
  have 4: "Server_reply SV (uint b) rc (?w1, snd st) = Inr (r, ?w2, ?v)"
    using assms(2,4,10) d1 3 by (simp add: Server_reply_def)
  have o2: "\<not> Slave_isOpen ?w2 ?s"
    using server_call_isOpen [OF 3, of ?s] o1 by simp
  have "on_slave (uint b) (\<lambda>x. BufferedSlave_writeToDevice M x (Some m)) (?w2, ?v) = Inr (0, ?w2, ?v)"
    by (rule on_slave_same) (use offline_device_calls(2) [OF o2] in simp_all)
  then have 5: "Server_after_reply M cb (uint b) (?w2, ?v) = Inr (0, ?w2, ?v)"
    using assms(2,7) by (simp add: Server_after_reply_def run_callback_def)
  have "Server_serve K M SV cb (uint b) rc st = Inr (0, ?w2, ?v)"
    using assms(2,4,6) 1 2 4 5 by (simp add: Server_serve_def run_callback_def)
  then show ?thesis
    using assms(1-4) by (simp add: Server_task_def Server_hasSlave_def)
qed

text \<open>A request for a slave that the server does not have goes to the callback of
  \<open>setMessageCallback\<close>; without that call the pointer that the task reads was never
  initialised.\<close>

theorem server_unknown_slave:
  assumes "0 < rc" and "req (snd st) = Some m" and "Message_slave m = Inr b"
    and "srv_slaves (snd st) (uint b) = None"
  shows "Server_task K L M SV cb opn rc st = (case messageCB (snd st) of
      None \<Rightarrow> Inl Undefined_behaviour
    | Some None \<Rightarrow> Inr (rc, st)
    | Some (Some n) \<Rightarrow> cb n st)
    \<and> messageCB (snd (Server_new i w)) = None"
  using assms
  by (cases "messageCB (snd st)")
    (simp_all add: Server_task_def Server_hasSlave_def Server_messageCallback_def Server_new_def Server_Private_def)

text \<open>C35. A frame with a bad CRC (-1 with \<open>EMBBADCRC\<close>) is ignored by the thread of \<open>run\<close>, which
  goes on with the link as it is; with \<open>poll\<close> and the recovery of the link on, the same frame
  makes the server close and reopen its link: \<open>errno\<close> was set in the thread that received.\<close>

theorem poll_recovers_on_bad_crc:
  assumes "\<not> Server_isRunning st" and "Server_isOpen st" and "receiveTask (snd st) = NoTask"
    and "Server_receive K L SV ((fst st)\<lparr>w_errno := ENOERR\<rparr>, (snd st)\<lparr>receiveTask := Receiving\<rparr>) = Inr (-1, w, v)"
    and "w_errno w = EMBBADCRC" and "w_errno (fst st) \<noteq> EMBBADCRC"
    and "Device_recoveryLink (Server_device (w, v))"
  shows "Server_poll K L M SV cb opn True st
      = Server_recover L SV opn (w\<lparr>w_errno := w_errno (fst st)\<rparr>, v\<lparr>receiveTask := NoTask\<rparr>) \<and>
    Server_iteration K L M SV cb opn ((fst st)\<lparr>w_errno := ENOERR\<rparr>, (snd st)\<lparr>receiveTask := Receiving\<rparr>)
      = Inr (-1, w, v)"
proof -
  have "Server_receive_async K L SV (fst st, (snd st)\<lparr>receiveTask := Receiving\<rparr>)
      = Inr (w\<lparr>w_errno := w_errno (fst st)\<rparr>, v\<lparr>receiveTask := Received (-1)\<rparr>)"
    using assms(4) by (simp add: Server_receive_async_def in_thread_def)
  then have "Server_poll K L M SV cb opn True st
      = Server_recover L SV opn (w\<lparr>w_errno := w_errno (fst st)\<rparr>, v\<lparr>receiveTask := NoTask\<rparr>)"
    using assms(1-3,6,7) by (simp add: Server_poll_def Let_def Server_task_def)
  moreover have "Server_iteration K L M SV cb opn ((fst st)\<lparr>w_errno := ENOERR\<rparr>, (snd st)\<lparr>receiveTask := Receiving\<rparr>)
      = Inr (-1, w, v)"
    using assms(4,5) by (simp add: Server_iteration_def Server_task_def)
  ultimately show ?thesis ..
qed

section \<open>Witnesses\<close>

text \<open>The server calls of a peer: a context 0 receives a frame with a bad CRC, any other the sample
  request; replies fail.\<close>

definition sample_server_api :: "nat modbus_server" where
  "sample_server_api = \<lparr>modbus_rtu_set_recv_filter = (\<lambda>c _. (0, None, c)),
     modbus_tcp_pi_listen = (\<lambda>c _. (3, None, c)), modbus_tcp_pi_accept = (\<lambda>c s. (4, 4, None, c)),
     modbus_receive = (\<lambda>c. if c = 0 then ([], -1, Some EMBBADCRC, c) else ([3, 3, 0, 2, 0, 2, 0, 0], 6, None, c)),
     modbus_reply = (\<lambda>c q rc mp. (mp, -1, Some EPIPE, c)),
     sys_close = (\<lambda>c s. (0, None, c)), sys_shutdown = (\<lambda>c s. (0, None, c)),
     MODBUSPP_HAVE_RTU_MULTI_SLAVES = True\<rparr>"

definition sample_callbacks :: "(nat, unit) callbacks" where
  "sample_callbacks = (\<lambda>n st. Inr (0, st))"

definition sample_server :: "(nat, unit) sstate" where
  "sample_server = (sample_world, (Server_Private 0)\<lparr>req := Some sample_request,
     srv_slaves := [3 \<mapsto> sample_slave None]\<rparr>)"

lemma sample_env_ok: "env_ok sample_memory sample_server_api sample_callbacks"
  by (simp add: env_ok_def sample_memory_ok reply_ok_def callbacks_ok_def sample_server_api_def sample_callbacks_def)

lemma sample_running:
  obtains st where "srv_reach libmodbus_values sample_memory sample_link sample_api sample_client
      sample_server_api sample_callbacks ks st"
    and "Server_isRunning st" and "Server_isOpen st"
proof -
  let ?K = libmodbus_values
  let ?step = "srv_step ?K sample_memory sample_link sample_api sample_client sample_server_api sample_callbacks ks"
  let ?d = "sample_device 2\<lparr>dev_isOpen := False, dev_recoveryLink := False\<rparr>"
  let ?w = "sample_world\<lparr>w_devices := (w_devices sample_world)(0 := ?d)\<rparr>"
  let ?st1 = "(?w, Server_Private 0)"
  obtain l where l: "dev_backend ?d = Some l" and ok: "layer_ok ?K l"
    by (simp add: sample_device_def layer_ok_def libmodbus_values_def)
  obtain m where "Message_Private_layer ?K l = Inr m"
    using Message_Private_layer_wf [OF consts_ok_values ok] by blast
  then have m: "Request_device ?K ?d = Inr m"
    using l by (simp add: Request_device_def Device_backend_def Request_layer_def)
  have "Server_setBackend ?K sample_link sample_api sample_server_api (Server_new 0 sample_world) Tcp
      ''localhost'' ''1502'' = Inr (True, ?st1)"
    by (simp add: Server_setBackend_def Server_Private_setBackend_def Server_new_def Server_device_def
        server_call_def on_device_def Device_Private_setBackend_def TcpLayer_Private_def Device_new_def
        Device_isValid_def sample_link_def sample_world_def libmodbus_values_def sample_device_def Server_Private_def)
  then have 1: "?step (Server_new 0 sample_world) ?st1" by (rule s_setBackend)
  have p: "Server_Private_open ?K sample_link sample_server_api ?st1
      = Inr (True, ?w, (Server_Private 0)\<lparr>sock := 3, req := Some m\<rparr>)"
    using m
    by (simp add: Server_Private_open_def Server_device_def server_call_def on_device_def Device_call_def
        on_ctx_def Server_Private_def sample_device_def sample_server_api_def sample_world_def)
  let ?st2 = "put_isOpen True (?w, (Server_Private 0)\<lparr>sock := 3, req := Some m\<rparr>)"
  have "Server_open ?K sample_link sample_server_api ?st1 = Inr (True, ?st2)"
    using p
    by (simp add: Server_open_def Server_open_by_def Server_isOpen_def Device_isOpen_def Device_isValid_def
        Server_device_def Server_Private_def put_isOpen_def sample_device_def)
  then have 2: "?step ?st1 ?st2" by (rule s_open)
  let ?st3 = "(fst ?st2, (snd ?st2)\<lparr>stop_taken := True, daemon := True, daemon_errno := ENOERR\<rparr>)"
  have o: "Server_isOpen ?st2" by (simp add: Server_isOpen_def Device_isOpen_def)
  have run: "\<not> stop_taken (snd ?st2)" "\<not> daemon (snd ?st2)" by (simp_all add: Server_Private_def)
  have "Server_run ?st2 = Inr (True, ?st3)"
    using o run by (simp add: Server_run_def Server_isRunning_def)
  then have 3: "?step ?st2 ?st3" by (rule s_run)
  have "srv_reach ?K sample_memory sample_link sample_api sample_client sample_server_api sample_callbacks ks ?st3"
    using 1 2 3 by (blast intro: s_new s_step)
  moreover have "Server_isOpen ?st3"
    by (simp add: Server_isOpen_def Server_device_def put_isOpen_def Device_isOpen_def Server_Private_def)
  ultimately show thesis using that by (simp add: Server_isRunning_def)
qed

theorem server_reachable_states_witness:
  "\<exists>st :: (nat, unit) sstate. Server_isRunning st \<and> Device_isValid (Server_device st) \<and>
    (\<exists>st'. Server_terminate sample_server_api st = Inr st' \<and> \<not> Server_isRunning st')"
proof -
  obtain st where r: "srv_reach libmodbus_values sample_memory sample_link sample_api sample_client
      sample_server_api sample_callbacks UNIV st" and "Server_isRunning st"
    by (rule sample_running)
  then show ?thesis using server_reachable_states [OF r sample_env_ok] by blast
qed

theorem server_runs_once_witness:
  "\<exists>st st1 :: (nat, unit) sstate. Server_isRunning st \<and> Server_terminate sample_server_api st = Inr st1 \<and>
    Server_run st1 = Inl Future_error"
proof -
  obtain st where r: "srv_reach libmodbus_values sample_memory sample_link sample_api sample_client
      sample_server_api sample_callbacks UNIV st" and run: "Server_isRunning st" and o: "Server_isOpen st"
    by (rule sample_running)
  have i: "srv_inv UNIV st" using r sample_env_ok by (rule srv_reach_inv)
  obtain w where f: "srv_frame st (w, snd st)"
    and t: "Server_terminate sample_server_api st = Inr (w, (snd st)\<lparr>stop_set := True, daemon := False\<rparr>)"
    using Server_terminate_effect [OF i, of sample_server_api] run by (auto simp: Server_isRunning_def)
  have "Server_isOpen (w, (snd st)\<lparr>stop_set := True, daemon := False\<rparr>)"
    using srv_frame_open [OF f] o by (simp add: Server_isOpen_def)
  from server_runs_once [OF r sample_env_ok run t rtranclp.rtrancl_refl this] show ?thesis
    using run t by blast
qed

theorem server_serves_from_tables_witness:
  "\<exists>w. Server_task libmodbus_values sample_link sample_client sample_server_api sample_callbacks
      (Server_Private_open libmodbus_values sample_link sample_server_api) 6 sample_server
    = Inr (0, w, snd sample_server)"
proof -
  have "Message_slave sample_request = Inr 3"
    by (simp add: Message_slave_def Message_byte_def sample_request_def vget_def)
  moreover have "beforeReplyCB (sample_slave None) = None \<and> afterReplyCB (sample_slave None) = None"
    by (simp add: sample_slave_def BufferedSlave_Private_at_def BufferedSlave_Private_def slave.extend_def)
  moreover have "(srv_slaves (snd sample_server))(3 \<mapsto> (sample_slave None)\<lparr>bmap := sample_map\<rparr>) = srv_slaves (snd sample_server)"
    by (auto simp: sample_server_def sample_slave_def BufferedSlave_Private_at_def BufferedSlave_Private_def slave.extend_def)
  ultimately show ?thesis
    using server_serves_from_tables [where st = sample_server and rc = 6 and m = sample_request and b = 3
        and s = "sample_slave None" and l = "the (dev_backend (sample_device 0))" and M = sample_client
        and SV = sample_server_api and map' = sample_map and K = libmodbus_values and L = sample_link
        and cb = sample_callbacks and opn = "Server_Private_open libmodbus_values sample_link sample_server_api"
        and r = "-1" and ?e1.0 = None and ?c1.0 = 0 and ?e2.0 = "Some EPIPE" and ?c2.0 = 0]
    by (simp add: sample_server_def Server_device_def Server_Private_def sample_world_def sample_device_def
        sample_client_def sample_server_api_def)
qed

theorem server_unknown_slave_witness:
  "Server_task libmodbus_values sample_link sample_client sample_server_api sample_callbacks
      (Server_Private_open libmodbus_values sample_link sample_server_api) 6
      (sample_world, (Server_Private 0)\<lparr>req := Some sample_request\<rparr>)
    = Inl Undefined_behaviour"
proof -
  let ?st = "(sample_world, (Server_Private 0)\<lparr>req := Some sample_request\<rparr>)"
  have "Message_slave sample_request = Inr 3"
    by (simp add: Message_slave_def Message_byte_def sample_request_def vget_def)
  then have "Server_task libmodbus_values sample_link sample_client sample_server_api sample_callbacks
      (Server_Private_open libmodbus_values sample_link sample_server_api) 6 ?st
    = (case messageCB (snd ?st) of None \<Rightarrow> Inl Undefined_behaviour | Some None \<Rightarrow> Inr (6, ?st)
       | Some (Some n) \<Rightarrow> sample_callbacks n ?st)
    \<and> messageCB (snd (Server_new 0 sample_world)) = None"
    by (intro server_unknown_slave) (simp_all add: Server_Private_def)
  then show ?thesis by (simp add: Server_Private_def)
qed

theorem poll_recovers_on_bad_crc_witness:
  "\<exists>w v. Server_poll libmodbus_values sample_link sample_client sample_server_api sample_callbacks
      (Server_Private_open libmodbus_values sample_link sample_server_api) True sample_server
    = Server_recover sample_link sample_server_api
        (Server_Private_open libmodbus_values sample_link sample_server_api) (w, v)"
proof -
  let ?K = libmodbus_values
  let ?st = "((fst sample_server)\<lparr>w_errno := ENOERR\<rparr>, (snd sample_server)\<lparr>receiveTask := Receiving\<rparr>)"
  let ?w = "sample_world\<lparr>w_errno := EMBBADCRC\<rparr>"
  let ?v = "(snd sample_server)\<lparr>receiveTask := Receiving, req := Some (sample_request\<lparr>aduSize := 0\<rparr>)\<rparr>"
  have clear: "Message_clear ?K sample_request = Inr (sample_request\<lparr>aduSize := 0\<rparr>)"
    by (simp add: Message_clear_def sample_request_def vresize_def)
  have "Server_receive ?K sample_link sample_server_api ?st = Inr (-1, ?w, ?v)"
    using clear
    by (simp add: Server_receive_def sample_server_def Server_device_def sample_world_def sample_device_def
        Device_Private_isConnected_def sample_link_def sample_server_api_def vwrite_def server_call_def
        on_device_def Device_call_def on_ctx_def Server_Private_def fun_upd_idem)
  then show ?thesis
    using poll_recovers_on_bad_crc [where st = sample_server and K = ?K and L = sample_link and M = sample_client
        and SV = sample_server_api and cb = sample_callbacks and w = ?w and v = ?v
        and opn = "Server_Private_open libmodbus_values sample_link sample_server_api"]
    by (auto simp: sample_server_def Server_device_def Server_isOpen_def Device_isOpen_def Server_isRunning_def
        Device_recoveryLink_def Server_Private_def sample_world_def sample_device_def)
qed

end
