(* ===== verification/Message_Transport.thy ===== *)
theory Message_Transport
  imports Server_Props
begin

text \<open>
  A message from one end of a link to the other: the layer of the sender frames it, the link
  delivers the bytes of the frame, a master or a server puts them into a message of its own.
  What the receiver reads there is what the sender wrote.
\<close>

section \<open>The frame\<close>

text \<open>The bytes that a sender hands to the link.\<close>

definition frame_bytes :: "message \<Rightarrow> u8 list" where
  "frame_bytes m = take (aduSize m) (adu m)"

text \<open>Framing keeps the bytes from the address on, and adds two bytes on a serial line only.\<close>

lemma framed:
  assumes "NetLayer_prepareToSend l m = Inr (True, l', m')" and "msg_wf m" and "net m = Tcp \<longrightarrow> pduBegin m = 7"
  shows "net m \<noteq> NoNet" "1 \<le> Message_size m" "aduSize m' = aduSize m + (if net m = Rtu then 2 else 0)"
    "aduSize m' \<le> length (adu m')"
    "\<And>i. -1 \<le> i \<Longrightarrow> i < int (Message_size m) \<Longrightarrow> vget (frame_bytes m') (pduBegin m + i) = Message_byte m i"
proof -
  have wf: "1 \<le> pduBegin m" "aduSize m \<le> length (adu m)" "length (adu m) < 65536"
    using assms(2) wf_length [OF assms(2)] by (simp_all add: msg_wf_def)
  show ok: "net m \<noteq> NoNet" "1 \<le> Message_size m"
    using assms(1) by (auto simp: NetLayer_prepareToSend_def RtuLayer_prepareToSend_def TcpLayer_prepareToSend_def
        split: Net.splits if_splits)
  have size: "pduBegin m + int (Message_size m) = int (aduSize m)"
    using ok(2) by (auto simp: Message_size_def split: if_splits)
  have nl: "nl_net l = net m"
    using assms(1) by (auto simp: NetLayer_prepareToSend_def RtuLayer_prepareToSend_def TcpLayer_prepareToSend_def
        split: Net.splits if_splits)
  show "aduSize m' = aduSize m + (if net m = Rtu then 2 else 0)" "aduSize m' \<le> length (adu m')"
    "\<And>i. -1 \<le> i \<Longrightarrow> i < int (Message_size m) \<Longrightarrow> vget (frame_bytes m') (pduBegin m + i) = Message_byte m i"
  proof -
    consider "net m = Rtu" | "net m = Tcp" using ok(1) by (cases "net m") auto
    then have "aduSize m' = aduSize m + (if net m = Rtu then 2 else 0) \<and> aduSize m' \<le> length (adu m') \<and>
      (\<forall>k. 6 \<le> k \<or> net m = Rtu \<longrightarrow> k < aduSize m \<longrightarrow> frame_bytes m' ! k = adu m ! k)"
    proof cases
      case 1
      then have r: "RtuLayer_prepareToSend l m = Inr (True, l', m')" using assms(1) nl by (simp add: NetLayer_prepareToSend_def)
      have "aduSize m + 2 \<le> length (adu m)"
        using r RtuLayer_prepareToSend_no_room [OF 1 ok(2) wf(2) _ wf(3), of l] by (cases "aduSize m + 2 \<le> length (adu m)") auto
      then show ?thesis
        using r RtuLayer_prepareToSend_frame [OF 1 ok(2) _ wf(3), of l] 1
        by (auto simp: frame_bytes_def rtu_frame_def nth_append)
    next
      case 2
      then have r: "TcpLayer_prepareToSend l m = Inr (True, l', m')" using assms(1) nl by (simp add: NetLayer_prepareToSend_def)
      have "6 \<le> length (adu m)" using assms(2,3) 2 by (simp add: msg_wf_def)
      then show ?thesis
        using r TcpLayer_prepareToSend_frame [OF 2 ok(2), of l] 2 wf(2)
        by (auto simp: frame_bytes_def tcp_framed_def mbap_def nth_append)
    qed
    note f = this
    then show "aduSize m' = aduSize m + (if net m = Rtu then 2 else 0)" "aduSize m' \<le> length (adu m')" by blast+
    fix i
    assume i: "-1 \<le> i" "i < int (Message_size m)"
    then have k: "0 \<le> pduBegin m + i" "nat (pduBegin m + i) < aduSize m" using wf(1) size by linarith+
    have "6 \<le> nat (pduBegin m + i) \<or> net m = Rtu" using assms(3) ok(1) i(1) by (cases "net m") auto
    then have "frame_bytes m' ! nat (pduBegin m + i) = adu m ! nat (pduBegin m + i)" using f k(2) by blast
    moreover have "aduSize m \<le> length (frame_bytes m')" using f by (simp add: frame_bytes_def)
    moreover have "pduBegin m + i < int (aduSize m)" using i(2) size by simp
    ultimately show "vget (frame_bytes m') (pduBegin m + i) = Message_byte m i"
      using k(1) wf(2) by (auto simp: vget_def Message_byte_def)
  qed
qed

text \<open>A layer of the network of a message accepts it when there is room for the frame.\<close>

lemma prepared:
  assumes "msg_wf m" and "net m \<noteq> NoNet" and "nl_net l = net m" and "1 \<le> Message_size m"
    and "net m = Tcp \<longrightarrow> pduBegin m = 7" and "net m = Rtu \<longrightarrow> aduSize m + 2 \<le> length (adu m)"
  shows "\<exists>l' m'. NetLayer_prepareToSend l m = Inr (True, l', m') \<and> same_shape m m'"
proof (cases "net m")
  case Rtu
  then have room: "rtu_room m" using assms(1,6) wf_length [OF assms(1)] by (simp add: rtu_room_def msg_wf_def)
  show ?thesis
    using rtu.accepts [OF Rtu assms(4) room, of l] rtu.keeps [OF _ room, of l] assms(3) Rtu
    by (auto simp: NetLayer_prepareToSend_def)
next
  case Tcp
  then have room: "tcp_room m" using assms(1,5) by (simp add: tcp_room_def msg_wf_def)
  show ?thesis
    using tcp.accepts [OF Tcp assms(4) room, of l] tcp.keeps [OF _ room, of l] assms(3) Tcp
    by (auto simp: NetLayer_prepareToSend_def)
qed (use assms(2) in simp)

text \<open>A buffer into which the bytes of a frame were copied reads like the message.\<close>

definition reads_like :: "message \<Rightarrow> message \<Rightarrow> bool" where
  "reads_like m r \<longleftrightarrow> (\<forall>i. -1 \<le> i \<and> i < int (Message_size m) \<longrightarrow> Message_byte r i = Message_byte m i)"

lemma received:
  assumes "NetLayer_prepareToSend l m = Inr (True, l', m')" and "msg_wf m" and "net m = Tcp \<longrightarrow> pduBegin m = 7"
    and "vwrite xs 0 (frame_bytes m') = Inr a" and "adu r = a" and "pduBegin r = pduBegin m"
  shows "reads_like m r"
proof -
  note f = framed [OF assms(1-3)]
  have a: "a = frame_bytes m' @ drop (length (frame_bytes m')) xs"
    using assms(4) by (simp add: vwrite_def split: if_splits)
  have "Message_byte r i = Message_byte m i" if i: "-1 \<le> i" "i < int (Message_size m)" for i
  proof -
    have "pduBegin m + i < int (aduSize m)" using i f(2) by (auto simp: Message_size_def split: if_splits)
    moreover have "aduSize m \<le> length (frame_bytes m')" using f(3,4) by (simp add: frame_bytes_def)
    ultimately have "vget a (pduBegin m + i) = vget (frame_bytes m') (pduBegin m + i)"
      by (auto simp: a vget_def nth_append)
    then show ?thesis using f(5) [OF i] assms(5,6) by (simp add: Message_byte_def)
  qed
  then show ?thesis by (simp add: reads_like_def)
qed

section \<open>Responses\<close>

lemma response_delivered:
  assumes "NetLayer_prepareToSend l m = Inr (True, l', m')" and "msg_wf m" and "net m = Tcp \<longrightarrow> pduBegin m = 7"
    and "dev_backend (Master_device st) = Some lm" and "nl_net lm = net m"
    and "modbus_receive_confirmation MM (ctx lm) = (frame_bytes m', int (aduSize m'), e, c)"
    and "aduSize m' \<le> length (adu resp)" and "pduBegin resp = pduBegin m"
  shows "\<exists>st' resp'. Master_receiveResponse_msg MM st resp = Inr (int (aduSize m'), resp', st') \<and>
    aduSize resp' = aduSize m \<and> Message_size resp' = Message_size m \<and> reads_like m resp'"
proof -
  note f = framed [OF assms(1-3)]
  have len: "length (frame_bytes m') = aduSize m'" using f(4) by (simp add: frame_bytes_def)
  obtain a where a: "vwrite (adu resp) 0 (frame_bytes m') = Inr a"
    using assms(7) len by (simp add: vwrite_in)
  let ?resp' = "resp\<lparr>adu := a, aduSize := aduSize m\<rparr>"
  have small: "int (aduSize m) < 2 ^ 64" using assms(2) wf_length [OF assms(2)] by (simp add: msg_wf_def)
  have "0 < int (aduSize m')" using f(2,3) assms(2) by (auto simp: Message_size_def msg_wf_def split: if_splits)
  then have "\<exists>st'. Master_receiveResponse_msg MM st resp = Inr (int (aduSize m'), ?resp', st')"
    using assms(4,5,6) a f(1,3) small
    by (cases "net m") (auto simp: Master_receiveResponse_msg_def Master_receiveResponse_def master_call_def on_device_def
        Device_call_def on_ctx_def Device_isValid_def Device_net_def Device_backend_def Message_setAduSize_def Master_device_def)
  moreover have "reads_like m ?resp'"
    using received [OF assms(1-3) a, of ?resp'] assms(8) by simp
  moreover have "Message_size ?resp' = Message_size m" using assms(8) by (simp add: Message_size_def)
  ultimately show ?thesis by auto
qed

lemma reads_like_head:
  "reads_like m r \<Longrightarrow> 1 \<le> Message_size m \<Longrightarrow> Message_slave r = Message_slave m \<and> Message_function r = Message_function m"
  by (simp add: reads_like_def Message_slave_def Message_function_def)

text \<open>C7. A response that a layer frames and the link delivers to a master is the response that
  was written: when the buffer of the master's message has room for the frame, \<open>receiveResponse\<close>
  gives it the size of the sender's, with the CRC of a serial line removed, and the address and
  every byte of the PDU are those that the sender wrote.\<close>

theorem response_transported:
  assumes "NetLayer_prepareToSend l m = Inr (True, l', m')" and "msg_wf m" and "net m = Tcp \<longrightarrow> pduBegin m = 7"
    and "dev_backend (Master_device st) = Some lm" and "nl_net lm = net m"
    and "modbus_receive_confirmation MM (ctx lm) = (frame_bytes m', int (aduSize m'), e, c)"
    and "aduSize m' \<le> length (adu resp)" and "pduBegin resp = pduBegin m"
  shows "\<exists>st' resp'. Master_receiveResponse_msg MM st resp = Inr (int (aduSize m'), resp', st') \<and>
    aduSize resp' = aduSize m \<and> Message_size resp' = Message_size m \<and> reads_like m resp' \<and>
    Message_slave resp' = Message_slave m \<and> Message_function resp' = Message_function m"
  using response_delivered [OF assms] reads_like_head framed(2) [OF assms(1-3)] by blast

section \<open>Requests\<close>

lemma clear_defined:
  assumes "msg_wf q"
  obtains q1 where "Message_clear K q = Inr q1" "net q1 = net q" "pduBegin q1 = pduBegin q" "length (adu q1) = length (adu q)"
proof -
  let ?q = "q\<lparr>adu := vresize (adu q) (unat (maxAduLength q)), aduSize := 0\<rparr>"
  have "in_buf ?q (-1) 1" using assms by (auto simp: in_buf_def msg_wf_def simp del: of_nat_unat)
  then obtain q1 where s: "Message_setSlaveId ?q (MODBUS_TCP_SLAVE K) = Inr q1"
    unfolding Message_setSlaveId_def using setByte_defined by blast
  have sh: "same_shape ?q q1" using s setByte_shape by (simp add: Message_setSlaveId_def)
  have len: "length (adu ?q) = length (adu q)" using assms by (simp add: msg_wf_def)
  show ?thesis
  proof (cases "net q = Tcp")
    case True
    then have "Message_clear K q = Inr q1" using s by (simp add: Message_clear_def)
    then show ?thesis using same_shapeD(1,2,7) [OF sh] len by (intro that [of q1]) simp_all
  next
    case False
    then have "Message_clear K q = Inr ?q" by (simp add: Message_clear_def)
    then show ?thesis by (rule that) (use len in simp_all)
  qed
qed

lemma request_delivered:
  assumes "NetLayer_prepareToSend l m = Inr (True, l', m')" and "msg_wf m" and "net m = Tcp \<longrightarrow> pduBegin m = 7"
    and "dev_backend (Server_device st) = Some ls" and "net m = Tcp \<longrightarrow> modbus_get_socket L (ctx ls) \<ge> 0"
    and "req (snd st) = Some q" and "msg_wf q" and "nl_net ls = net m" and "pduBegin q = pduBegin m"
    and "modbus_receive SV (ctx ls) = (frame_bytes m', int (aduSize m'), e, c)" and "aduSize m' \<le> length (adu q)"
  shows "\<exists>st' q'. Server_receive K L SV st = Inr (int (aduSize m'), st') \<and> req (snd st') = Some q' \<and> reads_like m q' \<and>
    Message_size q' = Message_size m + (if net m = Rtu then 2 else 0)"
proof -
  note f = framed [OF assms(1-3)]
  have len: "length (frame_bytes m') = aduSize m'" using f(4) by (simp add: frame_bytes_def)
  obtain q1 where q1: "Message_clear K q = Inr q1" "net q1 = net q" "pduBegin q1 = pduBegin q" "length (adu q1) = length (adu q)"
    using clear_defined [OF assms(7)] .
  obtain a where a: "vwrite (adu q1) 0 (frame_bytes m') = Inr a"
    using assms(11) len q1(4) by (simp add: vwrite_in)
  let ?q' = "q1\<lparr>adu := a, aduSize := aduSize m'\<rparr>"
  have pos: "0 < int (aduSize m')" using f(2,3) assms(2) by (auto simp: Message_size_def msg_wf_def split: if_splits)
  then have "\<exists>st'. Server_receive K L SV st = Inr (int (aduSize m'), st') \<and> req (snd st') = Some ?q'"
    using assms(4,5,6,8,10) a q1(1)
    by (cases st) (auto simp: Server_receive_def Device_Private_isConnected_def server_call_def on_device_def Device_call_def
        on_ctx_def Server_device_def Message_setAduSize_def Let_def)
  moreover have "reads_like m ?q'"
    using received [OF assms(1-3) a, of ?q'] assms(9) q1(3) by simp
  moreover have "Message_size ?q' = Message_size m + (if net m = Rtu then 2 else 0)"
    using f(2,3) assms(9) q1(3) by (auto simp: Message_size_def split: if_splits)
  ultimately show ?thesis by auto
qed

text \<open>C8. A request that a layer frames and the link delivers to a connected server is in the request
  of the server what was written: the address and every byte of the PDU. Its size counts the
  CRC of a serial line as two bytes of the PDU, unlike that of a response that a master receives.\<close>

theorem request_received:
  assumes "NetLayer_prepareToSend l m = Inr (True, l', m')" and "msg_wf m" and "net m = Tcp \<longrightarrow> pduBegin m = 7"
    and "dev_backend (Server_device st) = Some ls" and "net m = Tcp \<longrightarrow> modbus_get_socket L (ctx ls) \<ge> 0"
    and "req (snd st) = Some q" and "msg_wf q" and "nl_net ls = net m" and "pduBegin q = pduBegin m"
    and "modbus_receive SV (ctx ls) = (frame_bytes m', int (aduSize m'), e, c)" and "aduSize m' \<le> length (adu q)"
  shows "\<exists>st' q'. Server_receive K L SV st = Inr (int (aduSize m'), st') \<and> req (snd st') = Some q' \<and> reads_like m q' \<and>
    Message_slave q' = Message_slave m \<and> Message_function q' = Message_function m \<and>
    Message_size q' = Message_size m + (if net m = Rtu then 2 else 0)"
  using request_delivered [OF assms] reads_like_head framed(2) [OF assms(1-3)] by blast

section \<open>Witnesses\<close>

definition sample_reply :: message where
  "sample_reply = \<lparr>net = Tcp, pduBegin = 7, aduSize = 10, maxAduLength = 12, isResponse = True, backend = True,
     transactionId = 1, adu = [0, 1, 0, 0, 0, 0, 5, 3, 1, 9, 0, 0]\<rparr>"

definition sample_reply_sent :: message where
  "sample_reply_sent = sample_reply\<lparr>adu := [0, 1, 0, 0, 0, 4, 5, 3, 1, 9, 0, 0]\<rparr>"

lemma sample_reply_framed:
  "NetLayer_prepareToSend (sample_layer Tcp) sample_reply = Inr (True, sample_layer Tcp, sample_reply_sent)"
  "msg_wf sample_reply" "pduBegin sample_reply = 7" "net sample_reply = Tcp"
  "aduSize sample_reply_sent = 10" "Message_function sample_reply = Inr ReadHoldingRegisters"
  by (simp_all add: NetLayer_prepareToSend_def TcpLayer_prepareToSend_def sample_layer_def sample_reply_def
      sample_reply_sent_def Message_size_def vset_def hi_byte_def lo_byte_def msg_wf_def Message_function_def
      Message_byte_def vget_def function_of_byte_def)

theorem response_transported_witness:
  "\<exists>st' resp'. Master_receiveResponse_msg
      (sample_master_api\<lparr>modbus_receive_confirmation := \<lambda>c. (frame_bytes sample_reply_sent, 10, None, c)\<rparr>)
      (sample_world, \<lparr>m_dev = 0, m_slaves = Map.empty\<rparr>) (sample_reply\<lparr>adu := replicate 12 0\<rparr>) = Inr (10, resp', st') \<and>
    Message_function resp' = Inr ReadHoldingRegisters"
  using response_transported [OF sample_reply_framed(1,2), of "(sample_world, \<lparr>m_dev = 0, m_slaves = Map.empty\<rparr>)" _
      "sample_master_api\<lparr>modbus_receive_confirmation := \<lambda>c. (frame_bytes sample_reply_sent, 10, None, c)\<rparr>"
      None 0 "sample_reply\<lparr>adu := replicate 12 0\<rparr>"] sample_reply_framed(3-)
  by (auto simp: Master_device_def sample_world_def sample_device_def)

theorem request_received_witness:
  "\<exists>st' q'. Server_receive libmodbus_values sample_link
      (sample_server_api\<lparr>modbus_receive := \<lambda>c. (frame_bytes sample_reply_sent, 10, None, c)\<rparr>)
      (sample_world, (Server_Private 0)\<lparr>req := Some (sample_reply\<lparr>adu := replicate 12 0\<rparr>)\<rparr>) = Inr (10, st') \<and>
    req (snd st') = Some q' \<and> Message_function q' = Inr ReadHoldingRegisters"
  using request_received [OF sample_reply_framed(1,2), of
      "(sample_world, (Server_Private 0)\<lparr>req := Some (sample_reply\<lparr>adu := replicate 12 0\<rparr>)\<rparr> :: server)" _ sample_link
      "sample_reply\<lparr>adu := replicate 12 0\<rparr>" "sample_server_api\<lparr>modbus_receive := \<lambda>c. (frame_bytes sample_reply_sent, 10, None, c)\<rparr>"
      None 0 libmodbus_values] sample_reply_framed(3-)
  by (auto simp: Server_device_def sample_world_def sample_device_def Server_Private_def sample_link_def msg_wf_def sample_reply_def)

end
