(* ===== verification/BufferedSlave_Spec.thy ===== *)
theory BufferedSlave_Spec
  imports BufferedSlave_Steps
begin

text \<open>
  An abstract specification of the image of a \<open>BufferedSlave\<close>, and that the calls on a closed object
  refine it: a table is a partial function from data addresses to values, a read gives the
  values of consecutive addresses as far as there are any, a write replaces them. The offsets,
  the clipping and the copies of the code do not occur in it.
\<close>

section \<open>Specification\<close>

fun spec_read :: "(int \<rightharpoonup> 'v) \<Rightarrow> int \<Rightarrow> nat \<Rightarrow> 'v list" where
  "spec_read T a 0 = []"
| "spec_read T a (Suc n) = (case T a of None \<Rightarrow> [] | Some v \<Rightarrow> v # spec_read T (a + 1) n)"

fun spec_write :: "(int \<rightharpoonup> 'v) \<Rightarrow> int \<Rightarrow> 'v list \<Rightarrow> nat \<times> (int \<rightharpoonup> 'v)" where
  "spec_write T a [] = (0, T)"
| "spec_write T a (v # vs) =
     (if T a = None then (0, T)
      else case spec_write (T(a \<mapsto> v)) (a + 1) vs of (n, T') \<Rightarrow> (Suc n, T'))"

text \<open>The four tables, the calls and their results. An address outside its table is refused.\<close>

record spec_image =
  sp_coils :: "int \<rightharpoonup> u8"
  sp_inputs :: "int \<rightharpoonup> u8"
  sp_holding :: "int \<rightharpoonup> u16"
  sp_input_regs :: "int \<rightharpoonup> u16"

datatype image_call =
    RdCoils int "u8 list" | RdInputs int "u8 list" | RdHolding int "u16 list" | RdInputRegs int "u16 list"
  | WrCoils int "u8 list" | WrInputs int "u8 list" | WrHolding int "u16 list" | WrInputRegs int "u16 list"

datatype table_result = Refused | Bits int "u8 list" | Registers int "u16 list" | Written int

definition spec_rd :: "(int \<Rightarrow> 'v list \<Rightarrow> table_result) \<Rightarrow> (int \<rightharpoonup> 'v) \<Rightarrow> int \<Rightarrow> 'v list \<Rightarrow> table_result" where
  "spec_rd res T a dest =
     (if T a = None then Refused
      else let vs = spec_read T a (length dest) in res (int (length vs)) (vs @ drop (length vs) dest))"

definition spec_wr :: "(int \<rightharpoonup> 'v) \<Rightarrow> int \<Rightarrow> 'v list \<Rightarrow> table_result \<times> (int \<rightharpoonup> 'v)" where
  "spec_wr T a src =
     (if T a = None then (Refused, T) else case spec_write T a src of (n, T') \<Rightarrow> (Written (int n), T'))"

fun spec_call :: "spec_image \<Rightarrow> image_call \<Rightarrow> table_result \<times> spec_image" where
  "spec_call I (RdCoils a d) = (spec_rd Bits (sp_coils I) a d, I)"
| "spec_call I (RdInputs a d) = (spec_rd Bits (sp_inputs I) a d, I)"
| "spec_call I (RdHolding a d) = (spec_rd Registers (sp_holding I) a d, I)"
| "spec_call I (RdInputRegs a d) = (spec_rd Registers (sp_input_regs I) a d, I)"
| "spec_call I (WrCoils a s) = (case spec_wr (sp_coils I) a s of (r, T) \<Rightarrow> (r, I\<lparr>sp_coils := T\<rparr>))"
| "spec_call I (WrInputs a s) = (case spec_wr (sp_inputs I) a s of (r, T) \<Rightarrow> (r, I\<lparr>sp_inputs := T\<rparr>))"
| "spec_call I (WrHolding a s) = (case spec_wr (sp_holding I) a s of (r, T) \<Rightarrow> (r, I\<lparr>sp_holding := T\<rparr>))"
| "spec_call I (WrInputRegs a s) = (case spec_wr (sp_input_regs I) a s of (r, T) \<Rightarrow> (r, I\<lparr>sp_input_regs := T\<rparr>))"

fun spec_run :: "spec_image \<Rightarrow> image_call list \<Rightarrow> table_result list \<times> spec_image" where
  "spec_run I [] = ([], I)"
| "spec_run I (c # cs) = (case spec_call I c of (r, I1) \<Rightarrow> case spec_run I1 cs of (rs, I2) \<Rightarrow> (r # rs, I2))"

section \<open>The calls of the code\<close>

text \<open>A call with as many elements as its array has; -1 is a refusal.\<close>

definition rd_result :: "(int \<Rightarrow> 'v list \<Rightarrow> table_result) \<Rightarrow> (int \<times> 'v list \<times> 's) res \<Rightarrow> (table_result \<times> 's) res" where
  "rd_result res r = and_then r (\<lambda>(n, d, st). Inr (if n = -1 then Refused else res n d, st))"

definition wr_result :: "(int \<times> 's) res \<Rightarrow> (table_result \<times> 's) res" where
  "wr_result r = and_then r (\<lambda>(n, st). Inr (if n = -1 then Refused else Written n, st))"

fun table_call :: "'c modbus_client \<Rightarrow> 'c bstate \<Rightarrow> image_call \<Rightarrow> (table_result \<times> 'c bstate) res" where
  "table_call M st (RdCoils a d) = rd_result Bits (BufferedSlave_readCoils M st a d (int (length d)))"
| "table_call M st (RdInputs a d) = rd_result Bits (BufferedSlave_readDiscreteInputs M st a d (int (length d)))"
| "table_call M st (RdHolding a d) = rd_result Registers (BufferedSlave_readRegisters M st a d (int (length d)))"
| "table_call M st (RdInputRegs a d) = rd_result Registers (BufferedSlave_readInputRegisters M st a d (int (length d)))"
| "table_call M st (WrCoils a s) = wr_result (BufferedSlave_writeCoils M st a s (int (length s)))"
| "table_call M st (WrInputs a s) = wr_result (BufferedSlave_writeDiscreteInputs st a s (int (length s)))"
| "table_call M st (WrHolding a s) = wr_result (BufferedSlave_writeRegisters M st a s (int (length s)))"
| "table_call M st (WrInputRegs a s) = wr_result (BufferedSlave_writeInputRegisters st a s (int (length s)))"

fun table_run :: "'c modbus_client \<Rightarrow> 'c bstate \<Rightarrow> image_call list \<Rightarrow> (table_result list \<times> 'c bstate) res" where
  "table_run M st [] = Inr ([], st)"
| "table_run M st (c # cs) =
     and_then (table_call M st c) (\<lambda>(r, st1). and_then (table_run M st1 cs) (\<lambda>(rs, st2). Inr (r # rs, st2)))"

text \<open>The abstraction: what a table holds at a data address.\<close>

definition table_view :: "'a slave_scheme \<Rightarrow> 'v block \<Rightarrow> int \<rightharpoonup> 'v" where
  "table_view s b addr =
     (let a = Slave_pduAddress s addr
      in if in_block b a then Some (blk_mem b ! nat (a - blk_start b)) else None)"

definition image_view :: "bslave \<Rightarrow> spec_image" where
  "image_view s = \<lparr>sp_coils = table_view s (map_bits (bmap s)), sp_inputs = table_view s (map_input_bits (bmap s)),
     sp_holding = table_view s (map_registers (bmap s)), sp_input_regs = table_view s (map_input_registers (bmap s))\<rparr>"

section \<open>Reads\<close>

lemma pduAddress_next: "Slave_pduAddress s (addr + 1) = Slave_pduAddress s addr + 1"
  by (simp add: Slave_pduAddress_def)

lemma block_at_step:
  assumes "block_ok b" and "in_block b a" and "0 < n"
  shows "block_at b a (clipped b a n) = blk_mem b ! nat (a - blk_start b) #
    (if in_block b (a + 1) then block_at b (a + 1) (clipped b (a + 1) (n - 1)) else [])"
proof -
  let ?i = "nat (a - blk_start b)"
  have i: "?i < length (blk_mem b)" using assms(1,2) block_ok_mem [of b] by (auto simp: in_block_def)
  have n: "nat (clipped b a n) = Suc (nat (clipped b (a + 1) (n - 1)))"
    using assms(2,3) by (auto simp: clipped_def in_block_def)
  have s: "nat (a + 1 - blk_start b) = Suc ?i" using assms(2) by (auto simp: in_block_def)
  have "nat (clipped b (a + 1) (n - 1)) = 0" if "\<not> in_block b (a + 1)"
    using that assms(2) by (auto simp: clipped_def in_block_def)
  then show ?thesis
    using Cons_nth_drop_Suc [OF i, symmetric] by (simp add: block_at_def n s)
qed

lemma spec_read_view:
  assumes "block_ok b"
  shows "spec_read (table_view s b) addr n =
    (let a = Slave_pduAddress s addr in if in_block b a then block_at b a (clipped b a (int n)) else [])"
proof (induction n arbitrary: addr)
  case 0
  show ?case by (simp add: block_at_def clipped_def Let_def min_def)
next
  case (Suc n)
  have n: "int (Suc n) - 1 = int n" by simp
  show ?case
    using Suc [of "addr + 1"] block_at_step [OF assms, of "Slave_pduAddress s addr" "int (Suc n)", unfolded n]
    by (simp add: table_view_def Let_def pduAddress_next del: of_nat_Suc)
qed

section \<open>Writes\<close>

text \<open>On a table that is defined on an interval.\<close>

lemma spec_write_interval:
  assumes "\<And>x. T x \<noteq> None \<longleftrightarrow> lo \<le> x \<and> x < hi" and "lo \<le> a" and "a \<le> hi"
    and "n = min (length vs) (nat (hi - a))"
  shows "spec_write T a vs = (n, \<lambda>x. if a \<le> x \<and> x < a + int n then Some (vs ! nat (x - a)) else T x)"
  using assms
proof (induction vs arbitrary: T a n)
  case Nil
  then show ?case by (auto simp: fun_eq_iff)
next
  case (Cons v vs)
  show ?case
  proof (cases "a = hi")
    case True
    then have "T a = None" "n = 0" using Cons.prems(1) [of a] Cons.prems(4) by simp_all
    then show ?thesis by (auto simp: fun_eq_iff)
  next
    case False
    then have a: "T a \<noteq> None" "lo \<le> a + 1" "a + 1 \<le> hi" using Cons.prems by auto
    let ?T = "T(a \<mapsto> v)" and ?n = "min (length vs) (nat (hi - (a + 1)))"
    have dom: "?T x \<noteq> None \<longleftrightarrow> lo \<le> x \<and> x < hi" for x
      using Cons.prems(1) [of x] Cons.prems(1) [of a] a(1) by auto
    have n: "n = Suc ?n" using Cons.prems(2,3,4) False by auto
    let ?W = "\<lambda>x. if a + 1 \<le> x \<and> x < a + 1 + int ?n then Some (vs ! nat (x - (a + 1))) else ?T x"
    have nth: "vs ! nat (x - (a + 1)) = (v # vs) ! nat (x - a)" if "a + 1 \<le> x" for x
    proof -
      have "nat (x - a) = Suc (nat (x - (a + 1)))" using that by simp
      then show ?thesis by simp
    qed
    have W: "?W = (\<lambda>x. if a \<le> x \<and> x < a + int n then Some ((v # vs) ! nat (x - a)) else T x)"
    proof (rule ext)
      fix x
      show "?W x = (if a \<le> x \<and> x < a + int n then Some ((v # vs) ! nat (x - a)) else T x)"
      proof (cases "a + 1 \<le> x")
        case True
        then show ?thesis by (simp only: nth [OF True]) (simp add: n)
      next
        case False
        then show ?thesis by (simp add: n)
      qed
    qed
    have "spec_write ?T (a + 1) vs = (?n, ?W)" by (rule Cons.IH [OF dom a(2,3) refl])
    then show ?thesis unfolding W by (simp only: spec_write.simps a(1) if_False prod.case n [symmetric])
  qed
qed

lemma table_view_None: "table_view s b addr = None \<longleftrightarrow> \<not> in_block b (Slave_pduAddress s addr)"
  by (simp add: table_view_def Let_def)

text \<open>What a block holds after a write of the code is what the specification writes.\<close>

lemma table_view_write:
  assumes "block_ok b" and "in_block b a" and "a = Slave_pduAddress s addr"
    and "blk_start b' = blk_start b" and "blk_nb b' = blk_nb b" and "n = nat (clipped b a (int (length src)))"
    and "blk_mem b' = take (nat (a - blk_start b)) (blk_mem b) @ take n src @ drop (nat (a - blk_start b) + n) (blk_mem b)"
  shows "spec_write (table_view s b) addr src = (n, table_view s b')"
proof -
  let ?d = "addr - a" and ?i = "nat (a - blk_start b)"
  have d: "Slave_pduAddress s x = x - ?d" for x using assms(3) by (simp add: Slave_pduAddress_def)
  have i: "int ?i = a - blk_start b" "?i + n \<le> length (blk_mem b)" "n \<le> length src"
    using assms(2,6) block_ok_mem [OF assms(1)] by (auto simp: in_block_def clipped_def)
  have dom: "table_view s b x \<noteq> None \<longleftrightarrow> blk_start b + ?d \<le> x \<and> x < blk_start b + blk_nb b + ?d" for x
    by (auto simp: table_view_None d in_block_def)
  have n: "n = min (length src) (nat (blk_start b + blk_nb b + ?d - addr))"
    using assms(2,6) by (auto simp: clipped_def in_block_def)
  have "(if addr \<le> x \<and> x < addr + int n then Some (src ! nat (x - addr)) else table_view s b x) = table_view s b' x" for x
  proof (cases "in_block b (x - ?d)")
    case False
    then show ?thesis using assms(2,4,5) i block_ok_mem [OF assms(1)]
      by (auto simp: table_view_def d in_block_def Let_def)
  next
    case True
    let ?j = "nat (x - ?d - blk_start b)"
    have j: "int ?j = x - ?d - blk_start b" using True by (simp add: in_block_def)
    have "blk_mem b' ! ?j = (if ?i \<le> ?j \<and> ?j < ?i + n then src ! (?j - ?i) else blk_mem b ! ?j)"
      using i(2,3) by (auto simp: assms(7) nth_append min_absorb1 min_absorb2 not_less)
    moreover have "?i \<le> ?j \<and> ?j < ?i + n \<longleftrightarrow> addr \<le> x \<and> x < addr + int n"
      using i(1) j by linarith
    moreover have "?j - ?i = nat (x - addr)" if "addr \<le> x" using i(1) j that by linarith
    ultimately show ?thesis
      using True assms(4,5) by (auto simp: table_view_def d in_block_def Let_def)
  qed
  then show ?thesis
    using spec_write_interval [OF dom _ _ n] assms(2,3) by (simp add: fun_eq_iff in_block_def)
qed

section \<open>One call\<close>

lemma table_view_bmap [simp]: "table_view (s\<lparr>bmap := m\<rparr>) = table_view s"
  by (simp add: fun_eq_iff table_view_def)

context read_table begin

lemma read_refines:
  assumes "map_ok (bmap s)" and "\<not> Slave_isOpen w s"
  shows "\<exists>w'. rd_result r (buffered_read rd get put (w, s) addr dest (int (length dest)))
    = Inr (spec_rd r (table_view s (get (bmap s))) addr dest, w', s) \<and> w_devices w' = w_devices w"
proof (cases "in_block (get (bmap s)) (Slave_pduAddress s addr)")
  case False
  then show ?thesis
    by (simp add: read_outside rd_result_def spec_rd_def table_view_None)
next
  case True
  let ?b = "get (bmap s)" and ?a = "Slave_pduAddress s addr"
  note ok = map_ok_get [OF assms(1)]
  note bd = clipped_bounds [OF ok True, of "int (length dest)"]
  have sp: "spec_read (table_view s ?b) addr (length dest) = block_at ?b ?a (clipped ?b ?a (int (length dest)))"
    using spec_read_view [OF ok, of s] True by (simp add: Let_def)
  have len: "length (block_at ?b ?a (clipped ?b ?a (int (length dest)))) = nat (clipped ?b ?a (int (length dest)))"
    using bd by (auto simp: block_at_def)
  show ?thesis
    using read_offline [OF assms(1) True _ _ assms(2), of "int (length dest)" dest] bd len True
    by (auto simp: rd_result_def spec_rd_def sp table_view_None Let_def)
qed

end

context table_image begin

lemma write_refines:
  assumes "map_ok (bmap s)"
  shows "\<exists>w' m'. wr_result (image_write get put (w, s) addr src (int (length src)))
      = Inr (fst (spec_wr (table_view s (get (bmap s))) addr src), w', s\<lparr>bmap := m'\<rparr>) \<and>
    snd (spec_wr (table_view s (get (bmap s))) addr src) = table_view s (get m') \<and>
    map_ok m' \<and> rest m' = rest (bmap s) \<and> w_devices w' = w_devices w"
proof (cases "in_block (get (bmap s)) (Slave_pduAddress s addr)")
  case False
  then have "wr_result (image_write get put (w, s) addr src (int (length src)))
      = Inr (Refused, w\<lparr>w_errno := EINVAL\<rparr>, s\<lparr>bmap := bmap s\<rparr>)"
    by (simp add: image_write_outside wr_result_def)
  then show ?thesis
    using False assms
    by (intro exI [where x = "w\<lparr>w_errno := EINVAL\<rparr>"] exI [where x = "bmap s"])
      (simp add: spec_wr_def table_view_None)
next
  case True
  let ?b = "get (bmap s)" and ?a = "Slave_pduAddress s addr"
  let ?n = "clipped ?b ?a (int (length src))"
  note ok = map_ok_get [OF assms]
  note bd = clipped_bounds [OF ok True, of "int (length src)"]
  obtain b' where b': "store_block ?b (?a - blk_start ?b) src ?n = Inr b'" "block_ok b'"
    "blk_start b' = blk_start ?b" "blk_nb b' = blk_nb ?b"
    "blk_mem b' = take (nat (?a - blk_start ?b)) (blk_mem ?b) @ take (nat ?n) src @
      drop (nat (?a - blk_start ?b) + nat ?n) (blk_mem ?b)"
    using store_block_ok [OF ok True, of "int (length src)" src] bd by auto
  have w: "image_write get put (w, s) addr src (int (length src)) = Inr (?n, w, s\<lparr>bmap := put b' (bmap s)\<rparr>)"
    using b'(1) True by (simp add: image_write_def Let_def clipped_def)
  show ?thesis
    using w table_view_write [OF ok True refl b'(3,4) refl b'(5)] bd True map_ok_put [OF assms b'(2)]
    by (intro exI [where x = w] exI [where x = "put b' (bmap s)"])
      (simp add: wr_result_def spec_wr_def table_view_None get_put rest_put)
qed

end

text \<open>A read of the code on a closed object leaves it alone.\<close>

lemma same_image:
  "\<exists>w'. X = Inr (r, w', s) \<and> P w' \<Longrightarrow> map_ok (bmap s) \<Longrightarrow>
   \<exists>w' m'. X = Inr (r, w', s\<lparr>bmap := m'\<rparr>) \<and> image_view s = image_view (s\<lparr>bmap := m'\<rparr>) \<and> map_ok m' \<and> P w'"
  by (metis bslave.surjective bslave.update_convs(1))

text \<open>A call of the code on a closed object, and the call of the specification on what it holds.\<close>

lemma table_call_refines:
  assumes "map_ok (bmap s)" and "\<not> Slave_isOpen w s"
  shows "\<exists>w' m'. table_call M (w, s) c = Inr (fst (spec_call (image_view s) c), w', s\<lparr>bmap := m'\<rparr>) \<and>
    snd (spec_call (image_view s) c) = image_view (s\<lparr>bmap := m'\<rparr>) \<and> map_ok m' \<and> w_devices w' = w_devices w"
proof (cases c)
  case (RdCoils a d)
  then show ?thesis
    using same_image [OF coils.read_refines [OF assms] assms(1), of Bits M a d]
    by (simp add: BufferedSlave_readCoils_def) (simp add: image_view_def)
next
  case (RdInputs a d)
  then show ?thesis
    using same_image [OF inputs.read_refines [OF assms] assms(1), of Bits M a d]
    by (simp add: BufferedSlave_readDiscreteInputs_def) (simp add: image_view_def)
next
  case (RdHolding a d)
  then show ?thesis
    using same_image [OF holding.read_refines [OF assms] assms(1), of Registers M a d]
    by (simp add: BufferedSlave_readRegisters_def) (simp add: image_view_def)
next
  case (RdInputRegs a d)
  then show ?thesis
    using same_image [OF input_regs.read_refines [OF assms] assms(1), of Registers M a d]
    by (simp add: BufferedSlave_readInputRegisters_def) (simp add: image_view_def)
next
  case (WrCoils a d)
  let ?T = "table_view s (map_bits (bmap s))"
  obtain w' m' where "wr_result (BufferedSlave_writeCoils M (w, s) a d (int (length d))) = Inr (fst (spec_wr ?T a d), w', s\<lparr>bmap := m'\<rparr>)"
    and "snd (spec_wr ?T a d) = table_view s (map_bits m')" "map_ok m'" "w_devices w' = w_devices w"
    and "map_input_bits m' = map_input_bits (bmap s)" "map_registers m' = map_registers (bmap s)" "map_input_registers m' = map_input_registers (bmap s)"
    using coils.write_refines [OF assms(1), of w a d] coils_out.write_offline [OF assms(2), of M a d "int (length d)"]
    by (auto simp: BufferedSlave_writeCoils_def)
  then show ?thesis by (auto simp: WrCoils image_view_def split: prod.split)
next
  case (WrInputs a d)
  let ?T = "table_view s (map_input_bits (bmap s))"
  obtain w' m' where "wr_result (BufferedSlave_writeDiscreteInputs (w, s) a d (int (length d))) = Inr (fst (spec_wr ?T a d), w', s\<lparr>bmap := m'\<rparr>)"
    and "snd (spec_wr ?T a d) = table_view s (map_input_bits m')" "map_ok m'" "w_devices w' = w_devices w"
    and "map_bits m' = map_bits (bmap s)" "map_registers m' = map_registers (bmap s)" "map_input_registers m' = map_input_registers (bmap s)"
    using inputs.write_refines [OF assms(1), of w a d]
    by (auto simp: BufferedSlave_writeDiscreteInputs_def)
  then show ?thesis by (auto simp: WrInputs image_view_def split: prod.split)
next
  case (WrHolding a d)
  let ?T = "table_view s (map_registers (bmap s))"
  obtain w' m' where "wr_result (BufferedSlave_writeRegisters M (w, s) a d (int (length d))) = Inr (fst (spec_wr ?T a d), w', s\<lparr>bmap := m'\<rparr>)"
    and "snd (spec_wr ?T a d) = table_view s (map_registers m')" "map_ok m'" "w_devices w' = w_devices w"
    and "map_bits m' = map_bits (bmap s)" "map_input_bits m' = map_input_bits (bmap s)" "map_input_registers m' = map_input_registers (bmap s)"
    using holding.write_refines [OF assms(1), of w a d] holding_out.write_offline [OF assms(2), of M a d "int (length d)"]
    by (auto simp: BufferedSlave_writeRegisters_def)
  then show ?thesis by (auto simp: WrHolding image_view_def split: prod.split)
next
  case (WrInputRegs a d)
  let ?T = "table_view s (map_input_registers (bmap s))"
  obtain w' m' where "wr_result (BufferedSlave_writeInputRegisters (w, s) a d (int (length d))) = Inr (fst (spec_wr ?T a d), w', s\<lparr>bmap := m'\<rparr>)"
    and "snd (spec_wr ?T a d) = table_view s (map_input_registers m')" "map_ok m'" "w_devices w' = w_devices w"
    and "map_bits m' = map_bits (bmap s)" "map_input_bits m' = map_input_bits (bmap s)" "map_registers m' = map_registers (bmap s)"
    using input_regs.write_refines [OF assms(1), of w a d]
    by (auto simp: BufferedSlave_writeInputRegisters_def)
  then show ?thesis by (auto simp: WrInputRegs image_view_def split: prod.split)
qed

lemma table_run_refines:
  assumes "map_ok (bmap s)" and "\<not> Slave_isOpen w s"
  shows "\<exists>w' m'. table_run M (w, s) cs = Inr (fst (spec_run (image_view s) cs), w', s\<lparr>bmap := m'\<rparr>) \<and>
    snd (spec_run (image_view s) cs) = image_view (s\<lparr>bmap := m'\<rparr>)"
  using assms
proof (induction cs arbitrary: w s)
  case Nil
  show ?case by (intro exI [where x = w] exI [where x = "bmap s"]) simp
next
  case (Cons c cs)
  obtain w1 m1 where 1: "table_call M (w, s) c = Inr (fst (spec_call (image_view s) c), w1, s\<lparr>bmap := m1\<rparr>)"
    "snd (spec_call (image_view s) c) = image_view (s\<lparr>bmap := m1\<rparr>)" "map_ok m1" "w_devices w1 = w_devices w"
    using table_call_refines [OF Cons.prems] by blast
  have "Slave_isOpen w1 s = Slave_isOpen w s" by (simp add: Slave_isOpen_def Slave_isValid_def 1(4) split: option.split)
  then have "\<not> Slave_isOpen w1 (s\<lparr>bmap := m1\<rparr>)" using Cons.prems(2) by (simp add: isOpen_bmap)
  then obtain w2 m2 where "table_run M (w1, s\<lparr>bmap := m1\<rparr>) cs
      = Inr (fst (spec_run (image_view (s\<lparr>bmap := m1\<rparr>)) cs), w2, s\<lparr>bmap := m2\<rparr>)"
    "snd (spec_run (image_view (s\<lparr>bmap := m1\<rparr>)) cs) = image_view (s\<lparr>bmap := m2\<rparr>)"
    using Cons.IH [of "s\<lparr>bmap := m1\<rparr>" w1] 1(3) by auto
  with 1 show ?case
    by (cases "spec_call (image_view s) c"; cases "spec_run (image_view (s\<lparr>bmap := m1\<rparr>)) cs") auto
qed

text \<open>C4. On an object that is not open, the read and write calls of a buffered slave implement the
  specification: any sequence of them gives the results the specification gives on what the
  tables hold, none of them throws, and the tables then hold what the specification says.
\<close>

theorem buffered_slave_refines_tables:
  assumes "map_ok (bmap s)" and "\<not> Slave_isOpen w s"
  shows "\<exists>w' s'. table_run M (w, s) cs = Inr (fst (spec_run (image_view s) cs), w', s') \<and>
    image_view s' = snd (spec_run (image_view s) cs)"
  using table_run_refines [OF assms, of M cs] by auto

theorem buffered_slave_refines_tables_witness:
  "\<exists>w' s'. table_run sample_client (sample_world, sample_slave None)
      [WrHolding 3 [9, 8, 7], RdHolding 2 [0, 0], RdHolding 40 [5]]
    = Inr ([Written 2, Registers 2 [2, 9], Refused], w', s')"
proof -
  let ?cs = "[WrHolding 3 [9, 8, 7], RdHolding 2 [0, 0], RdHolding 40 [5]]"
  have "fst (spec_run (image_view (sample_slave None)) ?cs) = [Written 2, Registers 2 [2, 9], Refused]"
    by (simp add: image_view_def spec_wr_def spec_rd_def table_view_def in_block_def blk_mem_def
        sample_map_def Slave_pduAddress_def numeral_2_eq_2)
  then show ?thesis
    using buffered_slave_refines_tables [of "sample_slave None" sample_world sample_client ?cs] sample_map_ok
    by (auto simp del: table_run.simps spec_run.simps)
qed

end
