(* ===== verification/BufferedSlave_Forward.thy ===== *)
theory BufferedSlave_Forward
  imports BufferedSlave_Steps
begin

text \<open>
  The writes that a server hands on to the device behind a slave, after libmodbus has put them
  into the tables: the values are those of the request, the address is not.
\<close>

lemma device_address_pdu:
  "0 \<le> a \<Longrightarrow> Slave_pduAddress s (device_address s a) = (if a = 0 \<or> pduAddressing s then 0 else -1)"
  by (auto simp: Slave_pduAddress_def device_address_def)

text \<open>A request that writes several holding registers, or one, is handed on to PDU address 0 of the
  device with PDU addressing, and to -1 without, whatever the address of the request, unless
  that is 0. The values are those that the table holds at the address of the request.\<close>

theorem device_write_address_lost:
  assumes "Slave_isOpen w s" and "Message_startingAddress m = Inr a" and "Message_quantity m = Inr q"
    and "Message_function m = Inr g" and "g = WriteMultipleRegisters \<or> g = WriteSingleRegister"
    and "b = map_registers (bmap s)" and "map_ok (bmap s)" and "in_block b (uint a)"
    and "off = nat (uint a - blk_start b)" and "n = min (uint q) (blk_nb b - (uint a - blk_start b))"
  shows "\<exists>f. BufferedSlave_writeToDevice M (w, s) (Some m)
      = and_then (Slave_command M w s f) (\<lambda>(rc, w'). Inr (rc, w', s)) \<and>
    (\<forall>c. f c = (let x = (if a = 0 \<or> pduAddressing s then 0 else -1)
      in if g = WriteMultipleRegisters then modbus_write_registers M c x n (drop off (blk_mem b))
         else modbus_write_register M c x (blk_mem b ! off)))"
proof -
  let ?x = "if a = 0 \<or> pduAddressing s then 0 else -1"
  have ok: "block_ok b" using assms(6,7) by (simp add: map_ok_def)
  have clip: "clip_start b (uint a) = uint a" using assms(8) by (simp add: clip_start_def in_block_def)
  have off: "0 \<le> uint a - blk_start b" "uint a - blk_start b < int (length (blk_mem b))"
    using assms(8) block_ok_mem [OF ok] by (auto simp: in_block_def)
  have x: "Slave_pduAddress s (device_address s (uint a)) = ?x"
    using device_address_pdu [of "uint a" s] by (simp add: unsigned_eq_0_iff)
  have v: "vget (blk_mem b) (uint a - blk_start b) = Inr (blk_mem b ! off)"
    using off by (simp add: vget_in assms(9))
  have w: "BufferedSlave_writeToDevice M (w, s) (Some m) = writeToDevice_switch M (w, s) g (uint a) (uint q)"
    using assms(1-4) by (simp add: BufferedSlave_writeToDevice_def)
  from assms(5) show ?thesis
  proof
    assume g: "g = WriteMultipleRegisters"
    have "BufferedSlave_writeToDevice M (w, s) (Some m) =
        and_then (Slave_command M w s (\<lambda>c. modbus_write_registers M c ?x n (drop off (blk_mem b)))) (\<lambda>(rc, w'). Inr (rc, w', s))"
      unfolding w g writeToDevice_switch_def Function.case device_write_def Let_def prod.case assms(6) [symmetric] clip
      using off by (simp add: Slave_writeRegisters_def x assms(9,10))
    then show ?thesis by (auto simp: g Let_def)
  next
    assume g: "g = WriteSingleRegister"
    have "BufferedSlave_writeToDevice M (w, s) (Some m) =
        and_then (Slave_command M w s (\<lambda>c. modbus_write_register M c ?x (blk_mem b ! off))) (\<lambda>(rc, w'). Inr (rc, w', s))"
      unfolding w g writeToDevice_switch_def Function.case device_write1_def Let_def prod.case assms(6) [symmetric] clip
      by (simp add: Slave_writeRegister_def x v)
    then show ?thesis by (auto simp: g Let_def)
  qed
qed

text \<open>The request to write two holding registers at address 2, over RTU.\<close>

definition sample_write :: message where
  "sample_write = \<lparr>net = Rtu, pduBegin = 1, aduSize = 11, maxAduLength = 13, isResponse = False,
     backend = False, transactionId = 1, adu = [3, 16, 0, 2, 0, 2, 4, 0, 7, 0, 8, 0, 0]\<rparr>"

lemma sample_write_simps:
  "Message_startingAddress sample_write = Inr 2" "Message_quantity sample_write = Inr 2"
  "Message_function sample_write = Inr WriteMultipleRegisters"
  by (simp_all add: sample_write_def Message_function_def Message_byte_def Message_startingAddress_def
      Message_quantity_def Message_word_def vget_def function_of_byte_def word_be_def)

theorem device_write_address_lost_witness:
  "\<exists>f. BufferedSlave_writeToDevice sample_client (sample_world, sample_slave (Some 0)) (Some sample_write)
      = and_then (Slave_command sample_client sample_world (sample_slave (Some 0)) f)
          (\<lambda>(rc, w'). Inr (rc, w', sample_slave (Some 0))) \<and>
    (\<forall>c. f c = modbus_write_registers sample_client c (-1) 2 [3, 4])"
proof -
  have "in_block (map_registers sample_map) 2" "blk_start (map_registers sample_map) = 0"
    "blk_nb (map_registers sample_map) = 4" "blk_mem (map_registers sample_map) = [1, 2, 3, 4]"
    by (simp_all add: sample_map_def in_block_def blk_mem_def)
  then show ?thesis
    using device_write_address_lost [OF sample_open sample_write_simps disjI1 [OF refl] refl _ _ refl refl, of sample_client]
    by (simp add: sample_map_ok)
qed

end
