(* ===== verification/Router_Model.thy ===== *)
theory Router_Model
  imports Server_Props "HOL-Library.List_Lexorder" "HOL-Library.Char_ord"
begin

text \<open>
  The class \<open>Router\<close> of \<open>src/router.cpp\<close>: a server with a map of named masters, which it opens
  and closes with itself. \<open>std::map\<close> is the list of its entries in the order of the keys, which
  is the order in which the loops of the code visit them.
\<close>

section \<open>The map of the masters\<close>

fun map_insert :: "'k::linorder \<Rightarrow> 'v \<Rightarrow> ('k \<times> 'v) list \<Rightarrow> ('k \<times> 'v) list" where
  "map_insert k v [] = [(k, v)]"
| "map_insert k v ((a, b) # xs) =
     (if k = a then (k, v) # xs else if k < a then (k, v) # (a, b) # xs else (a, b) # map_insert k v xs)"

definition map_erase :: "'k \<Rightarrow> ('k \<times> 'v) list \<Rightarrow> ('k \<times> 'v) list" where
  "map_erase k xs = filter (\<lambda>p. fst p \<noteq> k) xs"

definition map_wf :: "('k::linorder \<times> 'v) list \<Rightarrow> bool" where
  "map_wf xs \<longleftrightarrow> sorted_wrt (<) (map fst xs)"

lemma map_insert_keys: "fst ` set (map_insert k v xs) = insert k (fst ` set xs)"
  by (induction k v xs rule: map_insert.induct) auto

lemma map_insert_wf: "map_wf xs \<Longrightarrow> map_wf (map_insert k v xs)"
proof (induction k v xs rule: map_insert.induct)
  case (2 k v a b xs)
  then have "\<forall>x \<in> fst ` set xs. a < x" by (simp add: map_wf_def)
  then show ?case
    using 2 map_insert_keys [of k v xs] by (auto simp: map_wf_def dest: order.strict_trans)
qed (simp add: map_wf_def)

lemma map_erase_wf: "map_wf xs \<Longrightarrow> map_wf (map_erase k xs)"
  by (induction xs) (auto simp: map_wf_def map_erase_def)

text \<open>What the clients of a map rely on: \<open>find\<close> after \<open>insert\<close> and \<open>erase\<close>, and the order of the
  entries, which both keep.\<close>

locale ordered_map =
  fixes ins :: "'k::linorder \<Rightarrow> 'v \<Rightarrow> 'm \<Rightarrow> 'm" and del :: "'k \<Rightarrow> 'm \<Rightarrow> 'm" and get :: "'m \<Rightarrow> 'k \<Rightarrow> 'v option"
    and wf :: "'m \<Rightarrow> bool"
  assumes get_ins: "wf m \<Longrightarrow> get (ins k v m) j = (if j = k then Some v else get m j)"
    and get_del: "wf m \<Longrightarrow> get (del k m) j = (if j = k then None else get m j)"
    and wf_ins: "wf m \<Longrightarrow> wf (ins k v m)"
    and wf_del: "wf m \<Longrightarrow> wf (del k m)"
begin

text \<open>Replacing an entry by erasing the old one first.\<close>

lemma get_replace: "wf m \<Longrightarrow> get (ins k v (if get m k \<noteq> None then del k m else m)) j = (if j = k then Some v else get m j)"
  by (simp add: get_ins get_del wf_del)

lemma wf_replace: "wf m \<Longrightarrow> wf (ins k v (if get m k \<noteq> None then del k m else m))"
  by (simp add: wf_ins wf_del)

end

lemma map_of_insert: "map_wf xs \<Longrightarrow> map_of (map_insert k v xs) j = (if j = k then Some v else map_of xs j)"
  by (induction k v xs rule: map_insert.induct) (auto simp: map_wf_def)

lemma map_of_erase: "map_of (map_erase k xs) j = (if j = k then None else map_of xs j)"
  by (induction xs) (auto simp: map_erase_def)

interpretation masters: ordered_map map_insert map_erase map_of map_wf
  by unfold_locales (simp_all add: map_of_insert map_of_erase map_insert_wf map_erase_wf)

section \<open>State\<close>

record router = server +
  r_master :: "(string \<times> master) list"

type_synonym 'c rstate = "'c world \<times> router"

definition Router_new :: "nat \<Rightarrow> 'c world \<Rightarrow> 'c rstate" where
  "Router_new i w = (w\<lparr>w_devices := (w_devices w)(i := Device_new)\<rparr>,
     server.extend (Server_Private i) \<lparr>r_master = []\<rparr>)"

definition Router_new_net ::
    "mb_consts \<Rightarrow> 'c modbus_link \<Rightarrow> 'c rtu_api \<Rightarrow> 'c modbus_server \<Rightarrow>
     nat \<Rightarrow> 'c world \<Rightarrow> Net \<Rightarrow> string \<Rightarrow> string \<Rightarrow> 'c rstate res" where
  "Router_new_net K L R SV i w n conn s = Server_Private_setBackend K L R SV (Router_new i w) n conn s"

definition Router_hasMaster :: "'c rstate \<Rightarrow> string \<Rightarrow> bool" where
  "Router_hasMaster st name \<longleftrightarrow> map_of (r_master (snd st)) name \<noteq> None"

definition Router_master :: "'c rstate \<Rightarrow> string \<Rightarrow> master res" where
  "Router_master st name = map_at (map_of (r_master (snd st))) name"

definition Router_masterPtr :: "'c rstate \<Rightarrow> string \<Rightarrow> master option res" where
  "Router_masterPtr st name =
     (if Router_hasMaster st name
      then and_then (map_at (map_of (r_master (snd st))) name) (\<lambda>m. Inr (Some m)) else Inr None)"

definition Router_index :: "'c rstate \<Rightarrow> string \<Rightarrow> master res" where
  "Router_index st name = map_at (map_of (r_master (snd st))) name"

text \<open>\<open>i\<close> is the address of the new master's device; \<open>erase\<close> destroys the old master.\<close>

definition Router_Private_addMaster :: "nat \<Rightarrow> 'c rstate \<Rightarrow> string \<Rightarrow> 'c rstate" where
  "Router_Private_addMaster i st name =
     (let ms = (if map_of (r_master (snd st)) name \<noteq> None
                then map_erase name (r_master (snd st)) else r_master (snd st))
      in case Master_new i (fst st) of
           (w, m) \<Rightarrow> (w, (snd st)\<lparr>r_master := map_insert name m ms\<rparr>))"

definition Router_addMaster :: "nat \<Rightarrow> 'c rstate \<Rightarrow> string \<Rightarrow> 'c rstate res" where
  "Router_addMaster i st name =
     (if Server_isOpen st then Inl Logic_error else Inr (Router_Private_addMaster i st name))"

text \<open>A call on the master \<open>name\<close>, to which the caller holds a reference.\<close>

definition on_master :: "string \<Rightarrow> ('c mstate \<Rightarrow> ('x \<times> 'c mstate) res) \<Rightarrow> 'c rstate \<Rightarrow> ('x \<times> 'c rstate) res" where
  "on_master name f st =
     and_then (Router_master st name) (\<lambda>m.
     and_then (f (fst st, m)) (\<lambda>(x, w, m').
     Inr (x, w, (snd st)\<lparr>r_master := map_insert name m' (r_master (snd st))\<rparr>)))"

definition Router_addMaster_net ::
    "mb_consts \<Rightarrow> 'c modbus_link \<Rightarrow> 'c rtu_api \<Rightarrow> 'c modbus_client \<Rightarrow>
     nat \<Rightarrow> 'c rstate \<Rightarrow> string \<Rightarrow> Net \<Rightarrow> string \<Rightarrow> string \<Rightarrow> 'c rstate res" where
  "Router_addMaster_net K L R M i st name n conn s =
     and_then (Router_addMaster i st name) (\<lambda>st1.
     and_then (on_master name (\<lambda>m. Master_setBackend K L R M m n conn s) st1) (\<lambda>(_, st2). Inr st2))"

section \<open>Opening and closing\<close>

text \<open>\<open>isOk = isOk && m->open()\<close> for each master, and \<open>m->close()\<close> for each master.\<close>

fun open_masters ::
    "'c modbus_link \<Rightarrow> bool \<Rightarrow> 'c world \<Rightarrow> (string \<times> master) list \<Rightarrow>
     (bool \<times> 'c world \<times> (string \<times> master) list) res" where
  "open_masters L isOk w [] = Inr (isOk, w, [])"
| "open_masters L isOk w ((k, m) # ms) =
     and_then (if isOk then Master_open L (w, m) else Inr (False, w, m)) (\<lambda>(ok, w1, m1).
     and_then (open_masters L ok w1 ms) (\<lambda>(ok', w2, ms'). Inr (ok', w2, (k, m1) # ms')))"

fun close_masters ::
    "'c modbus_link \<Rightarrow> 'c world \<Rightarrow> (string \<times> master) list \<Rightarrow> ('c world \<times> (string \<times> master) list) res" where
  "close_masters L w [] = Inr (w, [])"
| "close_masters L w ((k, m) # ms) =
     and_then (Master_close L (w, m)) (\<lambda>(w1, m1).
     and_then (close_masters L w1 ms) (\<lambda>(w2, ms'). Inr (w2, (k, m1) # ms')))"

definition Router_close_all :: "'c modbus_link \<Rightarrow> 'c rstate \<Rightarrow> 'c rstate res" where
  "Router_close_all L st =
     and_then (close_masters L (fst st) (r_master (snd st))) (\<lambda>(w, ms).
       Inr (w, (snd st)\<lparr>r_master := ms\<rparr>))"

definition Router_Private_open ::
    "mb_consts \<Rightarrow> 'c modbus_link \<Rightarrow> 'c modbus_server \<Rightarrow> 'c rstate \<Rightarrow> (bool \<times> 'c rstate) res" where
  "Router_Private_open K L SV st =
     and_then (open_masters L True (fst st) (r_master (snd st))) (\<lambda>(isOk, w, ms).
     let st1 = (w, (snd st)\<lparr>r_master := ms\<rparr>)
     in and_then (if isOk then Server_Private_open K L SV st1 else Inr (False, st1)) (\<lambda>(isOk', st2).
        if \<not> isOk' then and_then (Router_close_all L st2) (\<lambda>st3. Inr (isOk', st3))
        else Inr (isOk', st2)))"

definition Router_open ::
    "mb_consts \<Rightarrow> 'c modbus_link \<Rightarrow> 'c modbus_server \<Rightarrow> 'c rstate \<Rightarrow> (bool \<times> 'c rstate) res" where
  "Router_open K L SV = Server_open_by (Router_Private_open K L SV)"

definition Router_close ::
    "'c modbus_link \<Rightarrow> 'c modbus_server \<Rightarrow> 'c rstate \<Rightarrow> 'c rstate res" where
  "Router_close L SV st =
     (if Server_isOpen st then and_then (Server_close L SV st) (Router_close_all L) else Inr st)"

section \<open>Lemmas\<close>

definition master_isOpen :: "'c world \<Rightarrow> master \<Rightarrow> bool" where
  "master_isOpen w m = Device_isOpen (w_devices w (m_dev m))"

lemma Master_open_effect:
  assumes "Master_open L (w, m) = Inr (ok, w', m')"
  shows "m' = m \<and> ok = master_isOpen w' m \<and> (\<forall>n. master_isOpen w n \<longrightarrow> master_isOpen w' n)"
proof -
  have c: "master_call (Device_open L) (w, m) = Inr (ok, w', m')" using assms by (simp add: Master_open_def)
  have o: "Device_open L (w_errno w, w_devices w (m_dev m)) = Inr (ok, w_errno w', w_devices w' (m_dev m))"
    and "m' = m" and others: "\<forall>j. j \<noteq> m_dev m \<longrightarrow> w_devices w' j = w_devices w j"
    using master_call_world [OF c] by (simp_all add: Master_device_def)
  have "ok = Device_isOpen (w_devices w' (m_dev m))"
    and "Device_isOpen (w_devices w (m_dev m)) \<Longrightarrow> w_devices w' (m_dev m) = w_devices w (m_dev m)"
    using o by (auto simp: Device_open_def and_then_eq_Inr split: if_splits)
  with \<open>m' = m\<close> others show ?thesis by (metis master_isOpen_def)
qed

lemma Device_close_closed: "Device_close L st = Inr st' \<Longrightarrow> \<not> Device_isOpen (snd st')"
  by (auto simp: Device_close_def and_then_eq_Inr Device_isOpen_def split: if_splits)

lemma Master_close_effect:
  assumes "Master_close L (w, m) = Inr (w', m')"
  shows "m' = m \<and> \<not> master_isOpen w' m \<and> (\<forall>n. \<not> master_isOpen w n \<longrightarrow> \<not> master_isOpen w' n)"
proof -
  obtain u where c: "master_call (\<lambda>s. unit_of (Device_close L s)) (w, m) = Inr (u, w', m')"
    using assms by (auto simp: Master_close_def and_then_eq_Inr)
  have "Device_close L (w_errno w, w_devices w (m_dev m)) = Inr (w_errno w', w_devices w' (m_dev m))"
    and "m' = m" and others: "\<forall>j. j \<noteq> m_dev m \<longrightarrow> w_devices w' j = w_devices w j"
    using master_call_world [OF c] by (auto simp: Master_device_def unit_of_def and_then_eq_Inr)
  moreover from this(1) have "\<not> Device_isOpen (w_devices w' (m_dev m))"
    using Device_close_closed by fastforce
  ultimately show ?thesis by (metis master_isOpen_def)
qed

lemma open_masters_effect:
  "open_masters L isOk w ms = Inr (ok, w', ms') \<Longrightarrow>
   ms' = ms \<and> (\<forall>n. master_isOpen w n \<longrightarrow> master_isOpen w' n) \<and>
   (ok \<longrightarrow> isOk \<and> (\<forall>m \<in> snd ` set ms. master_isOpen w' m))"
proof (induction L isOk w ms arbitrary: ok w' ms' rule: open_masters.induct)
  case (2 L isOk w k m ms)
  then obtain ok1 w1 m1 ms1 where 1: "(if isOk then Master_open L (w, m) else Inr (False, w, m)) = Inr (ok1, w1, m1)"
    and r: "open_masters L ok1 w1 ms = Inr (ok, w', ms1)" and ms': "ms' = (k, m1) # ms1"
    by (auto simp: and_then_eq_Inr)
  have "m1 = m \<and> ok1 = (isOk \<and> master_isOpen w1 m) \<and> (\<forall>n. master_isOpen w n \<longrightarrow> master_isOpen w1 n)"
    using 1 Master_open_effect [of L w m ok1 w1 m1] by (cases isOk) auto
  then show ?case using "2.IH" [OF 1 refl refl r] by (auto simp: ms')
qed simp

lemma close_masters_effect:
  "close_masters L w ms = Inr (w', ms') \<Longrightarrow>
   ms' = ms \<and> (\<forall>n. \<not> master_isOpen w n \<longrightarrow> \<not> master_isOpen w' n) \<and> (\<forall>m \<in> snd ` set ms. \<not> master_isOpen w' m)"
proof (induction L w ms arbitrary: w' ms' rule: close_masters.induct)
  case (2 L w k m ms)
  then obtain w1 m1 ms1 where 1: "Master_close L (w, m) = Inr (w1, m1)"
    and r: "close_masters L w1 ms = Inr (w', ms1)" and ms': "ms' = (k, m1) # ms1"
    by (auto simp: and_then_eq_Inr)
  show ?case using Master_close_effect [OF 1] "2.IH" [OF 1 refl r] by (auto simp: ms')
qed simp

lemma Router_close_all_effect:
  "Router_close_all L st = Inr st' \<Longrightarrow>
   r_master (snd st') = r_master (snd st) \<and> (\<forall>m \<in> snd ` set (r_master (snd st)). \<not> master_isOpen (fst st') m)"
  by (fastforce simp: Router_close_all_def and_then_eq_Inr dest!: close_masters_effect)

section \<open>Properties\<close>

text \<open>What opening the router's own link does to the masters: they keep their flags.\<close>

lemma server_call_masters:
  assumes "server_call f st = Inr (x, st')"
    and "\<And>s y s'. f s = Inr (y, s') \<Longrightarrow> same_device (snd s) (snd s')"
  shows "snd st' = snd st \<and> master_isOpen (fst st') n = master_isOpen (fst st) n"
proof -
  note w = server_call_world [OF assms(1)]
  have "same_device (w_devices (fst st) (srv_dev (snd st))) (w_devices (fst st') (srv_dev (snd st)))"
    using w assms(2) by (fastforce simp: Server_device_def)
  then show ?thesis
    using w by (cases "m_dev n = srv_dev (snd st)") (simp_all add: master_isOpen_def same_device_def Device_isOpen_def)
qed

lemma Server_Private_open_masters:
  assumes "Server_Private_open K L SV st = Inr (ok, st')"
  shows "r_master (snd st') = r_master (snd st) \<and> (\<forall>n. master_isOpen (fst st') n = master_isOpen (fst st) n)"
  using assms
proof (rule Server_Private_openE)
  fix l st1
  assume 1: "(case nl_net l of
        Tcp \<Rightarrow> and_then (server_call (Device_call (\<lambda>c. modbus_tcp_pi_listen SV c 1)) st)
                 (\<lambda>(s, w, v). Inr (s \<noteq> -1, w, v\<lparr>sock := s\<rparr>))
      | Rtu \<Rightarrow> server_call (Device_Private_open L) st
      | NoNet \<Rightarrow> Inr (False, st)) = Inr (ok, st1)"
    and 2: "st' = st1 \<or> (\<exists>m. st' = (fst st1, (snd st1)\<lparr>req := Some m\<rparr>))"
  have "r_master (snd st1) = r_master (snd st) \<and> (\<forall>n. master_isOpen (fst st1) n = master_isOpen (fst st) n)"
  proof (cases "nl_net l")
    case Rtu
    then have c: "server_call (Device_Private_open L) st = Inr (ok, st1)" using 1 by simp
    show ?thesis using server_call_masters [OF c Device_Private_open_same] by auto
  next
    case Tcp
    then obtain s w v where c: "server_call (Device_call (\<lambda>c. modbus_tcp_pi_listen SV c 1)) st = Inr (s, w, v)"
      and st1: "st1 = (w, v\<lparr>sock := s\<rparr>)"
      using 1 by (auto simp: and_then_eq_Inr)
    show ?thesis using server_call_masters [OF c Device_call_same] by (auto simp: st1)
  qed (use 1 in simp)
  with 2 show ?thesis by (elim disjE exE) simp_all
qed

text \<open>C16. Opening a router opens all of its masters or none: it answers true only when every master
  is open, and when it answers false every master is closed, also those that were open before
  and those that could be opened.\<close>

theorem router_opens_all_or_none:
  assumes "Router_Private_open K L SV st = Inr (ok, st')"
  shows "r_master (snd st') = r_master (snd st) \<and>
    (\<forall>m \<in> snd ` set (r_master (snd st)). master_isOpen (fst st') m = ok)"
proof -
  obtain ok1 w ms where 1: "open_masters L True (fst st) (r_master (snd st)) = Inr (ok1, w, ms)"
    and r: "and_then (if ok1 then Server_Private_open K L SV (w, (snd st)\<lparr>r_master := ms\<rparr>)
        else Inr (False, w, (snd st)\<lparr>r_master := ms\<rparr>)) (\<lambda>(isOk', st2).
      if \<not> isOk' then and_then (Router_close_all L st2) (\<lambda>st3. Inr (isOk', st3)) else Inr (isOk', st2))
      = Inr (ok, st')"
    using assms unfolding Router_Private_open_def Let_def by (auto simp: and_then_eq_Inr)
  note e = open_masters_effect [OF 1]
  obtain ok2 st2 where 2: "(if ok1 then Server_Private_open K L SV (w, (snd st)\<lparr>r_master := ms\<rparr>)
      else Inr (False, w, (snd st)\<lparr>r_master := ms\<rparr>)) = Inr (ok2, st2)"
    and 3: "(if \<not> ok2 then and_then (Router_close_all L st2) (\<lambda>st3. Inr (ok2, st3)) else Inr (ok2, st2)) = Inr (ok, st')"
    using r by (rule and_then_pairE) simp
  have s: "r_master (snd st2) = r_master (snd st)"
    and o: "ok2 \<Longrightarrow> ok1 \<and> (\<forall>n. master_isOpen (fst st2) n = master_isOpen w n)"
    using 2 e Server_Private_open_masters [of K L SV "(w, (snd st)\<lparr>r_master := ms\<rparr>)" ok2 st2]
    by (auto split: if_splits)
  show ?thesis
  proof (cases ok2)
    case True
    then show ?thesis using 3 s o e by simp
  next
    case False
    with 3 have "Router_close_all L st2 = Inr st'" and "\<not> ok" by (auto simp: and_then_eq_Inr)
    then show ?thesis using Router_close_all_effect [of L st2 st'] s by simp
  qed
qed

text \<open>C36. Adding a master under a name that is taken destroys the old master, which the slaves of the
  router still point to: afterwards no master of the router has the device of those slaves, so
  that nothing opens or closes it any more.\<close>

theorem router_replaced_master_dangles:
  assumes "\<not> Server_isOpen st" and "map_wf (r_master (snd st))"
    and "map_of (r_master (snd st)) name = Some old" and "Router_addMaster i st name = Inr st'"
    and "i \<noteq> m_dev old" and "\<And>n m. map_of (r_master (snd st)) n = Some m \<Longrightarrow> n \<noteq> name \<Longrightarrow> m_dev m \<noteq> m_dev old"
    and "srv_slaves (snd st) a = Some s" and "slave_dev s = Some (m_dev old)"
  shows "srv_slaves (snd st') a = Some s \<and>
    (\<forall>n m. Router_master st' n = Inr m \<longrightarrow> m_dev m \<noteq> m_dev old) \<and> map_wf (r_master (snd st'))"
proof -
  let ?m = "\<lparr>m_dev = i, m_slaves = Map.empty\<rparr>"
  have st': "srv_slaves (snd st') = srv_slaves (snd st)"
    "r_master (snd st') = map_insert name ?m (if map_of (r_master (snd st)) name \<noteq> None
        then map_erase name (r_master (snd st)) else r_master (snd st))"
    using assms(1,4) by (auto simp: Router_addMaster_def Router_Private_addMaster_def Master_new_def Let_def)
  have "map_of (r_master (snd st')) n = (if n = name then Some ?m else map_of (r_master (snd st)) n)" for n
    unfolding st'(2) by (rule masters.get_replace [OF assms(2)])
  then show ?thesis
    using st' assms(5-7) masters.wf_replace [OF assms(2), of name ?m]
    by (auto simp: Router_master_def map_at_def split: option.splits if_splits)
qed

text \<open>A router with one closed master, device 1, whose own address is taken; slave 3 is served
  through the master.\<close>

definition refusing_server_api :: "nat modbus_server" where
  "refusing_server_api = sample_server_api\<lparr>modbus_tcp_pi_listen := (\<lambda>c _. (-1, Some (OtherErrno 98), c))\<rparr>"

definition sample_router :: "nat rstate" where
  "sample_router = (sample_world\<lparr>w_devices := (\<lambda>_. (sample_device 0)\<lparr>dev_isOpen := False\<rparr>)\<rparr>,
     server.extend ((Server_Private 0)\<lparr>srv_slaves := [3 \<mapsto> sample_slave (Some 1)]\<rparr>)
       \<lparr>r_master = [(''rs485'', \<lparr>m_dev = 1, m_slaves = Map.empty\<rparr>)]\<rparr>)"

theorem router_opens_all_or_none_witness:
  "\<exists>st'. Router_Private_open libmodbus_values sample_link refusing_server_api sample_router = Inr (False, st') \<and>
    \<not> Device_isOpen (w_devices (fst st') 1)"
proof -
  have "\<exists>st'. Router_Private_open libmodbus_values sample_link refusing_server_api sample_router = Inr (False, st')"
    by (simp add: Router_Private_open_def sample_router_def server.extend_def Server_Private_def Master_open_def
        master_call_def on_device_def Device_open_def Device_isValid_def Device_isOpen_def Device_Private_open_def
        Device_call_def on_ctx_def sample_device_def sample_link_def sample_world_def Let_def
        Server_Private_open_def Server_device_def server_call_def refusing_server_api_def Router_close_all_def
        Master_close_def unit_of_def Device_close_def Device_Private_close_def)
  then obtain st' where st': "Router_Private_open libmodbus_values sample_link refusing_server_api sample_router = Inr (False, st')" ..
  show ?thesis
    using st' router_opens_all_or_none [OF st']
    by (auto simp: master_isOpen_def sample_router_def server.extend_def Server_Private_def)
qed

theorem router_replaced_master_dangles_witness:
  "\<exists>st' s. Router_addMaster 7 sample_router ''rs485'' = Inr st' \<and> srv_slaves (snd st') 3 = Some s \<and>
    slave_dev s = Some 1 \<and> (\<forall>n m. Router_master st' n = Inr m \<longrightarrow> m_dev m \<noteq> 1)"
proof -
  obtain st' where st': "Router_addMaster 7 sample_router ''rs485'' = Inr st'"
    by (simp add: Router_addMaster_def sample_router_def Server_isOpen_def Server_device_def Device_isOpen_def)
  have "srv_slaves (snd st') 3 = Some (sample_slave (Some 1)) \<and>
      (\<forall>n m. Router_master st' n = Inr m \<longrightarrow> m_dev m \<noteq> m_dev \<lparr>m_dev = 1, m_slaves = Map.empty\<rparr>) \<and> map_wf (r_master (snd st'))"
    by (rule router_replaced_master_dangles [OF _ _ _ st'])
      (auto simp: sample_router_def server.extend_def Server_Private_def Server_isOpen_def Server_device_def
        Device_isOpen_def map_wf_def split: if_splits)
  then show ?thesis using st' by auto
qed

end
