(* ===== verification/Json_Config.thy ===== *)
theory Json_Config
  imports Router_Model
begin

text \<open>
  The configuration of the objects from JSON: \<open>setConfig\<close> and its helpers in
  \<open>src/json_p.h\<close>, \<open>src/slave.cpp\<close>, \<open>src/bufferedslave.cpp\<close>, \<open>src/device.cpp\<close>, \<open>src/master.cpp\<close>,
  \<open>src/server.cpp\<close> and \<open>src/router.cpp\<close>. The JSON library is a record of the accesses that the
  code makes, on values of a type \<open>'j\<close>; the arithmetic of \<open>double\<close> is another, on a type \<open>'d\<close>.
\<close>

section \<open>The JSON library\<close>

text \<open>\<open>member\<close> is \<open>operator[]\<close>, \<open>elements\<close> what a range \<open>for\<close> visits, \<open>get_number\<close> the object
  representation of \<open>get<T>\<close>. \<open>long double\<close> is a type \<open>'l\<close>, with \<open>std::stold\<close>,
  the comparisons with the limits of \<open>float\<close> and \<open>double\<close>, and the conversion to these.\<close>

record ('j, 'd, 'l) json_api =
  contains :: "'j \<Rightarrow> string \<Rightarrow> bool"
  member :: "'j \<Rightarrow> string \<Rightarrow> 'j res"
  elements :: "'j \<Rightarrow> 'j list"
  is_array :: "'j \<Rightarrow> bool"
  is_string :: "'j \<Rightarrow> bool"
  is_null :: "'j \<Rightarrow> bool"
  get_string :: "'j \<Rightarrow> string res"
  get_int :: "'j \<Rightarrow> int res"
  get_bool :: "'j \<Rightarrow> bool res"
  get_double :: "'j \<Rightarrow> 'd res"
  get_number :: "DataEnum \<Rightarrow> 'j \<Rightarrow> u8 list res"
  std_stold :: "string \<Rightarrow> ('l \<times> nat) res"
  ld_above :: "DataEnum \<Rightarrow> 'l \<Rightarrow> bool"
  ld_below :: "DataEnum \<Rightarrow> 'l \<Rightarrow> bool"
  ld_bytes :: "DataEnum \<Rightarrow> 'l \<Rightarrow> u8 list"

text \<open>The enumerators of \<open>NLOHMANN_JSON_SERIALIZE_ENUM\<close> with the name of each, \<open>None\<close> for
  \<open>nullptr\<close>: the first pair that matches, and the first of the table when none does.\<close>

definition json_is :: "('j, 'd, 'l) json_api \<Rightarrow> 'j \<Rightarrow> string option \<Rightarrow> bool" where
  "json_is J j name \<longleftrightarrow>
     (case name of None \<Rightarrow> is_null J j | Some s \<Rightarrow> is_string J j \<and> get_string J j = Inr s)"

definition get_enum :: "('j, 'd, 'l) json_api \<Rightarrow> ('e \<times> string option) list \<Rightarrow> 'j \<Rightarrow> 'e" where
  "get_enum J table j =
     (case find (\<lambda>p. json_is J j (snd p)) table of Some p \<Rightarrow> fst p | None \<Rightarrow> fst (hd table))"

definition Table_names :: "(Table \<times> string option) list" where
  "Table_names = [(DiscreteInput, Some ''discrete-input''), (Coil, Some ''coil''),
     (InputRegister, Some ''input-register''), (HoldingRegister, Some ''holding-register'')]"

definition Net_names :: "(Net \<times> string option) list" where
  "Net_names = [(Rtu, Some ''rtu''), (Tcp, Some ''tcp''), (NoNet, None)]"

definition DataEnum_names :: "(DataEnum \<times> string option) list" where
  "DataEnum_names = [(Uint16, Some ''uint16''), (Uint32, Some ''uint32''), (Uint64, Some ''uint64''),
     (Int16, Some ''int16''), (Int32, Some ''int32''), (Int64, Some ''int64''), (Float, Some ''float''),
     (Double, Some ''double''), (LongDouble, Some ''longdouble'')]"

definition Endian_names :: "(Endian \<times> string option) list" where
  "Endian_names = [(EndianBigBig, Some ''abcd''), (EndianBigLittle, Some ''cdab''),
     (EndianLittleBig, Some ''badc''), (EndianLittleLittle, Some ''dcba'')]"

text \<open>The values of the two serial enumerations are constants of libmodbus; \<open>Unknown\<close> is -1.\<close>

record serial_consts =
  MODBUS_RTU_RS232 :: int
  MODBUS_RTU_RS485 :: int

definition SerialMode_names :: "serial_consts \<Rightarrow> (int \<times> string option) list" where
  "SerialMode_names C = [(MODBUS_RTU_RS232 C, Some ''rs232''), (MODBUS_RTU_RS485 C, Some ''rs485''), (-1, None)]"

definition SerialRts_names :: "'c rtu_api \<Rightarrow> (int \<times> string option) list" where
  "SerialRts_names R = [(MODBUS_RTU_RTS_NONE R, Some ''none''), (MODBUS_RTU_RTS_UP R, Some ''up''),
     (MODBUS_RTU_RTS_DOWN R, Some ''down''), (-1, None)]"

text \<open>\<open>if (j.contains (key)) j[key].get_to (x)\<close>: the old value, or what the member holds.\<close>

definition get_to :: "('j, 'd, 'l) json_api \<Rightarrow> 'j \<Rightarrow> string \<Rightarrow> ('j \<Rightarrow> 'x res) \<Rightarrow> 'x \<Rightarrow> 'x res" where
  "get_to J j key get x = (if contains J j key then and_then (member J j key) get else Inr x)"

text \<open>The body \<open>f\<close> of a loop on each element, on a state.\<close>

fun for_each :: "('e \<Rightarrow> 's \<Rightarrow> 's res) \<Rightarrow> 'e list \<Rightarrow> 's \<Rightarrow> 's res" where
  "for_each f [] s = Inr s"
| "for_each f (x # xs) s = and_then (f x s) (for_each f xs)"

section \<open>Slave\<close>

definition Json_Slave_setConfig :: "('j, 'd, 'l) json_api \<Rightarrow> 'a slave_scheme \<Rightarrow> 'j \<Rightarrow> 'a slave_scheme res" where
  "Json_Slave_setConfig J s j =
     and_then (member J j ''id'') (\<lambda>m. and_then (get_int J m) (\<lambda>i.
     let s1 = Slave_setNumber s i
     in if contains J j ''pdu-adressing''
        then and_then (member J j ''pdu-adressing'') (\<lambda>m. and_then (get_bool J m) (\<lambda>b.
             Inr (Slave_setPduAddressing s1 b)))
        else Inr s1))"

section \<open>Values of the tables\<close>

text \<open>One value: the bits it adds, and how many of them are counted.\<close>

definition bit_value :: "('j, 'd, 'l) json_api \<Rightarrow> int \<Rightarrow> 'j \<Rightarrow> u8 list res" where
  "bit_value J nmemb v =
     (if is_string J v
      then and_then (get_string J v) (\<lambda>str.
           and_then (std_stoull str 0) (\<lambda>(ul, idx).
           if idx < length str \<or> ul > 255 then Inl Invalid_argument
           else let m = min nmemb 8; byte = (ucast ul :: u8)
                in Inr (map (\<lambda>i. of_bool (bit byte i)) [0..<nat m])))
      else (case get_bool J v of
              Inr b \<Rightarrow> Inr [of_bool b]
            | Inl _ \<Rightarrow> and_then (get_int J v) (\<lambda>i.
                if i \<noteq> 0 \<and> i \<noteq> 1 then Inl Invalid_argument else Inr [of_bool (i \<noteq> 0)])))"

fun getBitValues :: "('j, 'd, 'l) json_api \<Rightarrow> u8 list \<Rightarrow> int \<Rightarrow> 'j list \<Rightarrow> u8 list res" where
  "getBitValues J data nmemb [] = Inr data"
| "getBitValues J data nmemb (v # vs) =
     and_then (bit_value J nmemb v) (\<lambda>bits.
       let data' = data @ bits; nmemb' = nmemb - int (length bits)
       in if nmemb' \<le> 0 then Inr data' else getBitValues J data' nmemb' vs)"

definition Json_writeBits ::
    "('j, 'd, 'l) json_api \<Rightarrow> 'c modbus_client \<Rightarrow> 'c bstate \<Rightarrow> 'j \<Rightarrow> (int \<times> 'c bstate) res" where
  "Json_writeBits J M st block =
     and_then (member J block ''values'') (\<lambda>values.
     and_then (member J block ''quantity'') (\<lambda>q. and_then (get_int J q) (\<lambda>nmemb.
     if is_array J values \<and> length (elements J values) > 0 \<and> nmemb > 0
     then and_then (member J block ''table'') (\<lambda>t.
          let table = get_enum J Table_names t
          in and_then (get_to J block ''values-address'' (get_int J) (Slave_dataAddress (snd st) 0)) (\<lambda>addr.
             and_then (getBitValues J [] nmemb (elements J values)) (\<lambda>vect.
             if length vect > 0
             then if table = Coil
                  then BufferedSlave_writeCoils M st addr vect (int (length vect))
                  else BufferedSlave_writeDiscreteInputs st addr vect (int (length vect))
             else Inr (0, st))))
     else Inr (0, st))))"

definition strToT_float :: "('j, 'd, 'l) json_api \<Rightarrow> DataEnum \<Rightarrow> string \<Rightarrow> u8 list res" where
  "strToT_float J T str =
     and_then (std_stold J str) (\<lambda>(x, idx).
       if ld_above J T x \<or> ld_below J T x then Inl Out_of_range
       else if idx < length str then Inl Invalid_argument
       else Inr (ld_bytes J T x))"

text \<open>\<open>strToT\<close> for each type; no branch of it takes \<open>long double\<close>.\<close>

definition bytes_of_int :: "nat \<Rightarrow> int \<Rightarrow> u8 list" where
  "bytes_of_int n x = le_bytes n (nat (x mod 2 ^ (8 * n)))"

definition strToT :: "('j, 'd, 'l) json_api \<Rightarrow> nat \<Rightarrow> DataEnum \<Rightarrow> string \<Rightarrow> u8 list res" where
  "strToT J ld T str =
     (let n = DataType_size ld T
      in if T \<in> {Uint16, Uint32, Uint64}
         then and_then (strToT_unsigned (8 * n) str 0) (\<lambda>x. Inr (le_bytes n x))
         else if T \<in> {Int16, Int32, Int64}
         then and_then (strToT_signed (8 * n) str 0) (\<lambda>x. Inr (bytes_of_int n x))
         else if T \<in> {Float, Double} then strToT_float J T str
         else if 0 < length str then Inl Invalid_argument else Inr (replicate n 0))"

definition data_value :: "('j, 'd, 'l) json_api \<Rightarrow> nat \<Rightarrow> DataEnum \<Rightarrow> Endian \<Rightarrow> 'j \<Rightarrow> data res" where
  "data_value J ld T endian v =
     (let n = DataType_size ld T; d = Data_setEndianness (Data_default n EndianBigBig) endian
      in if is_string J v
         then and_then (get_string J v) (\<lambda>s.
              case strToT J ld T s of
                Inr bytes \<Rightarrow> Inr (d\<lparr>m_value := bytes\<rparr>)
              | Inl _ \<Rightarrow> Inr (Data_assign d (replicate n 0)))
         else and_then (get_number J T v) (\<lambda>t. Inr (Data_assign d t)))"

fun getDataValues :: "('j, 'd, 'l) json_api \<Rightarrow> nat \<Rightarrow> DataEnum \<Rightarrow> Endian \<Rightarrow> 'j list \<Rightarrow> data list res" where
  "getDataValues J ld T endian [] = Inr []"
| "getDataValues J ld T endian (v # vs) =
     and_then (data_value J ld T endian v) (\<lambda>d.
     and_then (getDataValues J ld T endian vs) (\<lambda>ds. Inr (d # ds)))"

text \<open>The template \<open>writeRegisters<T>\<close>.\<close>

definition Json_writeRegisters_T ::
    "('j, 'd, 'l) json_api \<Rightarrow> nat \<Rightarrow> 'c modbus_client \<Rightarrow> DataEnum \<Rightarrow> 'c bstate \<Rightarrow> 'j \<Rightarrow> (int \<times> 'c bstate) res" where
  "Json_writeRegisters_T J ld M T st block =
     and_then (member J block ''values'') (\<lambda>values.
     and_then (member J block ''quantity'') (\<lambda>q. and_then (get_int J q) (\<lambda>nmemb.
     if is_array J values \<and> length (elements J values) > 0 \<and> nmemb > 0
     then and_then (get_to J block ''endian'' (\<lambda>e. Inr (get_enum J Endian_names e)) EndianBigBig) (\<lambda>endian.
          and_then (getDataValues J ld T endian (elements J values)) (\<lambda>vect.
          if length vect > 0
          then and_then (member J block ''table'') (\<lambda>t.
               and_then (get_to J block ''values-address'' (get_int J) (Slave_dataAddress (snd st) 0)) (\<lambda>addr.
               and_then (Slave_writeData (if get_enum J Table_names t = HoldingRegister
                     then BufferedSlave_writeRegisters M else BufferedSlave_writeInputRegisters)
                   st addr vect (int (length vect))) (\<lambda>(rc, _, st'). Inr (rc, st'))))
          else Inr (0, st)))
     else Inr (0, st))))"

definition Json_writeRegisters ::
    "('j, 'd, 'l) json_api \<Rightarrow> nat \<Rightarrow> 'c modbus_client \<Rightarrow> 'c bstate \<Rightarrow> 'j \<Rightarrow> (int \<times> 'c bstate) res" where
  "Json_writeRegisters J ld M st block =
     and_then (get_to J block ''data-type'' (\<lambda>t. Inr (get_enum J DataEnum_names t)) Uint16)
       (\<lambda>dt. Json_writeRegisters_T J ld M dt st block)"

section \<open>Buffered slave\<close>

text \<open>\<open>nmemb *= dt.size() / 2\<close> is computed on 64 bits without sign and stored to an \<open>int\<close>.\<close>

definition to_int32 :: "int \<Rightarrow> int" where
  "to_int32 x = sint (word_of_int x :: u32)"

definition config_block ::
    "('j, 'd, 'l) json_api \<Rightarrow> nat \<Rightarrow> memory \<Rightarrow> 'c modbus_client \<Rightarrow> 'j \<Rightarrow> 'c bstate \<Rightarrow> 'c bstate res" where
  "config_block J ld A M block st =
     and_then (member J block ''table'') (\<lambda>t.
     let table = get_enum J Table_names t
     in and_then (member J block ''quantity'') (\<lambda>q. and_then (get_int J q) (\<lambda>nmemb.
        and_then (get_to J block ''starting-address'' (get_int J) (Slave_dataAddress (snd st) 0)) (\<lambda>startAddr.
        and_then (get_to J block ''data-type''
            (\<lambda>t. Inr (to_int32 (nmemb * int (DataType_size ld (get_enum J DataEnum_names t) div 2)))) nmemb) (\<lambda>n.
        and_then (BufferedSlave_setBlock A (snd st) table n startAddr) (\<lambda>(_, s1).
        let st1 = (fst st, s1)
        in if contains J block ''values''
           then and_then (if table = InputRegister \<or> table = HoldingRegister
                          then Json_writeRegisters J ld M st1 block else Json_writeBits J M st1 block)
                  (\<lambda>(_, st2). Inr st2)
           else Inr st1))))))"

definition Json_BufferedSlave_setConfig ::
    "('j, 'd, 'l) json_api \<Rightarrow> nat \<Rightarrow> memory \<Rightarrow> 'c modbus_client \<Rightarrow> 'c bstate \<Rightarrow> 'j \<Rightarrow> 'c bstate res" where
  "Json_BufferedSlave_setConfig J ld A M st j =
     and_then (Json_Slave_setConfig J (snd st) j) (\<lambda>s1.
     if contains J j ''blocks''
     then and_then (member J j ''blocks'') (\<lambda>blocks.
          for_each (config_block J ld A M) (elements J blocks) (fst st, s1))
     else Inr (fst st, s1))"

section \<open>Timeouts in seconds\<close>

text \<open>The arithmetic of \<open>double\<close> and its conversions, as far as \<open>Timeout\<close> uses them.\<close>

record 'd double_api =
  double_of_u32 :: "u32 \<Rightarrow> 'd"
  u32_of_double :: "'d \<Rightarrow> u32"
  double_add :: "'d \<Rightarrow> 'd \<Rightarrow> 'd"
  double_sub :: "'d \<Rightarrow> 'd \<Rightarrow> 'd"
  double_mul :: "'d \<Rightarrow> 'd \<Rightarrow> 'd"
  double_div :: "'d \<Rightarrow> 'd \<Rightarrow> 'd"

definition Timeout_setValue_double :: "'d double_api \<Rightarrow> 'd \<Rightarrow> timeout" where
  "Timeout_setValue_double F t =
     (let sec = u32_of_double F t
      in \<lparr>m_sec = sec, m_usec = u32_of_double F
           (double_mul F (double_sub F t (double_of_u32 F sec)) (double_of_u32 F 1000000))\<rparr>)"

definition Timeout_new_double :: "'d double_api \<Rightarrow> 'd \<Rightarrow> timeout" where
  "Timeout_new_double F t = Timeout_setValue_double F t"

definition Timeout_value :: "'d double_api \<Rightarrow> timeout \<Rightarrow> 'd" where
  "Timeout_value F t =
     double_add F (double_of_u32 F (m_sec t)) (double_div F (double_of_u32 F (m_usec t)) (double_of_u32 F 1000000))"

definition Device_setResponseTimeout_double ::
    "'d double_api \<Rightarrow> 'c modbus_link \<Rightarrow> 'c dev_state \<Rightarrow> 'd \<Rightarrow> (bool \<times> 'c dev_state) res" where
  "Device_setResponseTimeout_double F L st t = Device_setResponseTimeout L st (Timeout_new_double F t)"

definition Device_responseTimeout_double ::
    "'d double_api \<Rightarrow> 'c modbus_link \<Rightarrow> 'c dev_state \<Rightarrow> ('d \<times> 'c dev_state) res" where
  "Device_responseTimeout_double F L st =
     and_then (Device_responseTimeout L st) (\<lambda>(_, t, st'). Inr (Timeout_value F t, st'))"

definition Device_setByteTimeout_double ::
    "'d double_api \<Rightarrow> 'c modbus_link \<Rightarrow> 'c dev_state \<Rightarrow> 'd \<Rightarrow> (bool \<times> 'c dev_state) res" where
  "Device_setByteTimeout_double F L st t = Device_setByteTimeout L st (Timeout_new_double F t)"

definition Device_byteTimeout_double ::
    "'d double_api \<Rightarrow> 'c modbus_link \<Rightarrow> 'c dev_state \<Rightarrow> ('d \<times> 'c dev_state) res" where
  "Device_byteTimeout_double F L st =
     and_then (Device_byteTimeout L st) (\<lambda>(_, t, st'). Inr (Timeout_value F t, st'))"

definition Device_setIndicationTimeout_double ::
    "'d double_api \<Rightarrow> 'c modbus_link \<Rightarrow> 'c dev_state \<Rightarrow> 'd \<Rightarrow> (bool \<times> 'c dev_state) res" where
  "Device_setIndicationTimeout_double F L st t = Device_setIndicationTimeout L st (Timeout_new_double F t)"

definition Device_indicationTimeout_double ::
    "'d double_api \<Rightarrow> 'c modbus_link \<Rightarrow> 'c dev_state \<Rightarrow> ('d \<times> 'c dev_state) res" where
  "Device_indicationTimeout_double F L st =
     and_then (Device_indicationTimeout L st) (\<lambda>(_, t, st'). Inr (Timeout_value F t, st'))"

section \<open>Device\<close>

text \<open>The layer of an RTU device, for the serial calls.\<close>

definition rtu_call :: "('c netlayer \<Rightarrow> 'c layer_reply) \<Rightarrow> 'c dev_state \<Rightarrow> (bool \<times> 'c dev_state) res" where
  "rtu_call f st =
     and_then (Device_rtu (snd st)) (\<lambda>l. case f l of (ok, e, l') \<Rightarrow>
       Inr (ok, set_errno e (fst st), (snd st)\<lparr>dev_backend := Some l'\<rparr>))"

text \<open>The functions that \<open>setConfig\<close> calls on the device of a master, a server or a router: two
  are virtual, the others those of the class \<open>Device\<close>.\<close>

record ('s, 'd) device_class =
  dc_setBackend :: "'s \<Rightarrow> Net \<Rightarrow> string \<Rightarrow> string \<Rightarrow> (bool \<times> 's) res"
  dc_setRecoveryLink :: "'s \<Rightarrow> bool \<Rightarrow> (bool \<times> 's) res"
  dc_setDebug :: "'s \<Rightarrow> bool \<Rightarrow> (bool \<times> 's) res"
  dc_setResponseTimeout :: "'s \<Rightarrow> 'd \<Rightarrow> (bool \<times> 's) res"
  dc_setByteTimeout :: "'s \<Rightarrow> 'd \<Rightarrow> (bool \<times> 's) res"
  dc_setSerialMode :: "'s \<Rightarrow> int \<Rightarrow> (bool \<times> 's) res"
  dc_setRts :: "'s \<Rightarrow> int \<Rightarrow> (bool \<times> 's) res"
  dc_setRtsDelay :: "'s \<Rightarrow> int \<Rightarrow> (bool \<times> 's) res"

text \<open>\<open>if (j.contains (key)) \<dots>\<close> with a call of the device.\<close>

definition config_member ::
    "('j, 'd, 'l) json_api \<Rightarrow> 'j \<Rightarrow> string \<Rightarrow> ('j \<Rightarrow> 'x res) \<Rightarrow> ('s \<Rightarrow> 'x \<Rightarrow> (bool \<times> 's) res) \<Rightarrow> 's \<Rightarrow> 's res" where
  "config_member J j key getter setter s =
     (if contains J j key
      then and_then (member J j key) (\<lambda>m. and_then (getter m) (\<lambda>x. and_then (setter s x) (\<lambda>(_, s'). Inr s')))
      else Inr s)"

definition Json_Device_setConfig ::
    "('j, 'd, 'l) json_api \<Rightarrow> 'd double_api \<Rightarrow> serial_consts \<Rightarrow> 'c rtu_api \<Rightarrow> ('s, 'd) device_class \<Rightarrow> 's \<Rightarrow> 'j \<Rightarrow> 's res" where
  "Json_Device_setConfig J F C R D s config =
     and_then (and_then (member J config ''connection'') (get_string J)) (\<lambda>connection.
     and_then (and_then (member J config ''settings'') (get_string J)) (\<lambda>settings.
     and_then (member J config ''mode'') (\<lambda>m.
     let n = get_enum J Net_names m
     in and_then (dc_setBackend D s n connection settings) (\<lambda>(ok, s0).
        if \<not> ok then Inr s0
        else and_then (config_member J config ''recovery-link'' (get_bool J) (dc_setRecoveryLink D) s0) (\<lambda>s1.
             and_then (config_member J config ''debug'' (get_bool J) (dc_setDebug D) s1) (\<lambda>s2.
             and_then (config_member J config ''response-timeout'' (get_double J)
                 (\<lambda>s d. dc_setResponseTimeout D s (double_div F d (double_of_u32 F 1000))) s2) (\<lambda>s3.
             and_then (config_member J config ''byte-timeout'' (get_double J)
                 (\<lambda>s d. dc_setByteTimeout D s (double_div F d (double_of_u32 F 1000))) s3) (\<lambda>s4.
             if contains J config ''rtu'' \<and> n = Rtu
             then and_then (member J config ''rtu'') (\<lambda>rtu.
                  and_then (config_member J rtu ''mode'' (\<lambda>m. Inr (get_enum J (SerialMode_names C) m))
                      (dc_setSerialMode D) s4) (\<lambda>s5.
                  and_then (config_member J rtu ''rts'' (\<lambda>m. Inr (get_enum J (SerialRts_names R) m))
                      (dc_setRts D) s5) (\<lambda>s6.
                  config_member J rtu ''rts-delay'' (get_int J) (dc_setRtsDelay D) s6)))
             else Inr s4))))))))"

text \<open>The functions of a master and of a server.\<close>

definition master_class ::
    "mb_consts \<Rightarrow> 'c modbus_link \<Rightarrow> 'c rtu_api \<Rightarrow> 'c modbus_client \<Rightarrow> 'c modbus_master \<Rightarrow> 'd double_api \<Rightarrow>
     ('c mstate, 'd) device_class" where
  "master_class K L R M MM F = \<lparr>
     dc_setBackend = Master_setBackend K L R M,
     dc_setRecoveryLink = Master_setRecoveryLink MM,
     dc_setDebug = (\<lambda>st b. master_call (\<lambda>s. Device_setDebug L s b) st),
     dc_setResponseTimeout = (\<lambda>st t. master_call (\<lambda>s. Device_setResponseTimeout_double F L s t) st),
     dc_setByteTimeout = (\<lambda>st t. master_call (\<lambda>s. Device_setByteTimeout_double F L s t) st),
     dc_setSerialMode = (\<lambda>st m. master_call (rtu_call (\<lambda>l. RtuLayer_setSerialMode R l m)) st),
     dc_setRts = (\<lambda>st r. master_call (rtu_call (\<lambda>l. RtuLayer_setRts R l r)) st),
     dc_setRtsDelay = (\<lambda>st t. master_call (rtu_call (\<lambda>l. RtuLayer_setRtsDelay R l t)) st)\<rparr>"

definition server_class ::
    "mb_consts \<Rightarrow> 'c modbus_link \<Rightarrow> 'c rtu_api \<Rightarrow> 'c modbus_server \<Rightarrow> 'd double_api \<Rightarrow>
     (('c, 'a) sstate, 'd) device_class" where
  "server_class K L R SV F = \<lparr>
     dc_setBackend = Server_setBackend K L R SV,
     dc_setRecoveryLink = (\<lambda>st b. server_call (\<lambda>(e, d). case Device_setRecoveryLink d b of (ok, d') \<Rightarrow> Inr (ok, e, d')) st),
     dc_setDebug = (\<lambda>st b. server_call (\<lambda>s. Device_setDebug L s b) st),
     dc_setResponseTimeout = (\<lambda>st t. server_call (\<lambda>s. Device_setResponseTimeout_double F L s t) st),
     dc_setByteTimeout = (\<lambda>st t. server_call (\<lambda>s. Device_setByteTimeout_double F L s t) st),
     dc_setSerialMode = (\<lambda>st m. server_call (rtu_call (\<lambda>l. RtuLayer_setSerialMode R l m)) st),
     dc_setRts = (\<lambda>st r. server_call (rtu_call (\<lambda>l. RtuLayer_setRts R l r)) st),
     dc_setRtsDelay = (\<lambda>st t. server_call (rtu_call (\<lambda>l. RtuLayer_setRtsDelay R l t)) st)\<rparr>"

definition base_class ::
    "mb_consts \<Rightarrow> 'c modbus_link \<Rightarrow> 'c rtu_api \<Rightarrow> 'd double_api \<Rightarrow> ('c dev_state, 'd) device_class" where
  "base_class K L R F = \<lparr>
     dc_setBackend = (\<lambda>(e, d) n conn s. and_then (Device_setBackend K L R d n conn s) (\<lambda>(ok, d'). Inr (ok, e, d'))),
     dc_setRecoveryLink = (\<lambda>(e, d) b. case Device_setRecoveryLink d b of (ok, d') \<Rightarrow> Inr (ok, e, d')),
     dc_setDebug = Device_setDebug L,
     dc_setResponseTimeout = Device_setResponseTimeout_double F L,
     dc_setByteTimeout = Device_setByteTimeout_double F L,
     dc_setSerialMode = (\<lambda>st m. rtu_call (\<lambda>l. RtuLayer_setSerialMode R l m) st),
     dc_setRts = (\<lambda>st r. rtu_call (\<lambda>l. RtuLayer_setRts R l r) st),
     dc_setRtsDelay = (\<lambda>st t. rtu_call (\<lambda>l. RtuLayer_setRtsDelay R l t) st)\<rparr>"

text \<open>\<open>setConfigFromFile\<close>: \<open>file\<close> is \<open>None\<close> when the file cannot be opened, else what the parser
  makes of it; \<open>std::system_error\<close> is a \<open>std::runtime_error\<close>.\<close>

definition setConfigFromFile ::
    "('j, 'd, 'l) json_api \<Rightarrow> ('s \<Rightarrow> 'j \<Rightarrow> 's res) \<Rightarrow> 's \<Rightarrow> 'j res option \<Rightarrow> string \<Rightarrow> 's res" where
  "setConfigFromFile J setConfig s file key =
     (case file of
        None \<Rightarrow> Inl Runtime_error
      | Some r \<Rightarrow> and_then r (\<lambda>j.
          and_then (if key \<noteq> [] \<and> contains J j key then member J j key else Inr j) (setConfig s)))"

definition Device_new_file ::
    "('j, 'd, 'l) json_api \<Rightarrow> 'd double_api \<Rightarrow> serial_consts \<Rightarrow> mb_consts \<Rightarrow> 'c modbus_link \<Rightarrow> 'c rtu_api \<Rightarrow>
     errno \<Rightarrow> 'j res option \<Rightarrow> string \<Rightarrow> 'c dev_state res" where
  "Device_new_file J F C K L R e file key =
     setConfigFromFile J (Json_Device_setConfig J F C R (base_class K L R F)) (e, Device_new) file key"

section \<open>Master, server and router\<close>

text \<open>The reference that \<open>addSlave\<close> returns is the entry of its argument.\<close>

definition Json_Master_setConfig ::
    "('j, 'd, 'l) json_api \<Rightarrow> 'd double_api \<Rightarrow> serial_consts \<Rightarrow> mb_consts \<Rightarrow> 'c modbus_link \<Rightarrow> 'c rtu_api \<Rightarrow>
     'c modbus_client \<Rightarrow> 'c modbus_master \<Rightarrow> 'c mstate \<Rightarrow> 'j \<Rightarrow> 'c mstate res" where
  "Json_Master_setConfig J F C K L R M MM st j =
     and_then (Json_Device_setConfig J F C R (master_class K L R M MM F) st j) (\<lambda>st1.
     if contains J j ''slaves''
     then and_then (member J j ''slaves'') (\<lambda>slaves.
          for_each (\<lambda>config st.
            and_then (and_then (member J config ''id'') (get_int J)) (\<lambda>i.
            and_then (Master_addSlave M st i) (\<lambda>(w, m).
            and_then (map_at (m_slaves m) i) (\<lambda>slv.
            and_then (Json_Slave_setConfig J slv config) (\<lambda>slv'.
            Inr (w, m\<lparr>m_slaves := (m_slaves m)(i \<mapsto> slv')\<rparr>))))))
          (elements J slaves) st1)
     else Inr st1)"

text \<open>One element of the \<open>slaves\<close> of a server, or of a router for the device \<open>dev\<close>.\<close>

definition config_server_slave ::
    "('j, 'd, 'l) json_api \<Rightarrow> nat \<Rightarrow> memory \<Rightarrow> 'c modbus_client \<Rightarrow> nat option \<Rightarrow> 'j \<Rightarrow> ('c, 'a) sstate \<Rightarrow> ('c, 'a) sstate res" where
  "config_server_slave J ld A M dev config st =
     and_then (and_then (member J config ''id'') (get_int J)) (\<lambda>i.
     and_then (Server_addSlave M st i dev) (\<lambda>st1.
     and_then (on_slave i (\<lambda>b. unit_of (Json_BufferedSlave_setConfig J ld A M b config)) st1) (\<lambda>(_, st2).
     Inr st2)))"

definition Json_Server_setConfig ::
    "('j, 'd, 'l) json_api \<Rightarrow> 'd double_api \<Rightarrow> serial_consts \<Rightarrow> nat \<Rightarrow> memory \<Rightarrow> mb_consts \<Rightarrow> 'c modbus_link \<Rightarrow> 'c rtu_api \<Rightarrow>
     'c modbus_client \<Rightarrow> 'c modbus_server \<Rightarrow> ('c, 'a) sstate \<Rightarrow> 'j \<Rightarrow> ('c, 'a) sstate res" where
  "Json_Server_setConfig J F C ld A K L R M SV st j =
     and_then (Json_Device_setConfig J F C R (server_class K L R SV F) st j) (\<lambda>st1.
     if contains J j ''slaves''
     then and_then (member J j ''slaves'') (\<lambda>slaves.
          for_each (config_server_slave J ld A M None) (elements J slaves) st1)
     else Inr st1)"

text \<open>One element of the \<open>masters\<close> of a router; \<open>new\<close> gives the address of a new master's device.\<close>

definition config_master ::
    "('j, 'd, 'l) json_api \<Rightarrow> 'd double_api \<Rightarrow> serial_consts \<Rightarrow> nat \<Rightarrow> memory \<Rightarrow> mb_consts \<Rightarrow> 'c modbus_link \<Rightarrow> 'c rtu_api \<Rightarrow>
     'c modbus_client \<Rightarrow> 'c modbus_master \<Rightarrow> ('c rstate \<Rightarrow> nat) \<Rightarrow> 'j \<Rightarrow> 'c rstate \<Rightarrow> 'c rstate res" where
  "config_master J F C ld A K L R M MM new mconfig st =
     and_then (and_then (member J mconfig ''name'') (get_string J)) (\<lambda>name.
     let i = new st
     in and_then (Router_addMaster i st name) (\<lambda>st1.
        and_then (on_master name
            (\<lambda>m. unit_of (Json_Device_setConfig J F C R (master_class K L R M MM F) m mconfig)) st1) (\<lambda>(_, st2).
        if contains J mconfig ''slaves''
        then and_then (member J mconfig ''slaves'') (\<lambda>slaves.
             for_each (config_server_slave J ld A M (Some i)) (elements J slaves) st2)
        else Inr st2)))"

definition Json_Router_setConfig ::
    "('j, 'd, 'l) json_api \<Rightarrow> 'd double_api \<Rightarrow> serial_consts \<Rightarrow> nat \<Rightarrow> memory \<Rightarrow> mb_consts \<Rightarrow> 'c modbus_link \<Rightarrow> 'c rtu_api \<Rightarrow>
     'c modbus_client \<Rightarrow> 'c modbus_master \<Rightarrow> 'c modbus_server \<Rightarrow> ('c rstate \<Rightarrow> nat) \<Rightarrow> 'c rstate \<Rightarrow> 'j \<Rightarrow> 'c rstate res" where
  "Json_Router_setConfig J F C ld A K L R M MM SV new st j =
     and_then (Json_Device_setConfig J F C R (server_class K L R SV F) st j) (\<lambda>st1.
     if contains J j ''masters''
     then and_then (member J j ''masters'') (\<lambda>masters.
          for_each (config_master J F C ld A K L R M MM new) (elements J masters) st1)
     else Inr st1)"

section \<open>Constructors from a file\<close>

definition Master_new_file ::
    "('j, 'd, 'l) json_api \<Rightarrow> 'd double_api \<Rightarrow> serial_consts \<Rightarrow> mb_consts \<Rightarrow> 'c modbus_link \<Rightarrow> 'c rtu_api \<Rightarrow>
     'c modbus_client \<Rightarrow> 'c modbus_master \<Rightarrow> nat \<Rightarrow> 'c world \<Rightarrow> 'j res option \<Rightarrow> string \<Rightarrow> 'c mstate res" where
  "Master_new_file J F C K L R M MM i w file key =
     setConfigFromFile J (Json_Master_setConfig J F C K L R M MM) (Master_new i w) file key"

definition Server_new_file ::
    "('j, 'd, 'l) json_api \<Rightarrow> 'd double_api \<Rightarrow> serial_consts \<Rightarrow> nat \<Rightarrow> memory \<Rightarrow> mb_consts \<Rightarrow> 'c modbus_link \<Rightarrow> 'c rtu_api \<Rightarrow>
     'c modbus_client \<Rightarrow> 'c modbus_server \<Rightarrow> nat \<Rightarrow> 'c world \<Rightarrow> 'j res option \<Rightarrow> string \<Rightarrow> ('c, unit) sstate res" where
  "Server_new_file J F C ld A K L R M SV i w file key =
     setConfigFromFile J (Json_Server_setConfig J F C ld A K L R M SV) (Server_new i w) file key"

definition Router_new_file ::
    "('j, 'd, 'l) json_api \<Rightarrow> 'd double_api \<Rightarrow> serial_consts \<Rightarrow> nat \<Rightarrow> memory \<Rightarrow> mb_consts \<Rightarrow> 'c modbus_link \<Rightarrow> 'c rtu_api \<Rightarrow>
     'c modbus_client \<Rightarrow> 'c modbus_master \<Rightarrow> 'c modbus_server \<Rightarrow> ('c rstate \<Rightarrow> nat) \<Rightarrow> nat \<Rightarrow> 'c world \<Rightarrow>
     'j res option \<Rightarrow> string \<Rightarrow> 'c rstate res" where
  "Router_new_file J F C ld A K L R M MM SV new i w file key =
     setConfigFromFile J (Json_Router_setConfig J F C ld A K L R M MM SV new) (Router_new i w) file key"

end
