(* ===== verification/Json_Props.thy ===== *)
theory Json_Props
  imports Json_Config
begin

text \<open>
  What the configuration does with the values of a JSON file: the bits of coils and discrete
  inputs, values written as strings, and the registers that a block of values leaves in a
  buffered slave.
\<close>

section \<open>Bits\<close>

text \<open>A limit below eight cuts the bits of a value.\<close>

lemma bit_value_cut:
  assumes "0 < n"
  shows "bit_value J n v = and_then (bit_value J 8 v) (\<lambda>bs. Inr (take (nat n) bs))"
proof -
  have m: "nat (min n 8) = min (nat n) 8" by linarith
  have t: "take (nat n) (map f [0..<8]) = map f [0..<nat (min n 8)]" for f :: "nat \<Rightarrow> u8"
    by (cases "nat n \<le> 8") (simp_all add: m take_map)
  have one: "take (nat n) [x] = [x]" for x :: u8 using assms by (cases "nat n") auto
  show ?thesis
    unfolding bit_value_def
    by (auto simp: and_then_def Let_def one t split: sum.split prod.split)
qed

text \<open>The values \<open>us\<close> before the rest of the array, while the limit is not reached.\<close>

lemma getBitValues_append:
  assumes "list_all2 (\<lambda>v bs. bit_value J 8 v = Inr bs) us bss" and "0 < n"
  shows "getBitValues J data n (us @ vs) =
    (if n \<le> int (length (concat bss)) then Inr (data @ take (nat n) (concat bss))
     else getBitValues J (data @ concat bss) (n - int (length (concat bss))) vs)"
  using assms
proof (induction us bss arbitrary: data n rule: list_all2_induct)
  case (Cons v us bs bss)
  have v: "bit_value J n v = Inr (take (nat n) bs)"
    by (simp add: bit_value_cut [OF Cons.prems, of J v] Cons.hyps(1) and_then_def)
  show ?case
  proof (cases "n \<le> int (length bs)")
    case True
    then show ?thesis by (simp add: v and_then_def Let_def min_absorb2)
  next
    case False
    then have "take (nat n) bs = bs" by simp
    then show ?thesis
      using False Cons.IH [of "n - int (length bs)" "data @ bs"] by (auto simp: v and_then_def Let_def nat_diff_distrib diff_diff_eq)
  qed
qed simp

text \<open>C24. The values of a bit table are read in order, a string giving the eight bits of its byte,
  lowest first, and a number or a boolean one bit: the result is the first \<open>n\<close> bits of all of
  them, or all of them when there are fewer. A value that is none of these is an error exactly
  when it is reached before \<open>n\<close> bits are found.\<close>

theorem bit_values_taken:
  assumes "0 < n" and "list_all2 (\<lambda>v bs. bit_value J 8 v = Inr bs) us bss"
  shows "getBitValues J [] n us = Inr (take (nat n) (concat bss)) \<and>
    (bit_value J 8 v = Inl e \<longrightarrow> getBitValues J [] n (us @ v # vs) =
       (if n \<le> int (length (concat bss)) then Inr (take (nat n) (concat bss)) else Inl e))"
proof -
  let ?k = "int (length (concat bss))"
  have "getBitValues J [] n (us @ v # vs) = Inl e" if "bit_value J 8 v = Inl e" and "\<not> n \<le> ?k"
  proof -
    have "bit_value J (n - ?k) v = Inl e"
      using that by (simp add: bit_value_cut [of "n - ?k"] and_then_def)
    then show ?thesis
      using that(2) by (simp add: getBitValues_append [OF assms(2,1)] and_then_def)
  qed
  then show ?thesis
    using getBitValues_append [OF assms(2,1), of "[]" "[]"] getBitValues_append [OF assms(2,1), of "[]" "v # vs"]
    by auto
qed

section \<open>Numbers\<close>

text \<open>The bytes of a number are as many as its type has.\<close>

definition numbers_ok :: "('j, 'd, 'l) json_api \<Rightarrow> nat \<Rightarrow> bool" where
  "numbers_ok J ld \<longleftrightarrow>
     (\<forall>T v bs. get_number J T v = Inr bs \<longrightarrow> length bs = DataType_size ld T) \<and>
     (\<forall>T x. length (ld_bytes J T x) = DataType_size ld T)"

lemma strToT_length: "numbers_ok J ld \<Longrightarrow> strToT J ld T s = Inr bs \<Longrightarrow> length bs = DataType_size ld T"
  by (auto simp: strToT_def strToT_float_def Let_def numbers_ok_def bytes_of_int_def and_then_eq_Inr split: if_splits)

lemma data_value_wf:
  assumes "numbers_ok J ld" and "DataType_size ld T = 2 * k" and "data_value J ld T e v = Inr d"
  shows "data_wf k d \<and> m_endian d = e"
proof -
  have n: "length bs = 2 * k" if "get_number J T v = Inr bs" for v bs
    using assms(1,2) that unfolding numbers_ok_def by metis
  have s: "length bs = 2 * k" if "strToT J ld T s = Inr bs" for s bs
    using strToT_length [OF assms(1) that] assms(2) by simp
  let ?d = "Data_setEndianness (Data_default (2 * k) EndianBigBig) e"
  have d: "m_endian ?d = e" "length (m_registers ?d) = k"
    by (simp_all add: Data_setEndianness_def Data_default_def updateRegisters_words)
  have a: "data_wf k (Data_assign ?d bs)" "m_endian (Data_assign ?d bs) = e" if "length bs = 2 * k" for bs
    using that d by (simp_all add: data_wf_def Data_assign_def updateRegisters_words)
  show ?thesis
  proof (cases "is_string J v")
    case True
    then obtain str where str: "get_string J v = Inr str"
      using assms(2,3) by (cases "get_string J v") (simp_all add: data_value_def Let_def and_then_def)
    show ?thesis
    proof (cases "strToT J ld T str")
      case (Inl f)
      then have "d = Data_assign ?d (replicate (2 * k) 0)"
        using assms(2,3) True str by (simp add: data_value_def Let_def and_then_def)
      then show ?thesis using a by simp
    next
      case (Inr bs)
      then have "d = ?d\<lparr>m_value := bs\<rparr>"
        using assms(2,3) True str by (simp add: data_value_def Let_def and_then_def)
      then show ?thesis using d s [OF Inr] by (simp add: data_wf_def)
    qed
  next
    case False
    then show ?thesis
      using assms(2,3) a n by (auto simp: data_value_def Let_def and_then_eq_Inr)
  qed
qed

lemma getDataValues_wf:
  assumes "numbers_ok J ld" and "DataType_size ld T = 2 * k" and "getDataValues J ld T e vs = Inr ds"
  shows "length ds = length vs \<and> list_all (data_wf k) ds \<and> map m_endian ds = replicate (length vs) e"
  using assms(3)
proof (induction vs arbitrary: ds)
  case (Cons v vs)
  then show ?case using data_value_wf [OF assms(1,2)] by (fastforce simp: and_then_eq_Inr)
qed simp

text \<open>C37. A value of a register block that is written as a string, of a signed type, is configured
  as 0 whatever the string is: \<open>strToT\<close> throws on it and the handler assigns 0.\<close>

theorem signed_strings_configure_zero:
  assumes "T \<in> {Int16, Int32, Int64}" and "list_all (\<lambda>v. is_string J v \<and> (\<exists>s. get_string J v = Inr s)) vs"
  shows "\<exists>ds. getDataValues J ld T e vs = Inr ds \<and>
    map m_value ds = replicate (length vs) (replicate (DataType_size ld T) 0)"
  using assms(2)
proof (induction vs)
  case (Cons v vs)
  then obtain s ds where s: "is_string J v" "get_string J v = Inr s"
    and ds: "getDataValues J ld T e vs = Inr ds" "map m_value ds = replicate (length vs) (replicate (DataType_size ld T) 0)"
    by auto
  have "8 * DataType_size ld T \<in> {16, 32, 64}" using assms(1) by auto
  from strToT_signed_always_throws [OF this, of s 0] assms(1)
  obtain f where "strToT J ld T s = Inl f" by (auto simp: strToT_def Let_def and_then_def)
  then show ?case
    using s ds by (simp add: data_value_def and_then_def Let_def Data_assign_def Data_updateRegisters_def)
qed simp

section \<open>Registers\<close>

text \<open>The block has the member \<open>key\<close>, and \<open>get\<close> reads \<open>x\<close> from it.\<close>

definition holds :: "('j, 'd, 'l) json_api \<Rightarrow> 'j \<Rightarrow> string \<Rightarrow> ('j \<Rightarrow> 'x res) \<Rightarrow> 'x \<Rightarrow> bool" where
  "holds J block key get x \<longleftrightarrow> contains J block key \<and> and_then (member J block key) get = Inr x"

lemma holds_get_to: "holds J block key get x \<Longrightarrow> get_to J block key get y = Inr x"
  by (simp add: holds_def get_to_def)

text \<open>A block of \<open>nmemb\<close> values of the type \<open>T\<close> at the data address \<open>start\<close>; the values of the file
  are written from \<open>addr\<close> on.\<close>

definition registers_block ::
    "('j, 'd, 'l) json_api \<Rightarrow> 'j \<Rightarrow> int \<Rightarrow> int \<Rightarrow> DataEnum \<Rightarrow> Endian \<Rightarrow> int \<Rightarrow> 'j list \<Rightarrow> bool" where
  "registers_block J block nmemb start T e addr vals \<longleftrightarrow>
     holds J block ''table'' (\<lambda>t. Inr (get_enum J Table_names t)) HoldingRegister \<and>
     holds J block ''quantity'' (get_int J) nmemb \<and>
     holds J block ''starting-address'' (get_int J) start \<and>
     holds J block ''data-type'' (\<lambda>t. Inr (get_enum J DataEnum_names t)) T \<and>
     holds J block ''endian'' (\<lambda>e. Inr (get_enum J Endian_names e)) e \<and>
     holds J block ''values-address'' (get_int J) addr \<and>
     holds J block ''values'' (\<lambda>v. if is_array J v then Inr (elements J v) else Inl Json_error) vals"

lemma Json_writeRegisters_block:
  assumes "registers_block J block nmemb start T e addr vals" and "vals \<noteq> []" and "0 < nmemb"
    and "getDataValues J ld T e vals = Inr ds" and "ds \<noteq> []"
  shows "Json_writeRegisters J ld M st block =
    and_then (Slave_writeData (BufferedSlave_writeRegisters M) st addr ds (int (length ds))) (\<lambda>(rc, _, st'). Inr (rc, st'))"
  using assms
  by (auto simp: Json_writeRegisters_def Json_writeRegisters_T_def registers_block_def holds_get_to
      holds_def and_then_eq_Inr split: if_splits)

lemma to_int32_id: "0 \<le> x \<Longrightarrow> x < 2 ^ 31 \<Longrightarrow> to_int32 x = x"
  by (simp add: to_int32_def sint_sbintrunc' signed_take_bit_int_eq_self)

text \<open>C17. Values of a block of holding registers come back: when a closed slave without holding
  registers is configured with a block whose memory can be had and that has room for its
  values, then reading values of the type and the order of the block from their address gives
  the values of the file.\<close>

theorem configured_registers_read_back:
  assumes "map_ok (bmap s)" and "blk_tab (map_registers (bmap s)) = None" and "\<not> Slave_isOpen w s"
    and "registers_block J block nmemb start T e addr vals" and "getDataValues J ld T e vals = Inr ds"
    and "numbers_ok J ld" and "DataType_size ld T = 2 * k" and "0 < k" and "vals \<noteq> []"
    and "0 \<le> start" and "start \<le> addr" and "addr + int (length vals * k) \<le> start + nmemb * int k"
    and "nmemb * int k < 2 ^ 31"
    and "calloc_words A (nmemb * int k) = Some (replicate (nat (nmemb * int k)) 0)"
  shows "\<exists>st' dest' st''. config_block J ld A M block (w, s) = Inr st' \<and>
    Slave_readData k (BufferedSlave_readRegisters M) st' addr
        (replicate (length vals) (Data_default (2 * k) e)) (int (length vals))
      = Inr (int (length vals * k), dest', st'') \<and>
    map m_value dest' = map m_value ds"
proof -
  let ?n = "nmemb * int k"
  let ?b = "\<lparr>blk_start = Slave_pduAddress s start, blk_nb = ?n, blk_tab = Some (replicate (nat ?n) 0)\<rparr>"
  let ?s = "s\<lparr>bmap := (bmap s)\<lparr>map_registers := ?b\<rparr>\<rparr>"
  note ds = getDataValues_wf [OF assms(6,7,5)]
  have "0 < int (length vals * k)" using assms(8,9) by simp
  with assms(11,12) have n: "0 < ?n" and last: "addr < start + ?n" by linarith+
  then have nmemb: "0 < nmemb" using assms(8) by (simp add: zero_less_mult_iff)
  have "map_ok (bmap s)" "blk_nb (map_registers (bmap s)) = 0"
    using assms(1,2) by (simp_all add: map_ok_def block_ok_def)
  then have set: "BufferedSlave_setBlock A s HoldingRegister ?n start = Inr (?n, ?s)"
    using nmemb assms(2,8,10,14)
    by (simp add: BufferedSlave_setBlock_def setHoldingRegisterBlock_def set_block_def and_then_def)
  have size: "to_int32 (nmemb * int (DataType_size ld T div 2)) = ?n"
    using n assms(7,13) by (simp add: to_int32_id)
  have "config_block J ld A M block (w, s)
      = and_then (Json_writeRegisters J ld M (w, ?s) block) (\<lambda>(_, st2). Inr st2)"
    using assms(4) set size
    by (auto simp: config_block_def registers_block_def holds_get_to holds_def and_then_eq_Inr and_then_def Let_def
        split: sum.splits)
  also have "\<dots> = and_then (Slave_writeData (BufferedSlave_writeRegisters M) (w, ?s) addr ds (int (length ds)))
      (\<lambda>(_, _, st'). Inr st')"
    using ds assms(9) by (subst Json_writeRegisters_block [OF assms(4,9) nmemb assms(5)])
      (auto simp: and_then_def split: sum.split)
  finally have config: "config_block J ld A M block (w, s) = \<dots>" .
  have "map_ok (bmap ?s)" using assms(1) n by (simp add: map_ok_def block_ok_def)
  then have "serves map_registers (w, ?s) addr (int (length ds * k))"
    using assms(3,11,12) ds last by (simp add: serves_def Slave_pduAddress_def in_block_def)
  moreover have "list_all (data_wf k) (replicate (length vals) (Data_default (2 * k) e))"
    by (simp add: list_all_iff data_wf_def Data_default_def updateRegisters_words)
  ultimately show ?thesis
    using holding_port.data_through_port [of k ds "replicate (length vals) (Data_default (2 * k) e)" "(w, ?s)" addr M]
      ds config
    by (auto simp: Data_default_def map_replicate_const and_then_def)
qed

section \<open>Witnesses\<close>

text \<open>A JSON value, with numbers that are integers.\<close>

datatype sample_json = JNull | JBool bool | JNum int | JStr string | JArr "sample_json list"
  | JObj "(string \<times> sample_json) list"

fun sample_member :: "sample_json \<Rightarrow> string \<Rightarrow> sample_json option" where
  "sample_member (JObj ms) k = map_of ms k"
| "sample_member _ k = None"

definition sample_json_api :: "(sample_json, int, int) json_api" where
  "sample_json_api = \<lparr>
     contains = (\<lambda>j k. sample_member j k \<noteq> None),
     member = (\<lambda>j k. case sample_member j k of Some m \<Rightarrow> Inr m | None \<Rightarrow> Inl Json_error),
     elements = (\<lambda>j. case j of JArr vs \<Rightarrow> vs | JObj ms \<Rightarrow> map snd ms | JNull \<Rightarrow> [] | _ \<Rightarrow> [j]),
     is_array = (\<lambda>j. case j of JArr _ \<Rightarrow> True | _ \<Rightarrow> False),
     is_string = (\<lambda>j. case j of JStr _ \<Rightarrow> True | _ \<Rightarrow> False),
     is_null = (\<lambda>j. j = JNull),
     get_string = (\<lambda>j. case j of JStr s \<Rightarrow> Inr s | _ \<Rightarrow> Inl Json_error),
     get_int = (\<lambda>j. case j of JNum i \<Rightarrow> Inr i | JBool b \<Rightarrow> Inr (of_bool b) | _ \<Rightarrow> Inl Json_error),
     get_bool = (\<lambda>j. case j of JBool b \<Rightarrow> Inr b | _ \<Rightarrow> Inl Json_error),
     get_double = (\<lambda>j. case j of JNum i \<Rightarrow> Inr i | _ \<Rightarrow> Inl Json_error),
     get_number = (\<lambda>T j. case j of JNum i \<Rightarrow> Inr (bytes_of_int (DataType_size 16 T) i) | _ \<Rightarrow> Inl Json_error),
     std_stold = (\<lambda>_. Inl Invalid_argument),
     ld_above = (\<lambda>_ _. False), ld_below = (\<lambda>_ _. False), ld_bytes = (\<lambda>T _. replicate (DataType_size 16 T) 0)\<rparr>"

theorem bit_values_taken_witness:
  "getBitValues sample_json_api [] 10 [JStr ''0xA5'', JBool True, JNum 0] = Inr [1, 0, 1, 0, 0, 1, 0, 1, 1, 0] \<and>
   getBitValues sample_json_api [] 9 [JStr ''0xA5'', JBool True, JNum 0, JNum 2] = Inr [1, 0, 1, 0, 0, 1, 0, 1, 1] \<and>
   getBitValues sample_json_api [] 11 [JStr ''0xA5'', JBool True, JNum 0, JNum 2] = Inl Invalid_argument"
proof -
  have bits: "list_all2 (\<lambda>v bs. bit_value sample_json_api 8 v = Inr bs)
      [JStr ''0xA5'', JBool True, JNum 0] [[1, 0, 1, 0, 0, 1, 0, 1], [1], [0]]"
    by (simp add: bit_value_def sample_json_api_def and_then_def std_stoull_def parse_int_def is_space_def
        digit_value_def Let_def upt_rec)
  have bad: "bit_value sample_json_api 8 (JNum 2) = Inl Invalid_argument"
    by (simp add: bit_value_def sample_json_api_def and_then_def)
  show ?thesis
    using bit_values_taken [OF _ bits, of 10] bit_values_taken [OF _ bits, of 9 "JNum 2" Invalid_argument "[]"]
      bit_values_taken [OF _ bits, of 11 "JNum 2" Invalid_argument "[]"] bad
    by simp
qed

theorem signed_strings_configure_zero_witness:
  "\<exists>ds. getDataValues sample_json_api 16 Int32 EndianBigBig [JStr ''5'', JStr ''-7''] = Inr ds \<and>
    map m_value ds = [[0, 0, 0, 0], [0, 0, 0, 0]]"
proof -
  have "list_all (\<lambda>v. is_string sample_json_api v \<and> (\<exists>s. get_string sample_json_api v = Inr s)) [JStr ''5'', JStr ''-7'']"
    by (simp add: sample_json_api_def)
  moreover have "replicate 4 (0 :: u8) = [0, 0, 0, 0]" by (simp add: numeral_eq_Suc)
  ultimately show ?thesis
    using signed_strings_configure_zero [of Int32 sample_json_api "[JStr ''5'', JStr ''-7'']" 16 EndianBigBig] by simp
qed

definition sample_block :: sample_json where
  "sample_block = JObj [(''table'', JStr ''holding-register''), (''quantity'', JNum 3), (''starting-address'', JNum 1),
     (''data-type'', JStr ''uint32''), (''endian'', JStr ''cdab''), (''values-address'', JNum 3),
     (''values'', JArr [JNum 7, JStr ''0x10203''])]"

lemma sample_registers_block:
  "registers_block sample_json_api sample_block 3 1 Uint32 EndianBigLittle 3 [JNum 7, JStr ''0x10203'']"
  by (simp add: registers_block_def holds_def sample_block_def sample_json_api_def get_enum_def json_is_def
      Table_names_def DataEnum_names_def Endian_names_def)

lemma sample_numbers_ok: "numbers_ok sample_json_api 16"
  by (auto simp: numbers_ok_def sample_json_api_def bytes_of_int_def split: sample_json.splits)

theorem configured_registers_read_back_witness:
  "\<exists>st' dest' st''. config_block sample_json_api 16 sample_memory sample_client sample_block
      (sample_world, BufferedSlave_Private_at empty_mapping 3 None) = Inr st' \<and>
    Slave_readData 2 (BufferedSlave_readRegisters sample_client) st' 3
      [Data_default 4 EndianBigLittle, Data_default 4 EndianBigLittle] 2 = Inr (4, dest', st'') \<and>
    map m_value dest' = [[7, 0, 0, 0], [3, 2, 1, 0]]"
proof -
  let ?s = "BufferedSlave_Private_at empty_mapping 3 None"
  obtain ds where ds: "getDataValues sample_json_api 16 Uint32 EndianBigLittle [JNum 7, JStr ''0x10203''] = Inr ds"
    and v: "map m_value ds = [[7, 0, 0, 0], [3, 2, 1, 0]]"
  proof -
    let ?d = "Data_setEndianness (Data_default 4 EndianBigBig) EndianBigLittle"
    have "data_value sample_json_api 16 Uint32 EndianBigLittle (JNum 7) = Inr (Data_assign ?d (bytes_of_int 4 7))"
      by (simp add: data_value_def sample_json_api_def and_then_def)
    moreover have "strToT_unsigned 32 ''0x10203'' 0 = Inr 66051"
      by (simp add: strToT_unsigned_def std_stoull_def parse_int_def is_space_def digit_value_def and_then_def Let_def)
    then have "data_value sample_json_api 16 Uint32 EndianBigLittle (JStr ''0x10203'')
        = Inr (?d\<lparr>m_value := le_bytes 4 66051\<rparr>)"
      by (simp add: data_value_def strToT_def sample_json_api_def and_then_def)
    moreover have "bytes_of_int 4 7 = [7, 0, 0, 0]" "le_bytes 4 66051 = [3, 2, 1, 0]"
      by (simp_all add: bytes_of_int_def le_bytes_def upt_rec)
    ultimately show thesis
      using that by (simp add: and_then_def Data_assign_def Data_updateRegisters_def)
  qed
  have s: "bmap ?s = empty_mapping" "slave_dev ?s = None"
    by (simp_all add: BufferedSlave_Private_at_def BufferedSlave_Private_def Slave_Private_def slave.extend_def)
  then have "map_ok (bmap ?s)" "blk_tab (map_registers (bmap ?s)) = None" "\<not> Slave_isOpen sample_world ?s"
    by (simp_all add: empty_mapping_def empty_block_def map_ok_def block_ok_def Slave_isOpen_def Slave_isValid_def Slave_device_def)
  note s = this
  have c: "calloc_words sample_memory 6 = Some (replicate 6 0)" by (simp add: sample_memory_def)
  from configured_registers_read_back [OF s sample_registers_block ds sample_numbers_ok, of 2 sample_memory sample_client]
  show ?thesis using v c by simp
qed

end
