(* ===== verification/Object_Access.thy ===== *)
theory Object_Access
  imports Json_Props
begin

text \<open>
  The rest of the interfaces: the accessors of messages and layers, the constructors that take
  the bytes of a buffer or copy a message, the reads of a single value, the configuration of
  an existing device from a file, and the destructors, which close what is open.
\<close>

section \<open>Messages\<close>

definition Message_net :: "message \<Rightarrow> Net" where
  "Message_net m = net m"

definition Message_maxAduLength :: "message \<Rightarrow> u16" where
  "Message_maxAduLength m = maxAduLength m"

definition Message_adu :: "message \<Rightarrow> u8 list" where
  "Message_adu m = adu m"

text \<open>The memory from the pointer on; the address of a byte that the vector has not is undefined.\<close>

definition Message_pdu :: "message \<Rightarrow> u8 list res" where
  "Message_pdu m =
     (if 0 \<le> pduBegin m \<and> pduBegin m < int (length (adu m))
      then Inr (drop (nat (pduBegin m)) (adu m)) else Inl Undefined_behaviour)"

definition Message_pdu_at :: "message \<Rightarrow> u16 \<Rightarrow> u8 res" where
  "Message_pdu_at m i = vget (adu m) (pduBegin m + uint i)"

definition Message_aduSize :: "message \<Rightarrow> nat" where
  "Message_aduSize m = aduSize m"

definition Message_isResponse :: "message \<Rightarrow> bool" where
  "Message_isResponse m = isResponse m"

definition Message_output :: "string \<Rightarrow> message \<Rightarrow> string res" where
  "Message_output os m = and_then (Message_print m) (\<lambda>s. Inr (os @ s))"

text \<open>\<open>std::vector<uint8_t> (adu, adu + len)\<close> for a request and a response.\<close>

definition Request_layer_bytes :: "mb_consts \<Rightarrow> 'c netlayer \<Rightarrow> u8 list \<Rightarrow> nat \<Rightarrow> message res" where
  "Request_layer_bytes K b mem len = and_then (vread mem 0 (int len)) (Request_layer_adu K b)"

definition Request_device_bytes :: "mb_consts \<Rightarrow> 'c device \<Rightarrow> u8 list \<Rightarrow> nat \<Rightarrow> message res" where
  "Request_device_bytes K d mem len = and_then (vread mem 0 (int len)) (Request_device_adu K d)"

definition Request_net_bytes :: "mb_consts \<Rightarrow> Net \<Rightarrow> u8 list \<Rightarrow> nat \<Rightarrow> message res" where
  "Request_net_bytes K n mem len = and_then (vread mem 0 (int len)) (Request_net_adu K n)"

definition Request_copy :: "message \<Rightarrow> message" where
  "Request_copy other = Message_copy other"

definition Response_layer_bytes :: "mb_consts \<Rightarrow> 'c netlayer \<Rightarrow> u8 list \<Rightarrow> nat \<Rightarrow> message res" where
  "Response_layer_bytes K b mem len = and_then (vread mem 0 (int len)) (Response_layer_adu K b)"

definition Response_device_bytes :: "mb_consts \<Rightarrow> 'c device \<Rightarrow> u8 list \<Rightarrow> nat \<Rightarrow> message res" where
  "Response_device_bytes K d mem len = and_then (vread mem 0 (int len)) (Response_device_adu K d)"

definition Response_from_request :: "message \<Rightarrow> message" where
  "Response_from_request m = (Message_copy m)\<lparr>isResponse := True\<rparr>"

definition Response_copy :: "message \<Rightarrow> message" where
  "Response_copy other = Message_copy other"

section \<open>Layers\<close>

definition NetLayer_maxAduLength :: "'c netlayer \<Rightarrow> u16" where
  "NetLayer_maxAduLength l = nl_maxAduLength l"

definition NetLayer_net :: "'c netlayer \<Rightarrow> Net" where
  "NetLayer_net l = nl_net l"

definition NetLayer_connection :: "'c netlayer \<Rightarrow> string" where
  "NetLayer_connection l = connection l"

definition NetLayer_settings :: "'c netlayer \<Rightarrow> string" where
  "NetLayer_settings l = settings l"

definition NetLayer_checkMessage :: "'c netlayer \<Rightarrow> message \<Rightarrow> bool res" where
  "NetLayer_checkMessage l msg =
     (case nl_net l of
        Rtu \<Rightarrow> RtuLayer_checkMessage msg
      | Tcp \<Rightarrow> Inr (TcpLayer_checkMessage msg)
      | NoNet \<Rightarrow> Inr False)"

definition RtuLayer_port :: "'c netlayer \<Rightarrow> string" where
  "RtuLayer_port l = NetLayer_connection l"

definition RtuLayer_line_baud :: "'c netlayer \<Rightarrow> int" where
  "RtuLayer_line_baud l = RtuLayer_baud (settings l)"

definition RtuLayer_line_parity :: "'c netlayer \<Rightarrow> char" where
  "RtuLayer_line_parity l = RtuLayer_parity (settings l)"

definition RtuLayer_line_stop :: "'c netlayer \<Rightarrow> int" where
  "RtuLayer_line_stop l = RtuLayer_stop (settings l)"

definition TcpLayer_node :: "'c netlayer \<Rightarrow> string" where
  "TcpLayer_node l = NetLayer_connection l"

definition TcpLayer_service :: "'c netlayer \<Rightarrow> string" where
  "TcpLayer_service l = NetLayer_settings l"

section \<open>Single values of a slave\<close>

text \<open>\<open>rd\<close> is the virtual function of the object that reads into an array.\<close>

definition Slave_read1 ::
    "('s \<Rightarrow> int \<Rightarrow> 'v list \<Rightarrow> int \<Rightarrow> (int \<times> 'v list \<times> 's) res) \<Rightarrow> 's \<Rightarrow> int \<Rightarrow> 'v \<Rightarrow> (int \<times> 'v \<times> 's) res" where
  "Slave_read1 rd st addr dest =
     and_then (rd st addr [dest] 1) (\<lambda>(rc, out, st').
       case out of [v] \<Rightarrow> Inr (rc, v, st') | _ \<Rightarrow> Inl Undefined_behaviour)"

text \<open>The four of the class \<open>Slave\<close>.\<close>

definition Slave_readDiscreteInput ::
    "'c modbus_client \<Rightarrow> 'a slave_scheme \<Rightarrow> 'c world \<Rightarrow> int \<Rightarrow> u8 \<Rightarrow> (int \<times> u8 \<times> 'c world) res" where
  "Slave_readDiscreteInput M s = Slave_read1 (\<lambda>w. Slave_readDiscreteInputs M w s)"

definition Slave_readCoil ::
    "'c modbus_client \<Rightarrow> 'a slave_scheme \<Rightarrow> 'c world \<Rightarrow> int \<Rightarrow> u8 \<Rightarrow> (int \<times> u8 \<times> 'c world) res" where
  "Slave_readCoil M s = Slave_read1 (\<lambda>w. Slave_readCoils M w s)"

definition Slave_readInputRegister ::
    "'c modbus_client \<Rightarrow> 'a slave_scheme \<Rightarrow> 'c world \<Rightarrow> int \<Rightarrow> u16 \<Rightarrow> (int \<times> u16 \<times> 'c world) res" where
  "Slave_readInputRegister M s = Slave_read1 (\<lambda>w. Slave_readInputRegisters M w s)"

definition Slave_readRegister ::
    "'c modbus_client \<Rightarrow> 'a slave_scheme \<Rightarrow> 'c world \<Rightarrow> int \<Rightarrow> u16 \<Rightarrow> (int \<times> u16 \<times> 'c world) res" where
  "Slave_readRegister M s = Slave_read1 (\<lambda>w. Slave_readRegisters M w s)"

definition BufferedSlave_beforeReplyCallback :: "bslave \<Rightarrow> nat option" where
  "BufferedSlave_beforeReplyCallback s = beforeReplyCB s"

definition BufferedSlave_afterReplyCallback :: "bslave \<Rightarrow> nat option" where
  "BufferedSlave_afterReplyCallback s = afterReplyCB s"

definition BufferedSlave_map :: "bslave \<Rightarrow> mapping" where
  "BufferedSlave_map s = bmap s"

section \<open>Devices\<close>

definition Device_new_net ::
    "mb_consts \<Rightarrow> 'c modbus_link \<Rightarrow> 'c rtu_api \<Rightarrow> Net \<Rightarrow> string \<Rightarrow> string \<Rightarrow> 'c device res" where
  "Device_new_net K L R n conn st = Device_Private_setBackend K L R Device_new n conn st"

text \<open>\<open>Device::setConfig\<close>: \<open>setConfig\<close> is the virtual function of the object, \<open>valid\<close> tells whether
  its device has a layer.\<close>

definition Device_setConfig ::
    "('j, 'd, 'l) json_api \<Rightarrow> ('s \<Rightarrow> bool) \<Rightarrow> ('s \<Rightarrow> 'j \<Rightarrow> 's res) \<Rightarrow> 's \<Rightarrow> 'j res option \<Rightarrow> string \<Rightarrow> (bool \<times> 's) res" where
  "Device_setConfig J valid setConfig st file key =
     (if \<not> valid st
      then and_then (setConfigFromFile J setConfig st file key) (\<lambda>st'. Inr (True, st'))
      else Inr (False, st))"

text \<open>The destructors: that of the class \<open>Server\<close> stops its thread, then that of the class \<open>Device\<close>
  closes the link.\<close>

definition Device_destroy :: "'c modbus_link \<Rightarrow> 'c dev_state \<Rightarrow> 'c dev_state res" where
  "Device_destroy L st = Device_close L st"

definition Server_destroy ::
    "'c modbus_link \<Rightarrow> 'c modbus_server \<Rightarrow> ('c, 'a) sstate \<Rightarrow> ('c, 'a) sstate res" where
  "Server_destroy L SV st = and_then (Server_terminate SV st) (Server_Device_close L SV)"

section \<open>Lemmas\<close>

text \<open>The byte of the PDU that a pointer reaches is the one that the index reads.\<close>

lemma Message_pdu_nth:
  assumes "Message_pdu m = Inr p" and "uint i < int (length p)"
  shows "Message_pdu_at m i = Inr (p ! unat i)"
  using assms by (auto simp: Message_pdu_def Message_pdu_at_def vget_def nat_add_distrib split: if_splits)

text \<open>A destroyed server neither runs nor is open, whatever it did before.\<close>

lemma Server_destroy_closed:
  assumes "srv_inv ks st" and "Server_destroy L SV st = Inr st'"
  shows "\<not> Server_isRunning st' \<and> \<not> Server_isOpen st'"
proof -
  obtain st1 where t: "Server_terminate SV st = Inr st1" and c: "Server_Device_close L SV st1 = Inr st'"
    using assms(2) unfolding Server_destroy_def by (rule and_then_InrE)
  have d: "\<not> daemon (snd st1)" using Server_terminate_inv [OF t assms(1)] by simp
  show ?thesis
  proof (cases "Server_isOpen st1")
    case True
    then obtain st2 where 2: "Server_Private_close L SV st1 = Inr st2" and st': "st' = put_isOpen False st2"
      using c by (auto simp: Server_Device_close_def and_then_eq_Inr)
    from Server_Private_close_frame [OF 2] d show ?thesis
      by (simp add: st' Server_isRunning_def Server_isOpen_def Device_isOpen_def srv_frame_def)
  next
    case False
    then show ?thesis using c d by (simp add: Server_Device_close_def Server_isRunning_def)
  qed
qed

text \<open>A corrupted RTU frame and a correct one are the same to \<open>checkMessage\<close> of their layer.\<close>

lemma NetLayer_check_rtu:
  assumes "nl_net l = Rtu" and "net m = Rtu" and "4 \<le> aduSize m" and "aduSize m \<le> length (adu m)"
    and "length (adu m) < 65536"
  shows "NetLayer_checkMessage l m = Inl Invalid_argument"
  using RtuLayer_checkMessage_long [OF assms(2-5)] assms(1) by (simp add: NetLayer_checkMessage_def)

section \<open>Data\<close>

text \<open>The value is its object representation. A reference to it is the value here: what a program
  writes through it does not reach the registers.\<close>

definition Data_value :: "data \<Rightarrow> u8 list" where
  "Data_value d = m_value d"

definition Data_endianness :: "data \<Rightarrow> Endian" where
  "Data_endianness d = m_endian d"

definition Data_registers :: "data \<Rightarrow> u16 list" where
  "Data_registers d = m_registers d"

definition Data_print_bytes :: "u8 list \<Rightarrow> nat \<Rightarrow> string res" where
  "Data_print_bytes p s =
     and_then (vread p 0 (int s)) (\<lambda>bs.
     Inr (''0x'' @ concat (map (\<lambda>b. [hex_digit (unat b div 16), hex_digit (unat b mod 16)]) bs) @ [CHR 0x0A]))"

definition Data_print_value :: "u8 list \<Rightarrow> string res" where
  "Data_print_value v = Data_print_bytes v (length v)"

definition Data_print :: "data \<Rightarrow> (string \<times> data) res" where
  "Data_print d =
     (let d' = Data_updateRegisters d
      in and_then (Data_print_bytes (store16 (m_registers d')) (Data_size d')) (\<lambda>t. Inr (t, d')))"

end
