(* ===== verification/Popl_Options.thy ===== *)
theory Popl_Options
  imports Cxx_Strings
begin

text \<open>
  The options of the parser of command lines in \<open>include/modbuspp/popl.h\<close>: the class \<open>Option\<close> and
  the templates \<open>Value\<close>, \<open>Implicit\<close> and \<open>Switch\<close> over it. One record stands for the four classes;
  a virtual function is a case on the class. A variable that an option is assigned to is an
  address of a memory that every call gets and returns. Strings have no null character, as
  those of a command line.
\<close>

section \<open>Enumerations and exceptions\<close>

datatype Argument = Argument_no | Argument_required | Argument_optional

datatype Attribute =
    Attribute_inactive | Attribute_hidden | Attribute_required | Attribute_optional
  | Attribute_advanced | Attribute_expert

fun attribute_value :: "Attribute \<Rightarrow> nat" where
  "attribute_value Attribute_inactive = 0"
| "attribute_value Attribute_hidden = 1"
| "attribute_value Attribute_required = 2"
| "attribute_value Attribute_optional = 3"
| "attribute_value Attribute_advanced = 4"
| "attribute_value Attribute_expert = 5"

datatype OptionName = Name_unspecified | Name_short | Name_long

datatype option_error = Missing_argument | Invalid_argument_error | Too_many_arguments | Missing_option

text \<open>\<open>option\<close> of an \<open>invalid_option\<close> is a pointer; here the two names of the option.\<close>

record invalid_option =
  io_option :: "string \<times> string"
  io_error :: option_error
  io_what_name :: OptionName
  io_value :: string
  io_text :: string

text \<open>The other exceptions with their texts, a null pointer that is read, and a loop that never ends.\<close>

datatype popl_failure =
    Invalid_option invalid_option
  | Std_invalid_argument string
  | Std_out_of_range string
  | Std_runtime_error string
  | Null_read
  | Endless

type_synonym 'b popl = "popl_failure + 'b"

section \<open>Values\<close>

text \<open>A value of the type \<open>T\<close> of an option: a string, the \<open>bool\<close> of a switch, or another type with
  its operators \<open>>>\<close> and \<open><<\<close>. \<open>read_from\<close> reads a value from the characters that are left and gives
  the ones after it, \<open>None\<close> sets the failure flag.\<close>

datatype 'a cval = StringV string | BoolV bool | StreamV 'a

record 'a stream_ops =
  read_from :: "string \<Rightarrow> ('a \<times> string) option"
  insert_text :: "'a \<Rightarrow> string"

datatype option_class = Value_class | Implicit_class | Switch_class

record 'a popl_option =
  o_short_name :: string
  o_long_name :: string
  o_description :: string
  o_attribute :: Attribute
  o_class :: option_class
  T_ops :: "'a stream_ops option"
  o_default :: "'a cval option"
  o_values :: "'a cval list"
  o_assign_to :: "nat option"

type_synonym 'a variables = "nat \<Rightarrow> 'a cval"

text \<open>\<open>T_ops\<close> is \<open>None\<close> for \<open>std::string\<close>.\<close>

section \<open>Texts\<close>

definition nul :: char where "nul = CHR 0x00"
definition dquote :: string where "dquote = [CHR 0x22]"
definition apostrophe :: string where "apostrophe = [CHR 0x27]"
definition newline :: string where "newline = [CHR 0x0A]"

text \<open>Decimal digits, as \<open><<\<close> writes a \<open>size_t\<close>.\<close>

fun decimal :: "nat \<Rightarrow> string" where
  "decimal n = (if n < 10 then [char_of (48 + n)] else decimal (n div 10) @ [char_of (48 + n mod 10)])"

declare decimal.simps [simp del]

section \<open>Option\<close>

definition Option_make :: "option_class \<Rightarrow> 'a stream_ops option \<Rightarrow> string \<Rightarrow> string \<Rightarrow> string \<Rightarrow> 'a popl_option popl" where
  "Option_make c T short long desc =
     (if 1 < length short then Inl (Std_invalid_argument (''length of short name must be <= 1: '' @ apostrophe @ short @ apostrophe))
      else if short = [] \<and> long = [] then Inl (Std_invalid_argument ''short and long name are empty'')
      else Inr \<lparr>o_short_name = short, o_long_name = long, o_description = desc, o_attribute = Attribute_optional,
        o_class = c, T_ops = T, o_default = None, o_values = [], o_assign_to = None\<rparr>)"

definition Option_short_name :: "'a popl_option \<Rightarrow> char" where
  "Option_short_name o1 = (case o_short_name o1 of [] \<Rightarrow> nul | c # cs \<Rightarrow> c)"

definition Option_long_name :: "'a popl_option \<Rightarrow> string" where
  "Option_long_name o1 = o_long_name o1"

definition Option_name :: "'a popl_option \<Rightarrow> OptionName \<Rightarrow> bool \<Rightarrow> string" where
  "Option_name o1 what_name with_hypen =
     (case what_name of
        Name_short \<Rightarrow> (if o_short_name o1 = [] then [] else (if with_hypen then ''-'' else []) @ o_short_name o1)
      | Name_long \<Rightarrow> (if o_long_name o1 = [] then [] else (if with_hypen then ''--'' else []) @ o_long_name o1)
      | Name_unspecified \<Rightarrow> [])"

definition Option_description :: "'a popl_option \<Rightarrow> string" where
  "Option_description o1 = o_description o1"

definition Option_set_attribute :: "'a popl_option \<Rightarrow> Attribute \<Rightarrow> 'a popl_option" where
  "Option_set_attribute o1 a = o1\<lparr>o_attribute := a\<rparr>"

definition Option_attribute :: "'a popl_option \<Rightarrow> Attribute" where
  "Option_attribute o1 = o_attribute o1"

section \<open>Value\<close>

definition Value_count :: "'a popl_option \<Rightarrow> nat" where
  "Value_count o1 = length (o_values o1)"

definition Value_is_set :: "'a popl_option \<Rightarrow> bool" where
  "Value_is_set o1 \<longleftrightarrow> o_values o1 \<noteq> []"

definition Value_has_default :: "'a popl_option \<Rightarrow> bool" where
  "Value_has_default o1 \<longleftrightarrow> o_default o1 \<noteq> None"

text \<open>\<open>value\<close> throws when there is no value at the index, and no default for an option that is not set.\<close>

definition Value_value :: "'a popl_option \<Rightarrow> nat \<Rightarrow> 'a cval popl" where
  "Value_value o1 idx =
     (case (Value_is_set o1, o_default o1) of
        (False, Some v) \<Rightarrow> Inr v
      | _ \<Rightarrow>
         (if \<not> Value_is_set o1 \<or> Value_count o1 \<le> idx then
            let start = (if \<not> Value_is_set o1 then ''option not set: '' @ dquote
                         else ''index out of range ('' @ decimal idx @ '') for '' @ dquote);
                n = (if Option_short_name o1 \<noteq> nul then ''-'' @ [Option_short_name o1] else ''--'' @ Option_long_name o1)
            in Inl (Std_out_of_range (start @ n @ dquote))
          else Inr (o_values o1 ! idx)))"

text \<open>The first value, or else the default, goes to the variable. \<open>Inl\<close> does not occur there.\<close>

definition Value_update_reference :: "'a variables \<times> 'a popl_option \<Rightarrow> 'a variables \<times> 'a popl_option" where
  "Value_update_reference st =
     (case st of (vars, o1) \<Rightarrow>
       (case o_assign_to o1 of
          None \<Rightarrow> (vars, o1)
        | Some x \<Rightarrow>
           if Value_is_set o1 \<or> o_default o1 \<noteq> None then
             (case Value_value o1 0 of Inr v \<Rightarrow> (vars(x := v), o1) | Inl e \<Rightarrow> (vars, o1))
           else (vars, o1)))"

definition Value_assign_to :: "'a variables \<times> 'a popl_option \<Rightarrow> nat option \<Rightarrow> 'a variables \<times> 'a popl_option" where
  "Value_assign_to st x = Value_update_reference (fst st, (snd st)\<lparr>o_assign_to := x\<rparr>)"

definition Value_add_value :: "'a variables \<times> 'a popl_option \<Rightarrow> 'a cval \<Rightarrow> 'a variables \<times> 'a popl_option" where
  "Value_add_value st v = Value_update_reference (fst st, (snd st)\<lparr>o_values := o_values (snd st) @ [v]\<rparr>)"

definition Value_clear :: "'a variables \<times> 'a popl_option \<Rightarrow> 'a variables \<times> 'a popl_option" where
  "Value_clear st = Value_update_reference (fst st, (snd st)\<lparr>o_values := []\<rparr>)"

definition Value_set_value :: "'a variables \<times> 'a popl_option \<Rightarrow> 'a cval \<Rightarrow> 'a variables \<times> 'a popl_option" where
  "Value_set_value st v = Value_add_value (Value_clear st) v"

definition Value_set_default :: "'a variables \<times> 'a popl_option \<Rightarrow> 'a cval \<Rightarrow> 'a variables \<times> 'a popl_option" where
  "Value_set_default st v = Value_update_reference (fst st, (snd st)\<lparr>o_default := Some v\<rparr>)"

definition Value_get_default :: "'a popl_option \<Rightarrow> 'a cval popl" where
  "Value_get_default o1 =
     (case o_default o1 of None \<Rightarrow> Inl (Std_runtime_error ''no default value set'') | Some v \<Rightarrow> Inr v)"

text \<open>The overload that writes to a stream returns whether there is a default, and what it wrote.\<close>

definition write_value :: "'a stream_ops option \<Rightarrow> 'a cval \<Rightarrow> string" where
  "write_value T v =
     (case v of StringV s \<Rightarrow> s | BoolV b \<Rightarrow> (if b then ''1'' else ''0'')
      | StreamV a \<Rightarrow> (case T of None \<Rightarrow> [] | Some ops \<Rightarrow> insert_text ops a))"

definition Value_get_default_out :: "'a popl_option \<Rightarrow> bool \<times> string" where
  "Value_get_default_out o1 =
     (case o_default o1 of None \<Rightarrow> (False, []) | Some v \<Rightarrow> (True, write_value (T_ops o1) v))"

section \<open>Constructors\<close>

definition Value_new :: "'a stream_ops option \<Rightarrow> string \<Rightarrow> string \<Rightarrow> string \<Rightarrow> 'a popl_option popl" where
  "Value_new T short long desc = Option_make Value_class T short long desc"

text \<open>\<open>Implicit\<close> and \<open>Switch\<close> call this constructor of \<open>Value\<close>.\<close>

definition Value_new_default ::
    "option_class \<Rightarrow> 'a variables \<Rightarrow> 'a stream_ops option \<Rightarrow> string \<Rightarrow> string \<Rightarrow> string \<Rightarrow> 'a cval \<Rightarrow> nat option \<Rightarrow>
     ('a variables \<times> 'a popl_option) popl" where
  "Value_new_default c vars T short long desc default_val x =
     and_then (Option_make c T short long desc) (\<lambda>o1.
     Inr (Value_set_default (vars, o1\<lparr>o_assign_to := x\<rparr>) default_val))"

definition Implicit_new ::
    "'a variables \<Rightarrow> 'a stream_ops option \<Rightarrow> string \<Rightarrow> string \<Rightarrow> string \<Rightarrow> 'a cval \<Rightarrow> nat option \<Rightarrow>
     ('a variables \<times> 'a popl_option) popl" where
  "Implicit_new = Value_new_default Implicit_class"

definition Switch_new ::
    "'a variables \<Rightarrow> string \<Rightarrow> string \<Rightarrow> string \<Rightarrow> nat option \<Rightarrow> ('a variables \<times> 'a popl_option) popl" where
  "Switch_new vars short long desc x = Value_new_default Switch_class vars None short long desc (BoolV False) x"

section \<open>Parsing of an argument\<close>

text \<open>\<open>argument_type\<close> of the three classes.\<close>

definition Option_argument_type :: "'a popl_option \<Rightarrow> Argument" where
  "Option_argument_type o1 =
     (case o_class o1 of Value_class \<Rightarrow> Argument_required | Implicit_class \<Rightarrow> Argument_optional | Switch_class \<Rightarrow> Argument_no)"

definition invalid :: "'a popl_option \<Rightarrow> option_error \<Rightarrow> OptionName \<Rightarrow> string \<Rightarrow> string \<Rightarrow> 'b popl" where
  "invalid o1 e what_name v txt =
     Inl (Invalid_option \<lparr>io_option = (o_short_name o1, o_long_name o1), io_error = e, io_what_name = what_name, io_value = v, io_text = txt\<rparr>)"

text \<open>The loop of \<open>>>\<close> over the characters: \<open>n\<close> counts the reads, and the last value read is kept.
  \<open>None\<close> is a stream that failed. An operator that reads no character from where it is reads none
  the next time, and the loop does not end.\<close>

fun read_values :: "nat \<Rightarrow> 'a stream_ops \<Rightarrow> string \<Rightarrow> 'a option \<Rightarrow> nat \<Rightarrow> ('a option \<times> nat) option popl" where
  "read_values fuel T [] v n = Inr (Some (v, n))"
| "read_values 0 T (c # cs) v n = Inl Endless"
| "read_values (Suc fuel) T (c # cs) v n =
     (case read_from T (c # cs) of
        None \<Rightarrow> Inr None
      | Some (w, rest) \<Rightarrow> if length rest < length (c # cs) then read_values fuel T rest (Some w) (n + 1) else Inl Endless)"

definition Value_parse :: "'a variables \<times> 'a popl_option \<Rightarrow> OptionName \<Rightarrow> string \<Rightarrow> ('a variables \<times> 'a popl_option) popl" where
  "Value_parse st what_name v =
     (let o1 = snd st in
      case T_ops o1 of
        None \<Rightarrow>
         if v = [] then invalid o1 Missing_argument what_name v (''missing argument for '' @ Option_name o1 what_name True)
         else Inr (Value_add_value st (StringV v))
      | Some T \<Rightarrow>
         and_then (read_values (length v) T v None 0) (\<lambda>r.
           case r of
             None \<Rightarrow> invalid o1 Invalid_argument_error what_name v
               (''invalid argument for '' @ Option_name o1 what_name True @ '': '' @ apostrophe @ v @ apostrophe)
           | Some (w, n) \<Rightarrow>
              if 1 < n then invalid o1 Too_many_arguments what_name v
                (''too many arguments for '' @ Option_name o1 what_name True @ '': '' @ apostrophe @ v @ apostrophe)
              else (case w of
                  None \<Rightarrow> invalid o1 Missing_argument what_name [] (''missing argument for '' @ Option_name o1 what_name True)
                | Some a \<Rightarrow> Inr (Value_add_value st (StreamV a)))))"

definition Implicit_parse :: "'a variables \<times> 'a popl_option \<Rightarrow> OptionName \<Rightarrow> string \<Rightarrow> ('a variables \<times> 'a popl_option) popl" where
  "Implicit_parse st what_name v =
     (if v \<noteq> [] then Value_parse st what_name v
      else case o_default (snd st) of None \<Rightarrow> Inl Null_read | Some d \<Rightarrow> Inr (Value_add_value st d))"

definition Switch_parse :: "'a variables \<times> 'a popl_option \<Rightarrow> OptionName \<Rightarrow> string \<Rightarrow> ('a variables \<times> 'a popl_option) popl" where
  "Switch_parse st what_name v = Inr (Value_add_value st (BoolV True))"

definition Option_parse :: "'a variables \<times> 'a popl_option \<Rightarrow> OptionName \<Rightarrow> string \<Rightarrow> ('a variables \<times> 'a popl_option) popl" where
  "Option_parse st =
     (case o_class (snd st) of Value_class \<Rightarrow> Value_parse st | Implicit_class \<Rightarrow> Implicit_parse st | Switch_class \<Rightarrow> Switch_parse st)"

end
