(* ===== verification/Popl_Parser.thy ===== *)
theory Popl_Parser
  imports Popl_Options
begin

text \<open>
  The class \<open>OptionParser\<close> of \<open>include/modbuspp/popl.h\<close>. An option that the parser shares with the
  program is an index of its vector. The arguments of a command line that are still to be read
  are a list, so that \<open>++n\<close> is its tail and \<open>n < argc - 1\<close> says that there is one more.
\<close>

record 'a option_parser =
  op_options :: "'a popl_option list"
  op_description :: string
  op_non_option_args :: "string list"
  op_unknown_options :: "string list"

type_synonym 'a parser_state = "'a variables \<times> 'a option_parser"

definition OptionParser_new :: "string \<Rightarrow> 'a option_parser" where
  "OptionParser_new desc = \<lparr>op_options = [], op_description = desc, op_non_option_args = [], op_unknown_options = []\<rparr>"

definition OptionParser_description :: "'a option_parser \<Rightarrow> string" where
  "OptionParser_description P = op_description P"

definition OptionParser_options :: "'a option_parser \<Rightarrow> 'a popl_option list" where
  "OptionParser_options P = op_options P"

definition OptionParser_non_option_args :: "'a option_parser \<Rightarrow> string list" where
  "OptionParser_non_option_args P = op_non_option_args P"

definition OptionParser_unknown_options :: "'a option_parser \<Rightarrow> string list" where
  "OptionParser_unknown_options P = op_unknown_options P"

section \<open>Adding and finding options\<close>

fun check_duplicates :: "'a popl_option list \<Rightarrow> 'a popl_option \<Rightarrow> unit popl" where
  "check_duplicates [] opt = Inr ()"
| "check_duplicates (o1 # os) opt =
     (if Option_short_name opt \<noteq> nul \<and> Option_short_name opt = Option_short_name o1 then
        Inl (Std_invalid_argument (''duplicate short option name '' @ apostrophe @ ''-'' @ [Option_short_name opt] @ apostrophe))
      else if Option_long_name opt \<noteq> [] \<and> Option_long_name opt = Option_long_name o1 then
        Inl (Std_invalid_argument (''duplicate long option name '' @ apostrophe @ ''--'' @ Option_long_name opt @ apostrophe))
      else check_duplicates os opt)"

text \<open>The option has been made by its constructor. The result has its index.\<close>

definition OptionParser_add :: "'a option_parser \<Rightarrow> Attribute \<Rightarrow> 'a popl_option \<Rightarrow> (nat \<times> 'a option_parser) popl" where
  "OptionParser_add P a opt =
     and_then (check_duplicates (op_options P) opt) (\<lambda>_.
     Inr (length (op_options P), P\<lparr>op_options := op_options P @ [Option_set_attribute opt a]\<rparr>))"

definition OptionParser_add_optional :: "'a option_parser \<Rightarrow> 'a popl_option \<Rightarrow> (nat \<times> 'a option_parser) popl" where
  "OptionParser_add_optional P opt = OptionParser_add P Attribute_optional opt"

text \<open>The index of the first option with a property.\<close>

fun first_index :: "('b \<Rightarrow> bool) \<Rightarrow> 'b list \<Rightarrow> nat option" where
  "first_index p [] = None"
| "first_index p (x # xs) = (if p x then Some 0 else map_option Suc (first_index p xs))"

definition find_option_long :: "'a option_parser \<Rightarrow> string \<Rightarrow> nat option" where
  "find_option_long P name = first_index (\<lambda>o1. Option_long_name o1 = name) (op_options P)"

definition find_option_short :: "'a option_parser \<Rightarrow> char \<Rightarrow> nat option" where
  "find_option_short P c = first_index (\<lambda>o1. Option_short_name o1 = c) (op_options P)"

text \<open>\<open>is_T\<close> is the dynamic cast to the type \<open>T\<close>.\<close>

definition get_option_long :: "'a option_parser \<Rightarrow> ('a popl_option \<Rightarrow> bool) \<Rightarrow> string \<Rightarrow> nat popl" where
  "get_option_long P is_T name =
     (case find_option_long P name of
        None \<Rightarrow> Inl (Std_invalid_argument (''option not found: '' @ name))
      | Some i \<Rightarrow>
          if \<not> is_T (op_options P ! i) then Inl (Std_invalid_argument (''cannot cast option to T: '' @ name)) else Inr i)"

definition get_option_short :: "'a option_parser \<Rightarrow> ('a popl_option \<Rightarrow> bool) \<Rightarrow> char \<Rightarrow> nat popl" where
  "get_option_short P is_T c =
     (case find_option_short P c of
        None \<Rightarrow> Inl (Std_invalid_argument (''option not found: '' @ [c]))
      | Some i \<Rightarrow>
          if \<not> is_T (op_options P ! i) then Inl (Std_invalid_argument (''cannot cast option to T: '' @ [c])) else Inr i)"

section \<open>Parsing\<close>

text \<open>A call of an option that the parser holds.\<close>

definition at_option ::
    "'a parser_state \<Rightarrow> nat \<Rightarrow> ('a variables \<times> 'a popl_option \<Rightarrow> ('a variables \<times> 'a popl_option) popl) \<Rightarrow> 'a parser_state popl" where
  "at_option st i f =
     and_then (f (fst st, op_options (snd st) ! i)) (\<lambda>(vars, o1).
     Inr (vars, (snd st)\<lparr>op_options := (op_options (snd st))[i := o1]\<rparr>))"

fun clear_options :: "'a variables \<Rightarrow> 'a popl_option list \<Rightarrow> 'a variables \<times> 'a popl_option list" where
  "clear_options vars [] = (vars, [])"
| "clear_options vars (o1 # os) =
     (case Value_clear (vars, o1) of (vars1, o2) \<Rightarrow>
      case clear_options vars1 os of (vars2, os') \<Rightarrow> (vars2, o2 # os'))"

text \<open>An inactive option is taken as not found.\<close>

definition active :: "'a option_parser \<Rightarrow> nat option \<Rightarrow> nat option" where
  "active P found =
     (case found of None \<Rightarrow> None
      | Some i \<Rightarrow> if Option_attribute (op_options P ! i) = Attribute_inactive then None else Some i)"

definition push_unknown :: "'a parser_state \<Rightarrow> string \<Rightarrow> 'a parser_state" where
  "push_unknown st arg = (fst st, (snd st)\<lparr>op_unknown_options := op_unknown_options (snd st) @ [arg]\<rparr>)"

definition push_args :: "'a parser_state \<Rightarrow> string list \<Rightarrow> 'a parser_state" where
  "push_args st args = (fst st, (snd st)\<lparr>op_non_option_args := op_non_option_args (snd st) @ args\<rparr>)"

text \<open>The name and the argument of \<open>name=argument\<close>.\<close>

definition split_equal :: "string \<Rightarrow> string \<times> string" where
  "split_equal opt =
     (let name = takeWhile (\<lambda>c. c \<noteq> CHR ''='') opt
      in (name, drop (length name + 1) opt))"

text \<open>An argument that starts with two hyphens. The result has the arguments after those used.\<close>

definition long_argument :: "'a parser_state \<Rightarrow> string \<Rightarrow> string list \<Rightarrow> ('a parser_state \<times> string list) popl" where
  "long_argument st arg rest =
     (case split_equal (drop 2 arg) of (opt, optarg) \<Rightarrow>
      (case active (snd st) (find_option_long (snd st) opt) of
         None \<Rightarrow> Inr (push_unknown st arg, rest)
       | Some i \<Rightarrow>
          (case Option_argument_type (op_options (snd st) ! i) of
             Argument_no \<Rightarrow>
               if optarg \<noteq> [] then Inr (push_unknown st arg, rest)
               else and_then (at_option st i (\<lambda>x. Option_parse x Name_long optarg)) (\<lambda>st'. Inr (st', rest))
           | Argument_required \<Rightarrow>
               let (optarg', rest') = (if optarg = [] \<and> rest \<noteq> [] then (hd rest, tl rest) else (optarg, rest))
               in and_then (at_option st i (\<lambda>x. Option_parse x Name_long optarg')) (\<lambda>st'. Inr (st', rest'))
           | Argument_optional \<Rightarrow>
               and_then (at_option st i (\<lambda>x. Option_parse x Name_long optarg)) (\<lambda>st'. Inr (st', rest)))))"

text \<open>The characters after one hyphen. The result also says whether one of them is no option.\<close>

fun short_characters ::
    "'a parser_state \<Rightarrow> string \<Rightarrow> string list \<Rightarrow> bool \<Rightarrow> ('a parser_state \<times> string list \<times> bool) popl" where
  "short_characters st [] rest unknown = Inr (st, rest, unknown)"
| "short_characters st (c # cs) rest unknown =
     (case active (snd st) (find_option_short (snd st) c) of
        None \<Rightarrow> short_characters st cs rest True
      | Some i \<Rightarrow>
         (case Option_argument_type (op_options (snd st) ! i) of
            Argument_no \<Rightarrow>
              and_then (at_option st i (\<lambda>x. Option_parse x Name_short [])) (\<lambda>st'. short_characters st' cs rest unknown)
          | Argument_required \<Rightarrow>
              let (optarg, rest') = (if cs = [] \<and> rest \<noteq> [] then (hd rest, tl rest) else (cs, rest))
              in and_then (at_option st i (\<lambda>x. Option_parse x Name_short optarg)) (\<lambda>st'. Inr (st', rest', unknown))
          | Argument_optional \<Rightarrow>
              and_then (at_option st i (\<lambda>x. Option_parse x Name_short cs)) (\<lambda>st'. Inr (st', rest, unknown))))"

definition short_argument :: "'a parser_state \<Rightarrow> string \<Rightarrow> string list \<Rightarrow> ('a parser_state \<times> string list) popl" where
  "short_argument st arg rest =
     and_then (short_characters st (drop 1 arg) rest False) (\<lambda>(st', rest', unknown).
     Inr (if unknown then push_unknown st' arg else st', rest'))"

text \<open>One round of the loop. After two hyphens alone the inner loop takes all arguments, but the
  outer loop goes on with the one after the hyphens.\<close>

definition parse_argument :: "'a parser_state \<Rightarrow> string \<Rightarrow> string list \<Rightarrow> ('a parser_state \<times> string list) popl" where
  "parse_argument st arg rest =
     (if arg = ''--'' then Inr (push_args st rest, rest)
      else if take 2 arg = ''--'' then long_argument st arg rest
      else if take 1 arg = ''-'' then short_argument st arg rest
      else Inr (push_args st [arg], rest))"

text \<open>A round leaves the arguments or all but the first of them.\<close>

lemma long_argument_rest: "long_argument st arg rest = Inr (st', rest') \<Longrightarrow> rest' = rest \<or> rest' = tl rest"
  by (auto simp: long_argument_def and_then_eq_Inr split: prod.splits option.splits Argument.splits if_splits)

lemma short_characters_rest:
  "short_characters st cs rest u = Inr (st', rest', u') \<Longrightarrow> rest' = rest \<or> rest' = tl rest"
proof (induction cs arbitrary: st u)
  case (Cons c cs)
  then show ?case
    by (auto simp: and_then_eq_Inr split: prod.splits option.splits Argument.splits if_splits)
qed simp

lemma parse_argument_rest:
  assumes "parse_argument st arg rest = Inr (st', rest')"
  shows "rest' = rest \<or> rest' = tl rest"
  using assms
  by (auto simp: parse_argument_def short_argument_def and_then_eq_Inr split: if_splits
      dest: long_argument_rest short_characters_rest)

lemma parse_argument_length: "parse_argument st arg rest = Inr (st', rest') \<Longrightarrow> length rest' < Suc (length rest)"
  using parse_argument_rest [of st arg rest st' rest'] by auto

function parse_arguments :: "'a parser_state \<Rightarrow> string list \<Rightarrow> 'a parser_state popl" where
  "parse_arguments st [] = Inr st"
| "parse_arguments st (arg # rest) =
     (case parse_argument st arg rest of
        Inl e \<Rightarrow> Inl e
      | Inr r \<Rightarrow> (case r of (st', rest') \<Rightarrow> parse_arguments st' rest'))"
  by pat_completeness auto

termination
  by (relation "measure (\<lambda>(st, args). length args)") (auto dest: parse_argument_length)

fun check_required :: "'a popl_option list \<Rightarrow> unit popl" where
  "check_required [] = Inr ()"
| "check_required (o1 # os) =
     (if Option_attribute o1 = Attribute_required \<and> \<not> Value_is_set o1 then
        let n = (if Option_long_name o1 = [] then [Option_short_name o1] else Option_long_name o1)
        in invalid o1 Missing_option Name_unspecified [] (''option '' @ dquote @ n @ dquote @ '' is required'')
      else check_required os)"

text \<open>The first string of the command line is the name of the program.\<close>

definition OptionParser_parse :: "'a parser_state \<Rightarrow> string list \<Rightarrow> 'a parser_state popl" where
  "OptionParser_parse st argv =
     (case clear_options (fst st) (op_options (snd st)) of (vars, os) \<Rightarrow>
      and_then (parse_arguments (vars, (snd st)\<lparr>op_options := os, op_non_option_args := [], op_unknown_options := []\<rparr>) (drop 1 argv))
        (\<lambda>st'. and_then (check_required (op_options (snd st'))) (\<lambda>_. Inr st')))"

end
