(* ===== verification/Popl_Printers.thy ===== *)
theory Popl_Printers
  imports Popl_Parser
begin

text \<open>
  The printers of \<open>include/modbuspp/popl.h\<close>: the help for the console and for a manual page, and the
  script for completion. A printer holds a pointer to its parser, here an option.
\<close>

section \<open>Console\<close>

definition arg_text :: "'a popl_option \<Rightarrow> string" where
  "arg_text o1 =
     (case Option_argument_type o1 of
        Argument_required \<Rightarrow>
          '' arg'' @ (case Value_get_default_out o1 of (has, txt) \<Rightarrow> if has \<and> txt \<noteq> [] then '' (='' @ txt @ '')'' else [])
      | Argument_optional \<Rightarrow>
          (case Value_get_default_out o1 of (has, txt) \<Rightarrow> if has then '' [=arg(='' @ txt @ '')]'' else [])
      | Argument_no \<Rightarrow> [])"

definition Console_to_string :: "'a popl_option \<Rightarrow> string" where
  "Console_to_string o1 =
     (if Option_short_name o1 \<noteq> nul
      then ''  -'' @ [Option_short_name o1] @ (if Option_long_name o1 \<noteq> [] then '', '' else [])
      else ''  '') @
     (if Option_long_name o1 \<noteq> [] then ''--'' @ Option_long_name o1 else []) @ arg_text o1"

text \<open>The lines that \<open>std::getline\<close> reads: a newline at the end does not start another one.\<close>

fun getlines :: "string \<Rightarrow> string \<Rightarrow> string list" where
  "getlines line [] = (if line = [] then [] else [line])"
| "getlines line (c # cs) = (if c = CHR 0x0A then line # getlines [] cs else getlines (line @ [c]) cs)"

text \<open>The first line goes behind the name of the option, every other one below it.\<close>

fun put_lines :: "nat \<Rightarrow> string list \<Rightarrow> string" where
  "put_lines margin [] = []"
| "put_lines margin [l] = l"
| "put_lines margin (l # k # ls) = l @ newline @ replicate margin CHR '' '' @ put_lines margin (k # ls)"

text \<open>Shown are the options above \<open>hidden\<close> and up to the level asked for.\<close>

definition shown :: "Attribute \<Rightarrow> 'a popl_option \<Rightarrow> bool" where
  "shown max_attribute o1 \<longleftrightarrow>
     \<not> (attribute_value (Option_attribute o1) \<le> attribute_value Attribute_hidden \<or>
        attribute_value max_attribute < attribute_value (Option_attribute o1))"

fun right_margin :: "nat \<Rightarrow> 'a popl_option list \<Rightarrow> nat" where
  "right_margin m [] = m"
| "right_margin m (o1 # os) = right_margin (max m (length (Console_to_string o1) + 2)) os"

definition Console_entry :: "nat \<Rightarrow> 'a popl_option \<Rightarrow> string" where
  "Console_entry margin o1 =
     (let t = Console_to_string o1
      in (if length t < margin then t @ replicate (margin - length t) CHR '' '' else t @ newline @ replicate margin CHR '' '') @
         put_lines margin (getlines [] (Option_description o1)) @ newline)"

fun Console_entries :: "nat \<Rightarrow> Attribute \<Rightarrow> 'a popl_option list \<Rightarrow> string" where
  "Console_entries margin a [] = []"
| "Console_entries margin a (o1 # os) =
     (if shown a o1 then Console_entry margin o1 else []) @ Console_entries margin a os"

definition bad_attribute :: "string popl" where
  "bad_attribute = Inl (Std_invalid_argument
     (''attribute must be '' @ apostrophe @ ''optional'' @ apostrophe @ '', '' @ apostrophe @ ''advanced'' @ apostrophe @
      '', or '' @ apostrophe @ ''default'' @ apostrophe))"

definition console_margin :: "'a popl_option list \<Rightarrow> nat" where
  "console_margin os = min (40 - 2) (right_margin 20 os)"

definition Console_print :: "'a option_parser option \<Rightarrow> Attribute \<Rightarrow> string popl" where
  "Console_print p max_attribute =
     (case p of None \<Rightarrow> Inr []
      | Some P \<Rightarrow>
         if attribute_value max_attribute < attribute_value Attribute_optional then bad_attribute
         else Inr ((if OptionParser_description P \<noteq> [] then OptionParser_description P @ '':'' @ newline else []) @
           Console_entries (console_margin (OptionParser_options P)) max_attribute (OptionParser_options P)))"

definition OptionParser_help :: "'a option_parser \<Rightarrow> Attribute \<Rightarrow> string popl" where
  "OptionParser_help P max_attribute = Console_print (Some P) max_attribute"

definition OptionParser_output :: "string \<Rightarrow> 'a option_parser \<Rightarrow> string popl" where
  "OptionParser_output out P = and_then (OptionParser_help P Attribute_optional) (\<lambda>t. Inr (out @ t))"

section \<open>Manual page\<close>

definition Groff_to_string :: "'a popl_option \<Rightarrow> string" where
  "Groff_to_string o1 =
     (if Option_short_name o1 \<noteq> nul
      then ''-'' @ [Option_short_name o1] @ (if Option_long_name o1 \<noteq> [] then '', '' else []) else []) @
     (if Option_long_name o1 \<noteq> [] then ''--'' @ Option_long_name o1 else []) @ arg_text o1"

definition backslash :: string where "backslash = [CHR 0x5C]"

fun Groff_entries :: "Attribute \<Rightarrow> 'a popl_option list \<Rightarrow> string" where
  "Groff_entries a [] = []"
| "Groff_entries a (o1 # os) =
     (if shown a o1 then
        ''.TP'' @ newline @ backslash @ ''fB'' @ Groff_to_string o1 @ backslash @ ''fR'' @ newline @
        (if Option_description o1 \<noteq> [] then Option_description o1 @ newline else [])
      else []) @ Groff_entries a os"

definition Groff_print :: "'a option_parser option \<Rightarrow> Attribute \<Rightarrow> string popl" where
  "Groff_print p max_attribute =
     (case p of None \<Rightarrow> Inr []
      | Some P \<Rightarrow>
         if attribute_value max_attribute < attribute_value Attribute_optional then bad_attribute
         else Inr ((if OptionParser_description P \<noteq> [] then ''.SS '' @ OptionParser_description P @ '':'' @ newline else []) @
           Groff_entries max_attribute (OptionParser_options P)))"

section \<open>Completion\<close>

text \<open>The raw string of the code ends at the first parenthesis that a quote follows. The one that
  was to end it has a space behind it, so that the loop over the options is text of the script.\<close>

definition completion_text :: string where
  "completion_text =
     ''{'' @ newline @
     ''      local cur prev opts'' @ newline @
     ''      COMPREPLY=()'' @ newline @
     ''      cur=\"$ {COMP_WORDS[COMP_CWORD]}\"'' @ newline @
     ''      prev=\"$ {COMP_WORDS[COMP_CWORD - 1]}\"'' @ newline @
     ''      opts=\") \";'' @ newline @ newline @
     ''    for (const auto& option: option_parser_->options())'' @ newline @
     ''    {'' @ newline @
     ''    if (option->attribute() > Attribute::hidden)'' @ newline @
     ''    {'' @ newline @
     ''    if (option->short_name() != 0)'' @ newline @
     ''    s << \" - \" << option->short_name() << \" \";'' @ newline @
     ''    if (!option->long_name().empty())'' @ newline @
     ''    s << \"--\" << option->long_name() << \" \";'' @ newline @
     ''  }'' @ newline @
     ''  }'' @ newline @ newline @
     ''    s << R\" (\"'' @ newline @
     ''             if [[ ${cur} == -* ]] ; then'' @ newline @
     ''             COMPREPLY=( $(compgen -W \"$ {opts}\" -- ${cur}) )'' @ newline @
     ''             return 0'' @ newline @
     ''             fi'' @ newline @
     ''           }'' @ newline @
     ''             complete -F ''"

definition BashCompletion_print :: "'a option_parser option \<Rightarrow> string \<Rightarrow> Attribute \<Rightarrow> string" where
  "BashCompletion_print p program_name max_attribute =
     (case p of None \<Rightarrow> []
      | Some P \<Rightarrow>
         ''_'' @ program_name @ ''()'' @ newline @ completion_text @ ''_'' @ program_name @ '' '' @ program_name @ newline)"

section \<open>Alignment\<close>

text \<open>The column behind a text: the length of its last line.\<close>

definition column :: "string \<Rightarrow> nat" where
  "column s = length (takeWhile (\<lambda>c. c \<noteq> CHR 0x0A) (rev s))"

lemma right_margin_ge: "m \<le> right_margin m os"
proof (induction os arbitrary: m)
  case (Cons o1 os)
  show ?case using order_trans [OF max.cobounded1 Cons.IH] by simp
qed simp

text \<open>All descriptions of the help start in one column between 20 and 38.\<close>

lemma console_margin_bounds: "20 \<le> console_margin os \<and> console_margin os \<le> 38"
  using right_margin_ge [of 20 os] by (simp add: console_margin_def)

lemma console_entry_aligned:
  assumes "CHR 0x0A \<notin> set (Console_to_string o1)"
  shows "\<exists>p. Console_entry margin o1 = p @ put_lines margin (getlines [] (Option_description o1)) @ newline \<and> column p = margin"
proof -
  let ?t = "Console_to_string o1"
  let ?p = "if length ?t < margin then ?t @ replicate (margin - length ?t) CHR '' '' else ?t @ newline @ replicate margin CHR '' ''"
  have spaces: "takeWhile (\<lambda>c. c \<noteq> CHR 0x0A) (replicate n CHR '' '' @ xs) = replicate n CHR '' '' @ takeWhile (\<lambda>c. c \<noteq> CHR 0x0A) xs"
    for n and xs :: string by (induction n) simp_all
  have all: "takeWhile (\<lambda>c. c \<noteq> CHR 0x0A) (rev ?t) = rev ?t"
    using assms by (intro takeWhile_eq_all_conv [THEN iffD2]) auto
  have "column ?p = margin"
    by (cases "length ?t < margin") (simp_all add: column_def spaces all newline_def)
  then show ?thesis by (intro exI [where x = ?p]) (simp add: Console_entry_def Let_def)
qed

end
