(* ===== verification/Popl_Props.thy ===== *)
theory Popl_Props
  imports Popl_Printers
begin

text \<open>
  What parsing a command line does to the options. The locale \<open>parse_invariant\<close> is the contract
  between the loop over the arguments and one option: what every call of an active option keeps,
  the whole loop keeps. Its interpretations give that only values are added, and only to active
  options; that no null default is read; and what an assigned variable holds.
\<close>

section \<open>The contract\<close>

locale parse_invariant =
  fixes I :: "'a parser_state \<Rightarrow> bool" and ok :: "popl_failure \<Rightarrow> bool"
  assumes parse_option: "I st \<Longrightarrow> i < length (op_options (snd st)) \<Longrightarrow>
      Option_attribute (op_options (snd st) ! i) \<noteq> Attribute_inactive \<Longrightarrow>
      (case at_option st i (\<lambda>x. Option_parse x what v) of Inl e \<Rightarrow> ok e | Inr st' \<Rightarrow> I st')"
    and unknown: "I st \<Longrightarrow> I (push_unknown st arg)"
    and args: "I st \<Longrightarrow> I (push_args st as)"

lemma first_index_Some:
  "first_index p xs = Some i \<Longrightarrow> i < length xs \<and> p (xs ! i) \<and> (\<forall>j < i. \<not> p (xs ! j))"
proof (induction xs arbitrary: i)
  case (Cons x xs)
  then show ?case by (auto split: if_splits simp: less_Suc_eq_0_disj)
qed simp

lemma active_Some:
  assumes "active P f = Some i" and "f = first_index p (op_options P)"
  shows "i < length (op_options P)" "Option_attribute (op_options P ! i) \<noteq> Attribute_inactive"
  using assms first_index_Some [of p "op_options P" i] by (auto simp: active_def split: option.splits if_splits)

lemmas active_long = active_Some [OF _ find_option_long_def]
  and active_short = active_Some [OF _ find_option_short_def]

context parse_invariant begin

abbreviation kept :: "(popl_failure + 'b) \<Rightarrow> ('b \<Rightarrow> 'a parser_state) \<Rightarrow> bool" where
  "kept r f \<equiv> (case r of Inl e \<Rightarrow> ok e | Inr x \<Rightarrow> I (f x))"

lemma kept_then: "kept r g \<Longrightarrow> (\<And>x. I (g x) \<Longrightarrow> kept (h x) f) \<Longrightarrow> kept (and_then r h) f"
  by (cases r) simp_all

lemma long_kept:
  assumes "I st"
  shows "kept (long_argument st arg rest) fst"
proof (cases "active (snd st) (find_option_long (snd st) (fst (split_equal (drop 2 arg))))")
  case None
  then show ?thesis using assms unknown by (cases "split_equal (drop 2 arg)") (simp add: long_argument_def)
next
  case (Some i)
  have k: "kept (at_option st i (\<lambda>x. Option_parse x Name_long v)) id" for v
    using parse_option [OF assms active_long [OF Some], of Name_long v] by (auto split: sum.splits)
  show ?thesis
    using Some assms unknown
    by (cases "split_equal (drop 2 arg)")
      (auto simp: long_argument_def split: Argument.split intro!: kept_then [OF k])
qed

lemma short_kept: "I st \<Longrightarrow> kept (short_characters st cs rest u) fst"
proof (induction cs arbitrary: st u)
  case (Cons c cs)
  show ?case
  proof (cases "active (snd st) (find_option_short (snd st) c)")
    case None
    then show ?thesis using Cons by simp
  next
    case (Some i)
    have k: "kept (at_option st i (\<lambda>x. Option_parse x Name_short v)) id" for v
      using parse_option [OF Cons.prems active_short [OF Some], of Name_short v] by (auto split: sum.splits)
    show ?thesis
      using Some Cons.IH by (auto split: prod.split Argument.split intro!: kept_then [OF k])
  qed
qed simp

lemma argument_kept: "I st \<Longrightarrow> kept (parse_argument st arg rest) fst"
  using long_kept short_kept [of st "drop 1 arg" rest False] unknown args
  by (auto simp: parse_argument_def short_argument_def intro!: kept_then [where g = fst])

lemma arguments_kept: "I st \<Longrightarrow> kept (parse_arguments st as) id"
proof (induction st as rule: parse_arguments.induct)
  case (2 st arg rest)
  show ?case
  proof (cases "parse_argument st arg rest")
    case (Inl e)
    then show ?thesis using argument_kept [OF 2(2), of arg rest] by simp
  next
    case (Inr r)
    then have "I (fst r)" using argument_kept [OF 2(2), of arg rest] by simp
    then show ?thesis using 2(1) [OF Inr] Inr by (cases r) auto
  qed
qed simp

end

section \<open>One option\<close>

lemma update_reference_option [simp]: "snd (Value_update_reference st) = snd st"
  by (simp add: Value_update_reference_def split: prod.split option.split sum.split)

lemma add_value_option [simp]: "snd (Value_add_value st v) = (snd st)\<lparr>o_values := o_values (snd st) @ [v]\<rparr>"
  by (simp add: Value_add_value_def)

lemma Value_parse_adds:
  assumes "Value_parse st what v = Inr st'"
  shows "\<exists>w. st' = Value_add_value st w"
proof (cases "T_ops (snd st)")
  case None
  then show ?thesis using assms by (auto simp: Value_parse_def invalid_def Let_def split: if_splits)
next
  case (Some T)
  have "(\<exists>w. st' = Value_add_value st w)" if "read_values (length v) T v None 0 = Inr r" for r
    using assms that Some
    by (cases r; cases "fst (the r)") (auto simp: Value_parse_def invalid_def Let_def split: if_splits)
  then show ?thesis using assms Some by (cases "read_values (length v) T v None 0") (auto simp: Value_parse_def)
qed

text \<open>A successful parse of an argument adds a value.\<close>

lemma Option_parse_adds: "Option_parse st what v = Inr st' \<Longrightarrow> \<exists>w. st' = Value_add_value st w"
  by (auto simp: Option_parse_def Implicit_parse_def Switch_parse_def dest: Value_parse_adds
      split: option_class.splits if_splits option.splits)

lemma at_option_adds:
  assumes "at_option st i (\<lambda>x. Option_parse x what v) = Inr st'"
  obtains w where "st' = (fst (Value_add_value (fst st, op_options (snd st) ! i) w),
    (snd st)\<lparr>op_options := (op_options (snd st))[i := (op_options (snd st) ! i)\<lparr>o_values := o_values (op_options (snd st) ! i) @ [w]\<rparr>]\<rparr>)"
proof -
  obtain vars o1 where p: "Option_parse (fst st, op_options (snd st) ! i) what v = Inr (vars, o1)"
    "st' = (vars, (snd st)\<lparr>op_options := (op_options (snd st))[i := o1]\<rparr>)"
    using assms by (auto simp: at_option_def and_then_eq_Inr)
  obtain w where w: "(vars, o1) = Value_add_value (fst st, op_options (snd st) ! i) w"
    using Option_parse_adds [OF p(1)] by blast
  have "o1 = snd (Value_add_value (fst st, op_options (snd st) ! i) w)" "vars = fst (Value_add_value (fst st, op_options (snd st) ! i) w)"
    by (simp_all flip: w)
  then show ?thesis using that [of w] p(2) by simp
qed

section \<open>Only values are added\<close>

definition added :: "'a popl_option \<Rightarrow> 'a popl_option \<Rightarrow> bool" where
  "added o1 o2 \<longleftrightarrow> (\<exists>vs. o2 = o1\<lparr>o_values := o_values o1 @ vs\<rparr> \<and> (o_attribute o1 = Attribute_inactive \<longrightarrow> vs = []))"

lemma added_refl [simp]: "added o1 o1"
  by (auto simp: added_def intro!: exI [where x = "[]"])

lemma added_add: "added o1 o2 \<Longrightarrow> o_attribute o2 \<noteq> Attribute_inactive \<Longrightarrow> added o1 (o2\<lparr>o_values := o_values o2 @ [w]\<rparr>)"
  by (auto simp: added_def)

interpretation grown: parse_invariant "\<lambda>st. list_all2 added os (op_options (snd st))" "\<lambda>e. True" for os
proof
  fix st :: "'a parser_state" and i what v
  assume o: "list_all2 added os (op_options (snd st))" "i < length (op_options (snd st))"
    "Option_attribute (op_options (snd st) ! i) \<noteq> Attribute_inactive"
  show "case at_option st i (\<lambda>x. Option_parse x what v) of Inl e \<Rightarrow> True | Inr st' \<Rightarrow> list_all2 added os (op_options (snd st'))"
  proof (cases "at_option st i (\<lambda>x. Option_parse x what v)")
    case (Inr st')
    have "added (os ! i) ((op_options (snd st) ! i)\<lparr>o_values := o_values (op_options (snd st) ! i) @ [w]\<rparr>)" for w
      using o list_all2_lengthD [OF o(1)] by (intro added_add list_all2_nthD2 [OF o(1)]) (simp_all add: Option_attribute_def)
    then have "list_all2 added os ((op_options (snd st))[i := (op_options (snd st) ! i)\<lparr>o_values := o_values (op_options (snd st) ! i) @ [w]\<rparr>])" for w
      using list_all2_update_cong [OF o(1), of "os ! i" _ i] by simp
    then show ?thesis using Inr by (auto elim!: at_option_adds)
  qed simp
qed (simp_all add: push_unknown_def push_args_def)

lemma check_required_ok:
  "check_required os = Inr () \<longleftrightarrow> (\<forall>o1 \<in> set os. o_attribute o1 = Attribute_required \<longrightarrow> o_values o1 \<noteq> [])"
  by (induction os) (auto simp: Option_attribute_def Value_is_set_def invalid_def Let_def)

lemma clear_options_list: "snd (clear_options vars os) = map (\<lambda>o1. o1\<lparr>o_values := []\<rparr>) os"
  by (induction os arbitrary: vars) (auto simp: Value_clear_def split: prod.split dest!: arg_cong [where f = snd])

text \<open>The state in which the loop over the arguments starts, and the checks behind it.\<close>

definition parse_start :: "'a parser_state \<Rightarrow> 'a parser_state" where
  "parse_start st = (fst (clear_options (fst st) (op_options (snd st))),
     (snd st)\<lparr>op_options := map (\<lambda>o1. o1\<lparr>o_values := []\<rparr>) (op_options (snd st)),
       op_non_option_args := [], op_unknown_options := []\<rparr>)"

lemma parse_by_start:
  "OptionParser_parse st argv = and_then (parse_arguments (parse_start st) (drop 1 argv))
     (\<lambda>st'. and_then (check_required (op_options (snd st'))) (\<lambda>_. Inr st'))"
  using clear_options_list [of "fst st" "op_options (snd st)"]
  by (cases "clear_options (fst st) (op_options (snd st))") (simp add: OptionParser_parse_def parse_start_def)

section \<open>Every reachable parser\<close>

text \<open>An operator \<open>>>\<close> that succeeds reads a character at least.\<close>

definition reads_on :: "'a stream_ops option \<Rightarrow> bool" where
  "reads_on T \<longleftrightarrow> (\<forall>ops cs a rest. T = Some ops \<and> read_from ops cs = Some (a, rest) \<longrightarrow> length rest < length cs)"

lemma read_values_ends:
  assumes "reads_on (Some T)"
  shows "length cs \<le> fuel \<Longrightarrow> read_values fuel T cs v n \<noteq> Inl e"
  using assms
proof (induction fuel T cs v n rule: read_values.induct)
  case (3 fuel T c cs v n)
  show ?case
  proof (cases "read_from T (c # cs)")
    case (Some r)
    obtain a rest where r: "r = (a, rest)" by (cases r)
    have l: "length rest < length (c # cs)" using 3(3) Some r unfolding reads_on_def by blast
    then show ?thesis using 3(1) [OF Some r [symmetric] l] 3(2,3) Some r by simp
  qed simp
qed simp_all

definition option_wf :: "'a popl_option \<Rightarrow> bool" where
  "option_wf o1 \<longleftrightarrow> length (o_short_name o1) \<le> 1 \<and> (o_short_name o1 \<noteq> [] \<or> o_long_name o1 \<noteq> []) \<and>
     (o_class o1 \<noteq> Value_class \<longrightarrow> o_default o1 \<noteq> None) \<and> reads_on (T_ops o1)"

text \<open>Two options do not share a name.\<close>

definition names_apart :: "char \<times> string \<Rightarrow> char \<times> string \<Rightarrow> bool" where
  "names_apart n m \<longleftrightarrow> (fst n = fst m \<longrightarrow> fst n = nul) \<and> (snd n = snd m \<longrightarrow> snd n = [])"

definition option_names :: "'a popl_option \<Rightarrow> char \<times> string" where
  "option_names o1 = (Option_short_name o1, o_long_name o1)"

definition parser_wf :: "'a option_parser \<Rightarrow> bool" where
  "parser_wf P \<longleftrightarrow> (\<forall>o1 \<in> set (op_options P). option_wf o1) \<and> sorted_wrt names_apart (map option_names (op_options P))"

text \<open>The exception is the one of the class of its own.\<close>

abbreviation invalid_option_thrown :: "popl_failure \<Rightarrow> bool" where
  "invalid_option_thrown e \<equiv> (\<exists>x. e = Invalid_option x)"

lemma Value_parse_throws:
  assumes "reads_on (T_ops (snd st))" and "Value_parse st what v = Inl e"
  shows "invalid_option_thrown e"
proof (cases "T_ops (snd st)")
  case None
  then show ?thesis using assms by (auto simp: Value_parse_def invalid_def Let_def split: if_splits)
next
  case (Some T)
  then have "read_values (length v) T v None 0 \<noteq> Inl e'" for e'
    using assms(1) by (intro read_values_ends) simp_all
  then obtain r where "read_values (length v) T v None 0 = Inr r" by (cases "read_values (length v) T v None 0") auto
  then show ?thesis
    using assms Some by (cases r; cases "fst (the r)") (auto simp: Value_parse_def invalid_def Let_def split: if_splits)
qed

lemma Option_parse_throws:
  "option_wf (snd st) \<Longrightarrow> Option_parse st what v = Inl e \<Longrightarrow> invalid_option_thrown e"
  by (cases st)
    (auto simp: Option_parse_def Implicit_parse_def Switch_parse_def option_wf_def dest: Value_parse_throws [rotated]
      split: option_class.splits if_splits option.splits)

lemma option_wf_values [simp]: "option_wf (o1\<lparr>o_values := vs\<rparr>) = option_wf o1"
  "option_names (o1\<lparr>o_values := vs\<rparr>) = option_names o1"
  by (simp_all add: option_wf_def option_names_def Option_short_name_def)

lemma parser_wf_update:
  assumes "parser_wf P" and "i < length (op_options P)" and "option_wf o1" and "option_names o1 = option_names (op_options P ! i)"
  shows "parser_wf (P\<lparr>op_options := (op_options P)[i := o1]\<rparr>)"
proof -
  have "map option_names ((op_options P)[i := o1]) = map option_names (op_options P)"
    using assms(2,4) by (simp add: map_update list_update_same_conv)
  then show ?thesis
    using assms(1,3) set_update_subset_insert [of "op_options P" i o1] by (auto simp: parser_wf_def)
qed

interpretation wf_kept: parse_invariant "\<lambda>st. parser_wf (snd st)" invalid_option_thrown
proof
  fix st :: "'a parser_state" and i what v
  assume o: "parser_wf (snd st)" "i < length (op_options (snd st))"
  then have w: "option_wf (op_options (snd st) ! i)" by (simp add: parser_wf_def)
  show "case at_option st i (\<lambda>x. Option_parse x what v) of Inl e \<Rightarrow> invalid_option_thrown e | Inr st' \<Rightarrow> parser_wf (snd st')"
  proof (cases "at_option st i (\<lambda>x. Option_parse x what v)")
    case (Inl e)
    then have "Option_parse (fst st, op_options (snd st) ! i) what v = Inl e"
      by (simp add: at_option_def and_then_eq_Inl)
    then show ?thesis using Inl Option_parse_throws [of "(fst st, op_options (snd st) ! i)"] w by simp
  next
    case (Inr st')
    then show ?thesis using o w by (auto elim!: at_option_adds intro!: parser_wf_update)
  qed
qed (simp_all add: push_unknown_def push_args_def parser_wf_def)

lemma parse_start_wf: "parser_wf (snd st) \<Longrightarrow> parser_wf (snd (parse_start st))"
  by (auto simp: parse_start_def parser_wf_def comp_def)

lemma check_required_throws: "check_required os = Inl e \<Longrightarrow> invalid_option_thrown e"
  by (induction os) (auto simp: invalid_def Let_def split: if_splits)

lemma parse_wf:
  assumes "parser_wf (snd st)"
  shows "case OptionParser_parse st argv of Inl e \<Rightarrow> invalid_option_thrown e | Inr st' \<Rightarrow> parser_wf (snd st')"
  using wf_kept.arguments_kept [OF parse_start_wf [OF assms], of "drop 1 argv"] check_required_throws
  by (auto simp: parse_by_start and_then_def split: sum.split)

end
