(* ===== verification/Popl_Reach.thy ===== *)
theory Popl_Reach
  imports Popl_Props
begin

text \<open>
  The states of a parser that a program can produce with the functions of \<open>popl.h\<close>, as an
  inductive relation: what holds in all of them, and what a parse can throw there. Then what an
  assigned variable holds.
\<close>

section \<open>The calls of a program\<close>

inductive popl_reach :: "'a parser_state \<Rightarrow> bool" where
  new: "popl_reach (vars, OptionParser_new desc)"
| program: "popl_reach (vars, P) \<Longrightarrow> popl_reach (vars', P)"
| add_value: "popl_reach (vars, P) \<Longrightarrow> Value_new T short long desc = Inr o1 \<Longrightarrow> reads_on T \<Longrightarrow>
    OptionParser_add P a o1 = Inr (i, P') \<Longrightarrow> popl_reach (vars, P')"
| add_default: "popl_reach (vars, P) \<Longrightarrow> Value_new_default c vars T short long desc v x = Inr (vars', o1) \<Longrightarrow> reads_on T \<Longrightarrow>
    OptionParser_add P a o1 = Inr (i, P') \<Longrightarrow> popl_reach (vars', P')"
| parse: "popl_reach st \<Longrightarrow> OptionParser_parse st argv = Inr st' \<Longrightarrow> popl_reach st'"
| set_attribute: "popl_reach (vars, P) \<Longrightarrow> i < length (op_options P) \<Longrightarrow>
    popl_reach (vars, P\<lparr>op_options := (op_options P)[i := Option_set_attribute (op_options P ! i) a]\<rparr>)"
| call: "popl_reach (vars, P) \<Longrightarrow> i < length (op_options P) \<Longrightarrow>
    r = Value_assign_to (vars, op_options P ! i) x \<or> r = Value_set_value (vars, op_options P ! i) v \<or>
      r = Value_set_default (vars, op_options P ! i) v \<and> o_class (op_options P ! i) \<noteq> Switch_class \<Longrightarrow>
    popl_reach (fst r, P\<lparr>op_options := (op_options P)[i := snd r]\<rparr>)"

lemma check_duplicates_ok:
  "check_duplicates os opt = Inr () \<longleftrightarrow> (\<forall>o1 \<in> set os. names_apart (option_names o1) (option_names opt))"
  by (induction os) (auto simp: names_apart_def option_names_def Option_long_name_def)

lemma OptionParser_add_wf:
  assumes "parser_wf P" and "option_wf o1" and "OptionParser_add P a o1 = Inr (i, P')"
  shows "parser_wf P'"
proof -
  have "check_duplicates (op_options P) o1 = Inr ()" "P' = P\<lparr>op_options := op_options P @ [Option_set_attribute o1 a]\<rparr>"
    using assms(3) by (auto simp: OptionParser_add_def and_then_eq_Inr)
  moreover have "option_wf (Option_set_attribute o1 a)" "option_names (Option_set_attribute o1 a) = option_names o1"
    using assms(2) by (simp_all add: option_wf_def option_names_def Option_short_name_def Option_set_attribute_def)
  ultimately show ?thesis
    using assms(1) by (auto simp: parser_wf_def check_duplicates_ok sorted_wrt_append)
qed

lemma Value_new_wf: "Value_new T short long desc = Inr o1 \<Longrightarrow> reads_on T \<Longrightarrow> option_wf o1"
  by (auto simp: Value_new_def Option_make_def option_wf_def split: if_splits)

lemma Value_new_default_wf:
  "Value_new_default c vars T short long desc v x = Inr (vars', o1) \<Longrightarrow> reads_on T \<Longrightarrow> option_wf o1"
  by (auto simp: Value_new_default_def Value_set_default_def Option_make_def option_wf_def and_then_eq_Inr
      dest!: arg_cong [where f = snd] split: if_splits)

lemma call_wf:
  assumes "option_wf (snd st)"
    and "r = Value_assign_to st x \<or> r = Value_set_value st v \<or> r = Value_set_default st v"
  shows "option_wf (snd r) \<and> option_names (snd r) = option_names (snd st)"
  using assms
  by (auto simp: Value_assign_to_def Value_set_value_def Value_clear_def Value_set_default_def option_wf_def
      option_names_def Option_short_name_def)

lemma popl_reach_wf: "popl_reach st \<Longrightarrow> parser_wf (snd st)"
proof (induction rule: popl_reach.induct)
  case new
  show ?case by (simp add: OptionParser_new_def parser_wf_def)
next
  case add_value
  then show ?case using OptionParser_add_wf Value_new_wf by fastforce
next
  case add_default
  then show ?case using OptionParser_add_wf Value_new_default_wf by fastforce
next
  case (parse st argv st')
  then show ?case using parse_wf [of st argv] by simp
next
  case (set_attribute vars P i a)
  have "option_wf (op_options P ! i)" using set_attribute by (simp add: parser_wf_def)
  then have "option_wf (Option_set_attribute (op_options P ! i) a)"
    "option_names (Option_set_attribute (op_options P ! i) a) = option_names (op_options P ! i)"
    by (simp_all add: Option_set_attribute_def option_wf_def option_names_def Option_short_name_def)
  then show ?case using set_attribute parser_wf_update by simp
next
  case (call vars P i r x v)
  have "option_wf (snd (vars, op_options P ! i))" using call by (simp add: parser_wf_def)
  from call_wf [OF this, of r x v] call(3) have "option_wf (snd r) \<and> option_names (snd r) = option_names (op_options P ! i)"
    by auto
  then show ?case using call parser_wf_update [of P i "snd r"] by simp
qed simp_all

text \<open>C40. In every state that a program reaches with the functions of the parser, the options have a
  name of their own, one short letter at most, and a default when their class reads it; parsing
  any command line there ends, reads no null pointer, and throws \<open>invalid_option\<close> or nothing.
\<close>

theorem popl_reachable_states:
  assumes "popl_reach st"
  shows "(\<forall>o1 \<in> set (op_options (snd st)). length (o_short_name o1) \<le> 1 \<and> (o_short_name o1 \<noteq> [] \<or> o_long_name o1 \<noteq> []) \<and>
      (o_class o1 \<noteq> Value_class \<longrightarrow> o_default o1 \<noteq> None)) \<and>
    sorted_wrt names_apart (map option_names (op_options (snd st))) \<and>
    (\<forall>argv e. OptionParser_parse st argv = Inl e \<longrightarrow> (\<exists>x. e = Invalid_option x))"
proof -
  have wf: "parser_wf (snd st)" by (rule popl_reach_wf [OF assms])
  have "\<exists>x. e = Invalid_option x" if "OptionParser_parse st argv = Inl e" for argv e
    using parse_wf [OF wf, of argv] that by simp
  then show ?thesis using wf by (auto simp: parser_wf_def option_wf_def)
qed

text \<open>Numbers: \<open>>>\<close> of \<open>int\<close> skips white space and reads a sign and digits; a number out of range fails.\<close>

definition int_ops :: "int stream_ops" where
  "int_ops = \<lparr>read_from = (\<lambda>cs. case parse_int 10 cs of
       None \<Rightarrow> None
     | Some (neg, n, idx) \<Rightarrow>
        (let v = (if neg then - int n else int n)
         in if v < - (2 ^ 31) \<or> 2 ^ 31 \<le> v then None else Some (v, drop idx cs))),
     insert_text = (\<lambda>v. (if v < 0 then ''-'' else []) @ decimal (nat \<bar>v\<bar>))\<rparr>"

lemma parse_int_reads:
  assumes "parse_int b cs = Some (neg, n, idx)"
  shows "0 < idx \<and> cs \<noteq> []"
  using assms by (cases cs) (auto simp: parse_int_def Let_def split: if_splits)

lemma int_ops_read: "reads_on (Some int_ops)"
  by (auto simp: reads_on_def int_ops_def Let_def split: option.splits if_splits dest!: parse_int_reads)

text \<open>A parser with a switch, a number and a required string.\<close>

definition sample_option :: "option_class \<Rightarrow> int stream_ops option \<Rightarrow> string \<Rightarrow> string \<Rightarrow> Attribute \<Rightarrow> int cval option \<Rightarrow> nat option \<Rightarrow> int popl_option" where
  "sample_option c T short long a d x = \<lparr>o_short_name = short, o_long_name = long, o_description = [], o_attribute = a,
     o_class = c, T_ops = T, o_default = d, o_values = [], o_assign_to = x\<rparr>"

definition sample_parser :: "int option_parser" where
  "sample_parser = \<lparr>op_options =
      [sample_option Switch_class None ''v'' ''verbose'' Attribute_optional (Some (BoolV False)) (Some 0),
       sample_option Value_class (Some int_ops) ''n'' ''number'' Attribute_optional (Some (StreamV 7)) (Some 1),
       sample_option Value_class None ''f'' [] Attribute_required None (Some 2)],
     op_description = [], op_non_option_args = [], op_unknown_options = []\<rparr>"

lemma sample_parser_reached: "\<exists>vars. popl_reach (vars, sample_parser)"
proof -
  let ?vars = "\<lambda>_. BoolV True"
  let ?v1 = "?vars(0 := BoolV False)" and ?v2 = "?vars(0 := BoolV False, 1 := StreamV 7)"
  let ?o0 = "sample_option Switch_class None ''v'' ''verbose'' Attribute_optional (Some (BoolV False)) (Some 0)"
  let ?o1 = "sample_option Value_class (Some int_ops) ''n'' ''number'' Attribute_optional (Some (StreamV 7)) (Some 1)"
  let ?o2 = "sample_option Value_class None ''f'' [] Attribute_optional None None"
  have 1: "Value_new_default Switch_class ?vars None ''v'' ''verbose'' [] (BoolV False) (Some 0) = Inr (?v1, ?o0)"
    and 2: "Value_new_default Value_class ?v1 (Some int_ops) ''n'' ''number'' [] (StreamV 7) (Some 1) = Inr (?v2, ?o1)"
    and 3: "Value_new None ''f'' [] [] = Inr ?o2"
    by (simp_all add: Value_new_default_def Value_new_def Option_make_def Value_set_default_def Value_update_reference_def
        Value_value_def Value_is_set_def sample_option_def)
  let ?P1 = "OptionParser_new []\<lparr>op_options := [?o0]\<rparr>" and ?P2 = "OptionParser_new []\<lparr>op_options := [?o0, ?o1]\<rparr>"
    and ?P3 = "OptionParser_new []\<lparr>op_options := [?o0, ?o1, ?o2\<lparr>o_attribute := Attribute_required\<rparr>]\<rparr>"
  have a: "OptionParser_add (OptionParser_new []) Attribute_optional ?o0 = Inr (0, ?P1)"
    "OptionParser_add ?P1 Attribute_optional ?o1 = Inr (1, ?P2)"
    "OptionParser_add ?P2 Attribute_required ?o2 = Inr (2, ?P3)"
    by (simp_all add: OptionParser_add_def OptionParser_new_def Option_set_attribute_def sample_option_def
        Option_short_name_def Option_long_name_def)
  have none: "reads_on None" by (simp add: reads_on_def)
  have "popl_reach (?v2, ?P3)"
    using popl_reach.add_value [OF popl_reach.add_default [OF popl_reach.add_default [OF popl_reach.new 1 none a(1)] 2 int_ops_read a(2)] 3 none a(3)] .
  then have "popl_reach (fst (Value_assign_to (?v2, op_options ?P3 ! 2) (Some 2)), ?P3\<lparr>op_options := (op_options ?P3)[2 := snd (Value_assign_to (?v2, op_options ?P3 ! 2) (Some 2))]\<rparr>)"
    by (rule popl_reach.call [OF _ _ disjI1 [OF refl]]) (simp_all add: OptionParser_new_def)
  moreover have "?P3\<lparr>op_options := (op_options ?P3)[2 := snd (Value_assign_to (?v2, op_options ?P3 ! 2) (Some 2))]\<rparr> = sample_parser"
    by (simp add: sample_parser_def OptionParser_new_def Value_assign_to_def sample_option_def numeral_2_eq_2)
  ultimately show ?thesis by auto
qed

section \<open>Assigned variables\<close>

text \<open>What the assigned variables hold when the others hold \<open>vars\<close>: the first value of the option, or
  its default.\<close>

fun assigned :: "'a variables \<Rightarrow> 'a popl_option list \<Rightarrow> 'a variables" where
  "assigned vars [] x = vars x"
| "assigned vars (o1 # os) x =
     (if o_assign_to o1 = Some x
      then (case o_values o1 of v # vs \<Rightarrow> v | [] \<Rightarrow> (case o_default o1 of Some d \<Rightarrow> d | None \<Rightarrow> vars x))
      else assigned vars os x)"

text \<open>No two options are assigned to one variable.\<close>

fun own_variables :: "'a popl_option list \<Rightarrow> bool" where
  "own_variables [] = True"
| "own_variables (o1 # os) \<longleftrightarrow>
     (o_assign_to o1 \<noteq> None \<longrightarrow> (\<forall>o2 \<in> set os. o_assign_to o2 \<noteq> o_assign_to o1)) \<and> own_variables os"

lemma assigned_other:
  "(\<forall>o1 \<in> set os. o_assign_to o1 \<noteq> Some x) \<Longrightarrow> assigned vars os x = vars x"
  by (induction os) auto

lemma assigned_update:
  assumes "i < length os" and "own_variables os" and "o_assign_to o1 = o_assign_to (os ! i)" and "o_values o1 = v # vs"
  shows "assigned vars (os[i := o1]) = (case o_assign_to o1 of None \<Rightarrow> assigned vars os | Some x \<Rightarrow> (assigned vars os)(x := v))"
  using assms
proof (induction os arbitrary: i)
  case (Cons o2 os)
  show ?case
  proof (cases i)
    case 0
    with Cons show ?thesis by (cases "o_assign_to o2") (auto simp: fun_eq_iff)
  next
    case (Suc j)
    with Cons have "assigned vars (os[j := o1]) = (case o_assign_to o1 of None \<Rightarrow> assigned vars os | Some x \<Rightarrow> (assigned vars os)(x := v))"
      and "o_assign_to o2 \<noteq> None \<longrightarrow> o_assign_to o2 \<noteq> o_assign_to o1" by auto
    with Suc show ?thesis by (cases "o_assign_to o1") (auto simp: fun_eq_iff)
  qed
qed simp

lemma own_variables_update:
  "i < length os \<Longrightarrow> o_assign_to o1 = o_assign_to (os ! i) \<Longrightarrow> own_variables os \<Longrightarrow> own_variables (os[i := o1])"
proof (induction os arbitrary: i)
  case (Cons o2 os)
  then show ?case
    by (cases i) (auto dest!: set_update_subset_insert [THEN subsetD])
qed simp

lemma add_value_variable:
  "fst (Value_add_value (vars, o1) w) =
     (case o_assign_to o1 of None \<Rightarrow> vars | Some x \<Rightarrow> vars(x := hd (o_values o1 @ [w])))"
  by (auto simp: Value_add_value_def Value_update_reference_def Value_value_def Value_is_set_def Value_count_def hd_conv_nth
      nth_append split: option.split)

interpretation variables_kept: parse_invariant
  "\<lambda>st. own_variables (op_options (snd st)) \<and> fst st = assigned vars (op_options (snd st))" "\<lambda>e. True" for vars
proof
  fix st :: "'a parser_state" and i what v
  assume o: "own_variables (op_options (snd st)) \<and> fst st = assigned vars (op_options (snd st))" "i < length (op_options (snd st))"
  let ?o = "op_options (snd st) ! i"
  have "own_variables ((op_options (snd st))[i := ?o\<lparr>o_values := o_values ?o @ [w]\<rparr>]) \<and>
    fst (Value_add_value (fst st, ?o) w) = assigned vars ((op_options (snd st))[i := ?o\<lparr>o_values := o_values ?o @ [w]\<rparr>])" for w
    using o own_variables_update [OF o(2), of "?o\<lparr>o_values := o_values ?o @ [w]\<rparr>"]
      assigned_update [OF o(2), of "?o\<lparr>o_values := o_values ?o @ [w]\<rparr>" "hd (o_values ?o @ [w])" "tl (o_values ?o @ [w])" vars]
    by (simp add: add_value_variable split: option.split)
  then show "case at_option st i (\<lambda>x. Option_parse x what v) of Inl e \<Rightarrow> True
      | Inr st' \<Rightarrow> own_variables (op_options (snd st')) \<and> fst st' = assigned vars (op_options (snd st'))"
    by (auto elim!: at_option_adds split: sum.split)
qed (simp_all add: push_unknown_def push_args_def)

lemma assigned_cong: "vars x = vars' x \<Longrightarrow> assigned vars os x = assigned vars' os x"
  by (induction os) (auto split: list.split option.split)

lemma own_variables_map: "own_variables (map (\<lambda>o1. o1\<lparr>o_values := []\<rparr>) os) = own_variables os"
  by (induction os) auto

lemma clear_value_variable:
  "fst (Value_clear (vars, o1)) =
     (case (o_assign_to o1, o_default o1) of (Some x, Some d) \<Rightarrow> vars(x := d) | _ \<Rightarrow> vars)"
  by (auto simp: Value_clear_def Value_update_reference_def Value_value_def Value_is_set_def split: option.split)

lemma clear_options_variables:
  "own_variables os \<Longrightarrow> fst (clear_options vars os) = assigned vars (map (\<lambda>o1. o1\<lparr>o_values := []\<rparr>) os)"
proof (induction os arbitrary: vars)
  case (Cons o1 os)
  let ?os = "map (\<lambda>o1. o1\<lparr>o_values := []\<rparr>) os"
  have c: "fst (clear_options vars (o1 # os)) = assigned (fst (Value_clear (vars, o1))) ?os"
    using Cons.IH [of "fst (Value_clear (vars, o1))"] Cons.prems
    by (auto split: prod.split)
  have "assigned (fst (Value_clear (vars, o1))) ?os x = assigned vars (map (\<lambda>o1. o1\<lparr>o_values := []\<rparr>) (o1 # os)) x" for x
  proof (cases "o_assign_to o1 = Some x")
    case True
    then have "\<forall>o2 \<in> set ?os. o_assign_to o2 \<noteq> Some x" using Cons.prems by auto
    then show ?thesis using True by (simp add: assigned_other clear_value_variable split: option.split)
  next
    case False
    then show ?thesis by (auto simp: clear_value_variable split: option.split intro: assigned_cong)
  qed
  then show ?case by (simp only: c fun_eq_iff simp_thms)
qed (simp add: fun_eq_iff)

text \<open>When no variable is assigned to two options, a successful parse leaves in each the first
  value that the command line gives its option, the default of an option without a value, and
  every other variable as it was.
\<close>

theorem popl_assigned_variables:
  assumes "own_variables (op_options (snd st))" and "OptionParser_parse st argv = Inr st'"
  shows "fst st' = assigned (fst st) (op_options (snd st'))"
proof -
  have "parse_arguments (parse_start st) (drop 1 argv) = Inr st'"
    using assms(2) by (auto simp: parse_by_start and_then_eq_Inr)
  moreover have "own_variables (op_options (snd (parse_start st))) \<and>
      fst (parse_start st) = assigned (fst st) (op_options (snd (parse_start st)))"
    using assms(1) by (simp add: parse_start_def own_variables_map clear_options_variables)
  ultimately show ?thesis
    using variables_kept.arguments_kept [of "parse_start st" "fst st" "drop 1 argv"] by simp
qed

lemmas run_simps = OptionParser_parse_def parse_argument_def short_argument_def long_argument_def push_args_def
  push_unknown_def split_equal_def find_option_long_def find_option_short_def active_def at_option_def
  Option_parse_def Switch_parse_def Implicit_parse_def Value_parse_def Value_clear_def Value_add_value_def
  Value_update_reference_def Value_value_def Value_is_set_def Value_count_def Option_short_name_def Option_long_name_def
  Option_attribute_def Option_argument_type_def invalid_def

lemma sample_number: "read_from int_ops ''5'' = Some (5, [])" "read_from int_ops ''6'' = Some (6, [])"
  by (simp_all add: int_ops_def parse_int_def is_space_def digit_value_def)

theorem popl_reachable_states_witness:
  "\<exists>x. OptionParser_parse (\<lambda>_. BoolV True, sample_parser) [''prog'', ''-n'', ''x''] = Inl (Invalid_option x)"
proof -
  obtain vars where "popl_reach (vars, sample_parser)" using sample_parser_reached by blast
  then have r: "popl_reach (\<lambda>_. BoolV True, sample_parser)" by (rule popl_reach.program)
  have "read_from int_ops ''x'' = None"
    by (simp add: int_ops_def parse_int_def is_space_def digit_value_def)
  then have "\<exists>e. OptionParser_parse (\<lambda>_. BoolV True, sample_parser) [''prog'', ''-n'', ''x''] = Inl e"
    by (simp add: sample_parser_def sample_option_def run_simps nul_def)
  then show ?thesis using popl_reachable_states [OF r] by auto
qed

theorem popl_assigned_variables_witness:
  "\<exists>st'. OptionParser_parse (\<lambda>_. BoolV True, sample_parser) [''prog'', ''-n5'', ''-n'', ''6'', ''-fx''] = Inr st' \<and>
     fst st' 1 = StreamV 5"
proof -
  let ?st = "(\<lambda>_. BoolV True, sample_parser)" and ?argv = "[''prog'', ''-n5'', ''-n'', ''6'', ''-fx'']"
  obtain st' where r: "OptionParser_parse ?st ?argv = Inr st'"
    and os: "op_options (snd st') =
      [op_options sample_parser ! 0, (op_options sample_parser ! 1)\<lparr>o_values := [StreamV 5, StreamV 6]\<rparr>,
       (op_options sample_parser ! 2)\<lparr>o_values := [StringV ''x'']\<rparr>]"
    by (simp add: sample_parser_def sample_option_def run_simps sample_number nul_def numeral_2_eq_2)
  have "fst st' = assigned (fst ?st) (op_options (snd st'))"
    by (rule popl_assigned_variables [OF _ r]) (simp add: sample_parser_def sample_option_def)
  then have "fst st' 1 = StreamV 5" by (simp add: os) (simp add: sample_parser_def sample_option_def)
  with r show ?thesis by blast
qed

section \<open>Attributes\<close>

text \<open>A command line that is parsed without an exception changes nothing of an option but its
  values: a required option has one, an inactive option has none.
\<close>

theorem popl_parse_respects_attributes:
  assumes "OptionParser_parse st argv = Inr st'"
  shows "list_all2 (\<lambda>o1 o2. o2 = o1\<lparr>o_values := o_values o2\<rparr> \<and>
      (o_attribute o1 = Attribute_required \<longrightarrow> o_values o2 \<noteq> []) \<and>
      (o_attribute o1 = Attribute_inactive \<longrightarrow> o_values o2 = []))
    (op_options (snd st)) (op_options (snd st'))"
proof -
  let ?os = "map (\<lambda>o1. o1\<lparr>o_values := []\<rparr>) (op_options (snd st))"
  have r: "parse_arguments (parse_start st) (drop 1 argv) = Inr st'" "check_required (op_options (snd st')) = Inr ()"
    using assms by (auto simp: parse_by_start and_then_eq_Inr)
  have "list_all2 added ?os (op_options (snd (parse_start st)))"
    by (simp add: parse_start_def list_all2_refl)
  from grown.arguments_kept [OF this, of "drop 1 argv"] r(1)
  have g: "list_all2 added ?os (op_options (snd st'))" by simp
  show ?thesis
  proof (rule list_all2_all_nthI)
    show "length (op_options (snd st)) = length (op_options (snd st'))" using list_all2_lengthD [OF g] by simp
    fix i
    assume i: "i < length (op_options (snd st))"
    then have "op_options (snd st') ! i \<in> set (op_options (snd st'))" using list_all2_lengthD [OF g] by simp
    with r(2) have "o_attribute (op_options (snd st') ! i) = Attribute_required \<longrightarrow> o_values (op_options (snd st') ! i) \<noteq> []"
      by (simp add: check_required_ok)
    then show "op_options (snd st') ! i = (op_options (snd st) ! i)\<lparr>o_values := o_values (op_options (snd st') ! i)\<rparr> \<and>
      (o_attribute (op_options (snd st) ! i) = Attribute_required \<longrightarrow> o_values (op_options (snd st') ! i) \<noteq> []) \<and>
      (o_attribute (op_options (snd st) ! i) = Attribute_inactive \<longrightarrow> o_values (op_options (snd st') ! i) = [])"
      using list_all2_nthD [OF g, of i] i by (auto simp: added_def)
  qed
qed

theorem popl_parse_respects_attributes_witness:
  "\<exists>st'. OptionParser_parse (\<lambda>_. BoolV True, sample_parser) [''prog'', ''-fx''] = Inr st' \<and>
     o_values (op_options (snd st') ! 2) \<noteq> [] \<and> o_long_name (op_options (snd st') ! 1) = ''number''"
proof -
  let ?st = "(\<lambda>_. BoolV True, sample_parser)"
  obtain st' where r: "OptionParser_parse ?st [''prog'', ''-fx''] = Inr st'"
    by (simp add: sample_parser_def sample_option_def run_simps nul_def numeral_2_eq_2)
  note all = popl_parse_respects_attributes [OF r]
  have "o_values (op_options (snd st') ! 2) \<noteq> []"
    using list_all2_nthD [OF all, of 2] by (simp add: sample_parser_def sample_option_def numeral_2_eq_2)
  moreover have "op_options (snd st') ! 1 = (op_options sample_parser ! 1)\<lparr>o_values := o_values (op_options (snd st') ! 1)\<rparr>"
    using list_all2_nthD [OF all, of 1] by (simp add: sample_parser_def)
  then have "o_long_name (op_options (snd st') ! 1) = o_long_name (op_options sample_parser ! 1)"
    by (metis popl_option.select_convs(2) popl_option.surjective popl_option.update_convs(8))
  ultimately show ?thesis using r by (auto simp: sample_parser_def sample_option_def)
qed

end
