(* ===== verification/Popl_Lines.thy ===== *)
theory Popl_Lines
  imports Popl_Reach
begin

text \<open>
  Command lines: the settings that a line of options means, the strings that write them, and that
  a parse reads them back; switches in one argument; and what two hyphens alone do.
\<close>

section \<open>Settings and how they are written\<close>

datatype form = Long_equal | Long_apart | Short_joined | Short_apart

datatype setting = Give nat form string | Turn_on nat bool | Plain string

fun setting_strings :: "'a popl_option list \<Rightarrow> setting \<Rightarrow> string list" where
  "setting_strings os (Give i Long_equal t) = [''--'' @ o_long_name (os ! i) @ ''='' @ t]"
| "setting_strings os (Give i Long_apart t) = [''--'' @ o_long_name (os ! i), t]"
| "setting_strings os (Give i Short_joined t) = [''-'' @ o_short_name (os ! i) @ t]"
| "setting_strings os (Give i Short_apart t) = [''-'' @ o_short_name (os ! i), t]"
| "setting_strings os (Turn_on i long) = (if long then [''--'' @ o_long_name (os ! i)] else [''-'' @ o_short_name (os ! i)])"
| "setting_strings os (Plain a) = [a]"

text \<open>The value that a text is for an option.\<close>

definition text_value :: "'a popl_option \<Rightarrow> string \<Rightarrow> 'a cval option" where
  "text_value o1 t =
     (if t = [] then None
      else case T_ops o1 of None \<Rightarrow> Some (StringV t)
      | Some T \<Rightarrow> (case read_from T t of Some (a, []) \<Rightarrow> Some (StreamV a) | _ \<Rightarrow> None))"

definition long_ok :: "'a popl_option \<Rightarrow> bool" where
  "long_ok o1 \<longleftrightarrow> o_long_name o1 \<noteq> [] \<and> CHR ''='' \<notin> set (o_long_name o1)"

definition short_ok :: "'a popl_option \<Rightarrow> bool" where
  "short_ok o1 \<longleftrightarrow> (\<exists>c. o_short_name o1 = [c] \<and> c \<noteq> CHR ''-'' \<and> c \<noteq> nul)"

text \<open>A setting names an active option of the right class by a name that it has.\<close>

fun setting_ok :: "'a popl_option list \<Rightarrow> setting \<Rightarrow> bool" where
  "setting_ok os (Give i f t) \<longleftrightarrow> i < length os \<and> o_attribute (os ! i) \<noteq> Attribute_inactive \<and>
     o_class (os ! i) = Value_class \<and> text_value (os ! i) t \<noteq> None \<and>
     (if f \<in> {Long_equal, Long_apart} then long_ok (os ! i) else short_ok (os ! i))"
| "setting_ok os (Turn_on i long) \<longleftrightarrow> i < length os \<and> o_attribute (os ! i) \<noteq> Attribute_inactive \<and>
     o_class (os ! i) = Switch_class \<and> (if long then long_ok (os ! i) else short_ok (os ! i))"
| "setting_ok os (Plain a) \<longleftrightarrow> take 1 a \<noteq> ''-''"

text \<open>What settings mean: the values they give an option, and the other arguments.\<close>

fun given :: "'a popl_option list \<Rightarrow> nat \<Rightarrow> setting list \<Rightarrow> 'a cval list" where
  "given os j [] = []"
| "given os j (Give i f t # ss) = (if i = j then [the (text_value (os ! i) t)] else []) @ given os j ss"
| "given os j (Turn_on i long # ss) = (if i = j then [BoolV True] else []) @ given os j ss"
| "given os j (Plain a # ss) = given os j ss"

fun plain :: "setting list \<Rightarrow> string list" where
  "plain [] = []"
| "plain (Plain a # ss) = a # plain ss"
| "plain (s # ss) = plain ss"

section \<open>The option of a name\<close>

lemma first_index_unique:
  assumes "i < length xs" and "p (xs ! i)" and "\<And>j. j < i \<Longrightarrow> \<not> p (xs ! j)"
  shows "first_index p xs = Some i"
  using assms
proof (induction xs arbitrary: i)
  case (Cons x xs)
  then show ?case by (cases i) force+
qed simp

lemma names_apart_nth:
  assumes "parser_wf P" and "j < i" and "i < length (op_options P)"
  shows "names_apart (option_names (op_options P ! j)) (option_names (op_options P ! i))"
  using assms sorted_wrt_nth_less [of names_apart "map option_names (op_options P)" j i]
  by (simp add: parser_wf_def)

lemma find_long:
  assumes "parser_wf P" and "i < length (op_options P)" and "long_ok (op_options P ! i)"
  shows "find_option_long P (o_long_name (op_options P ! i)) = Some i"
  unfolding find_option_long_def
  using assms names_apart_nth [OF assms(1) _ assms(2)]
  by (intro first_index_unique) (auto simp: Option_long_name_def long_ok_def names_apart_def option_names_def)

lemma find_short:
  assumes "parser_wf P" and "i < length (op_options P)" and "o_short_name (op_options P ! i) = [c]" and "c \<noteq> nul"
  shows "find_option_short P c = Some i"
  unfolding find_option_short_def
  using assms names_apart_nth [OF assms(1) _ assms(2)]
  by (intro first_index_unique) (auto simp: Option_short_name_def names_apart_def option_names_def)

lemma active_found:
  "o_attribute (op_options P ! i) \<noteq> Attribute_inactive \<Longrightarrow> active P (Some i) = Some i"
  by (simp add: active_def Option_attribute_def)

section \<open>One setting\<close>

definition add_at :: "'a parser_state \<Rightarrow> nat \<Rightarrow> 'a cval \<Rightarrow> 'a parser_state" where
  "add_at st i w = (fst (Value_add_value (fst st, op_options (snd st) ! i) w),
     (snd st)\<lparr>op_options := (op_options (snd st))[i := (op_options (snd st) ! i)\<lparr>o_values := o_values (op_options (snd st) ! i) @ [w]\<rparr>]\<rparr>)"

fun apply_setting :: "'a parser_state \<Rightarrow> setting \<Rightarrow> 'a parser_state" where
  "apply_setting st (Give i f t) = add_at st i (the (text_value (op_options (snd st) ! i) t))"
| "apply_setting st (Turn_on i long) = add_at st i (BoolV True)"
| "apply_setting st (Plain a) = push_args st [a]"

lemma Option_parse_text:
  assumes "o_class o1 = Value_class" and "text_value o1 t = Some w"
  shows "Option_parse (vars, o1) what t = Inr (Value_add_value (vars, o1) w)"
proof -
  obtain c cs where t: "t = c # cs" using assms(2) by (cases t) (auto simp: text_value_def)
  show ?thesis
    using assms by (auto simp: t text_value_def Option_parse_def Value_parse_def Let_def split: option.splits list.splits)
qed

lemma at_option_text:
  assumes "o_class (op_options (snd st) ! i) = Value_class" and "text_value (op_options (snd st) ! i) t = Some w"
  shows "at_option st i (\<lambda>x. Option_parse x what t) = Inr (add_at st i w)"
  using add_value_option [of "(fst st, op_options (snd st) ! i)" w]
  by (cases "Value_add_value (fst st, op_options (snd st) ! i) w")
    (simp add: at_option_def add_at_def Option_parse_text [OF assms])

lemma at_option_switch:
  assumes "o_class (op_options (snd st) ! i) = Switch_class"
  shows "at_option st i (\<lambda>x. Option_parse x what t) = Inr (add_at st i (BoolV True))"
  using add_value_option [of "(fst st, op_options (snd st) ! i)" "BoolV True"] assms
  by (cases "Value_add_value (fst st, op_options (snd st) ! i) (BoolV True)")
    (simp add: at_option_def add_at_def Option_parse_def Switch_parse_def)

lemma split_equal_name [simp]:
  assumes "CHR ''='' \<notin> set name"
  shows "split_equal (name @ CHR ''='' # t) = (name, t)" "split_equal name = (name, [])"
proof -
  have n: "takeWhile (\<lambda>c. c \<noteq> CHR ''='') (name @ CHR ''='' # t) = name" "takeWhile (\<lambda>c. c \<noteq> CHR ''='') name = name"
    using assms by (auto simp: takeWhile_eq_all_conv takeWhile_tail)
  then show "split_equal (name @ CHR ''='' # t) = (name, t)" "split_equal name = (name, [])"
    by (simp_all only: split_equal_def Let_def n) simp_all
qed

text \<open>The loop over the arguments reads a setting and goes on behind it.\<close>

lemma parse_arguments_step:
  "parse_argument st arg rest = Inr (st', rest') \<Longrightarrow> parse_arguments st (arg # rest) = parse_arguments st' rest'"
  by simp

lemma parse_give:
  assumes wf: "parser_wf (snd st)" and ok: "setting_ok (op_options (snd st)) (Give i f t)"
  shows "parse_arguments st (setting_strings (op_options (snd st)) (Give i f t) @ rest) =
    parse_arguments (apply_setting st (Give i f t)) rest"
proof -
  let ?o = "op_options (snd st) ! i"
  obtain w where w: "text_value ?o t = Some w" "i < length (op_options (snd st))" "o_attribute ?o \<noteq> Attribute_inactive"
    "o_class ?o = Value_class"
    using ok by auto
  have t: "t \<noteq> []" using w(1) by (auto simp: text_value_def)
  have type: "Option_argument_type ?o = Argument_required" using w(4) by (simp add: Option_argument_type_def)
  note at = at_option_text [OF w(4,1)] and act = active_found [OF w(3)]
  note defs = parse_argument_def long_argument_def short_argument_def Let_def
  show ?thesis
  proof (cases "f \<in> {Long_equal, Long_apart}")
    case True
    then have l: "long_ok ?o" using ok by simp
    then have eq: "CHR ''='' \<notin> set (o_long_name ?o)" "o_long_name ?o \<noteq> []" by (simp_all add: long_ok_def)
    from True show ?thesis
      by (auto simp: defs eq find_long [OF wf w(2) l] act type at t w(1) simp del: parse_arguments.simps(2)
          intro!: parse_arguments_step)
  next
    case False
    then obtain c where c: "o_short_name ?o = [c]" "c \<noteq> CHR ''-''" "c \<noteq> nul" using ok by (auto simp: short_ok_def)
    from False show ?thesis
      by (cases f) (auto simp: defs c find_short [OF wf w(2) c(1,3)] act type at t w(1) simp del: parse_arguments.simps(2)
          intro!: parse_arguments_step)
  qed
qed

lemma parse_turn_on:
  assumes wf: "parser_wf (snd st)" and ok: "setting_ok (op_options (snd st)) (Turn_on i long)"
  shows "parse_arguments st (setting_strings (op_options (snd st)) (Turn_on i long) @ rest) =
    parse_arguments (apply_setting st (Turn_on i long)) rest"
proof -
  let ?o = "op_options (snd st) ! i"
  have w: "i < length (op_options (snd st))" "o_attribute ?o \<noteq> Attribute_inactive" "o_class ?o = Switch_class"
    using ok by auto
  have type: "Option_argument_type ?o = Argument_no" using w(3) by (simp add: Option_argument_type_def)
  note at = at_option_switch [OF w(3)] and act = active_found [OF w(2)]
  note defs = parse_argument_def long_argument_def short_argument_def Let_def
  show ?thesis
  proof (cases long)
    case True
    then have l: "long_ok ?o" using ok by simp
    then have eq: "CHR ''='' \<notin> set (o_long_name ?o)" "o_long_name ?o \<noteq> []" by (simp_all add: long_ok_def)
    from True show ?thesis
      by (auto simp: defs eq find_long [OF wf w(1) l] act type at simp del: parse_arguments.simps(2)
          intro!: parse_arguments_step)
  next
    case False
    then obtain c where c: "o_short_name ?o = [c]" "c \<noteq> CHR ''-''" "c \<noteq> nul" using ok by (auto simp: short_ok_def)
    from False show ?thesis
      by (auto simp: defs c find_short [OF wf w(1) c(1,3)] act type at simp del: parse_arguments.simps(2)
          intro!: parse_arguments_step)
  qed
qed

lemma parse_setting:
  assumes "parser_wf (snd st)" and "setting_ok (op_options (snd st)) s"
  shows "parse_arguments st (setting_strings (op_options (snd st)) s @ rest) = parse_arguments (apply_setting st s) rest"
proof (cases s)
  case (Give i f t)
  show ?thesis unfolding Give by (rule parse_give [OF assms(1) assms(2) [unfolded Give]])
next
  case (Turn_on i long)
  show ?thesis unfolding Turn_on by (rule parse_turn_on [OF assms(1) assms(2) [unfolded Turn_on]])
next
  case (Plain a)
  then show ?thesis using assms(2) by (cases a rule: list.exhaust) (auto simp: parse_argument_def push_args_def take_Suc numeral_2_eq_2)
qed

section \<open>A line of settings\<close>

text \<open>What a setting means does not depend on the values that options already have.\<close>

definition bare :: "'a popl_option list \<Rightarrow> 'a popl_option list" where
  "bare os = map (\<lambda>o1. o1\<lparr>o_values := []\<rparr>) os"

lemma bare_nth:
  assumes "bare os = bare os'" and "i < length os"
  shows "o_short_name (os ! i) = o_short_name (os' ! i)" "o_long_name (os ! i) = o_long_name (os' ! i)"
    "o_attribute (os ! i) = o_attribute (os' ! i)" "o_class (os ! i) = o_class (os' ! i)" "T_ops (os ! i) = T_ops (os' ! i)"
proof -
  have "length os = length os'" using arg_cong [OF assms(1), of length] by (simp add: bare_def)
  then have e: "(os ! i)\<lparr>o_values := []\<rparr> = (os' ! i)\<lparr>o_values := []\<rparr>"
    using arg_cong [OF assms(1), of "\<lambda>xs. xs ! i"] assms(2) by (simp add: bare_def)
  show "o_short_name (os ! i) = o_short_name (os' ! i)" "o_long_name (os ! i) = o_long_name (os' ! i)"
    "o_attribute (os ! i) = o_attribute (os' ! i)" "o_class (os ! i) = o_class (os' ! i)" "T_ops (os ! i) = T_ops (os' ! i)"
    using arg_cong [OF e, of o_short_name] arg_cong [OF e, of o_long_name] arg_cong [OF e, of o_attribute]
      arg_cong [OF e, of o_class] arg_cong [OF e, of T_ops] by simp_all
qed

lemma bare_length: "bare os = bare os' \<Longrightarrow> length os = length os'"
  by (drule arg_cong [where f = length]) (simp add: bare_def)

lemma bare_setting:
  assumes "bare os = bare os'"
  shows "setting_ok os s = setting_ok os' s" "setting_ok os s \<Longrightarrow> setting_strings os s = setting_strings os' s"
  using bare_nth [OF assms] bare_length [OF assms]
  by (cases s; cases "case s of Give i f t \<Rightarrow> f"; auto simp: text_value_def long_ok_def short_ok_def)+

lemma bare_given:
  assumes "bare os = bare os'" and "\<forall>s \<in> set ss. setting_ok os s"
  shows "given os j ss = given os' j ss"
  using assms(2) bare_nth [OF assms(1)]
  by (induction os j ss rule: given.induct) (auto simp: text_value_def)

lemma add_at_simps [simp]:
  "bare (op_options (snd (add_at st i w))) = bare (op_options (snd st))"
  "op_non_option_args (snd (add_at st i w)) = op_non_option_args (snd st)"
  "op_unknown_options (snd (add_at st i w)) = op_unknown_options (snd st)"
  by (simp_all add: add_at_def bare_def map_update list_update_same_conv)
    (metis list_update_id map_update length_map nth_map list_update_beyond not_le_imp_less)

lemma apply_bare [simp]: "bare (op_options (snd (apply_setting st s))) = bare (op_options (snd st))"
  by (cases s) (simp_all add: push_args_def)

lemma add_at_wf: "parser_wf (snd st) \<Longrightarrow> i < length (op_options (snd st)) \<Longrightarrow> parser_wf (snd (add_at st i w))"
  unfolding add_at_def snd_conv by (rule parser_wf_update) (simp_all add: parser_wf_def)

lemma apply_wf:
  "parser_wf (snd st) \<Longrightarrow> setting_ok (op_options (snd st)) s \<Longrightarrow> parser_wf (snd (apply_setting st s))"
  by (cases s) (simp_all add: add_at_wf, simp add: push_args_def parser_wf_def)

lemma parse_settings:
  assumes "parser_wf (snd st)" and "\<forall>s \<in> set ss. setting_ok (op_options (snd st)) s"
  shows "parse_arguments st (concat (map (setting_strings (op_options (snd st))) ss)) = Inr (foldl apply_setting st ss)"
  using assms
proof (induction ss arbitrary: st)
  case (Cons s ss)
  let ?os = "op_options (snd st)" and ?os' = "op_options (snd (apply_setting st s))"
  have b: "bare ?os = bare ?os'" by simp
  have m: "map (setting_strings ?os) ss = map (setting_strings ?os') ss"
    using Cons.prems(2) bare_setting(2) [OF b] by simp
  moreover have "\<forall>s \<in> set ss. setting_ok ?os' s" using Cons.prems(2) bare_setting(1) [OF b] by simp
  ultimately show ?case
    using Cons.IH [of "apply_setting st s"] Cons.prems parse_setting [OF Cons.prems(1), of s] apply_wf [OF Cons.prems(1), of s]
    by (simp del: map_eq_conv)
qed simp

lemma settings_args:
  "op_non_option_args (snd (foldl apply_setting st ss)) = op_non_option_args (snd st) @ plain ss"
  "op_unknown_options (snd (foldl apply_setting st ss)) = op_unknown_options (snd st)"
proof (induction ss arbitrary: st)
  case (Cons s ss)
  { case 1 show ?case using Cons.IH(1) by (cases s) (simp_all add: push_args_def) }
  { case 2 show ?case using Cons.IH(2) by (cases s) (simp_all add: push_args_def) }
qed simp_all

lemma settings_values:
  assumes "\<forall>s \<in> set ss. setting_ok (op_options (snd st)) s" and "j < length (op_options (snd st))"
  shows "o_values (op_options (snd (foldl apply_setting st ss)) ! j) =
    o_values (op_options (snd st) ! j) @ given (op_options (snd st)) j ss"
  using assms
proof (induction ss arbitrary: st)
  case (Cons s ss)
  let ?os = "op_options (snd st)" and ?os' = "op_options (snd (apply_setting st s))"
  have b: "bare ?os = bare ?os'" by simp
  have ok: "\<forall>s \<in> set ss. setting_ok ?os s" "\<forall>s \<in> set ss. setting_ok ?os' s" "j < length ?os'"
    using Cons.prems bare_setting(1) [OF b] bare_length [OF b] by simp_all
  have "o_values (?os' ! j) = o_values (?os ! j) @ given ?os j [s]"
    using Cons.prems by (cases s) (auto simp: add_at_def push_args_def nth_list_update)
  then show ?case
    using Cons.IH [OF ok(2,3)] bare_given [OF b ok(1), of j] by (cases s) simp_all
qed simp

text \<open>C39. A command line that writes settings of the options in any of the four forms, switches, and
  other arguments, in any order and number, is read back: in every state of a parser that a
  program reaches, when every required option is set, the parse succeeds, each option has the
  values that the settings give it in their order and no others, the other arguments are listed
  in order, and no option is unknown.
\<close>

theorem popl_settings_read_back:
  assumes "popl_reach st" and "\<forall>s \<in> set ss. setting_ok (op_options (snd st)) s"
    and "\<forall>j < length (op_options (snd st)). o_attribute (op_options (snd st) ! j) = Attribute_required \<longrightarrow>
      given (op_options (snd st)) j ss \<noteq> []"
  shows "\<exists>st'. OptionParser_parse st (prog # concat (map (setting_strings (op_options (snd st))) ss)) = Inr st' \<and>
    map o_values (op_options (snd st')) = map (\<lambda>j. given (op_options (snd st)) j ss) [0..<length (op_options (snd st))] \<and>
    op_non_option_args (snd st') = plain ss \<and> op_unknown_options (snd st') = []"
proof -
  let ?os = "op_options (snd st)" and ?start = "parse_start st"
  let ?last = "foldl apply_setting ?start ss"
  have os: "op_options (snd ?start) = bare ?os" "op_non_option_args (snd ?start) = []" "op_unknown_options (snd ?start) = []"
    by (simp_all add: parse_start_def bare_def)
  have b: "bare ?os = bare (bare ?os)" by (simp add: bare_def)
  have ok: "\<forall>s \<in> set ss. setting_ok (op_options (snd ?start)) s" using assms(2) bare_setting(1) [OF b] by (simp add: os)
  have wf: "parser_wf (snd ?start)" by (intro parse_start_wf popl_reach_wf assms(1))
  have strings: "map (setting_strings ?os) ss = map (setting_strings (op_options (snd ?start))) ss"
    using assms(2) bare_setting(2) [OF b] by (simp add: os)
  have p: "parse_arguments ?start (concat (map (setting_strings ?os) ss)) = Inr ?last"
    unfolding strings by (rule parse_settings [OF wf ok])
  have e: "bare (op_options (snd ?last)) = bare ?os"
    using os(1) b by (induction ss arbitrary: st rule: rev_induct) simp_all
  have v: "o_values (op_options (snd ?last) ! j) = given ?os j ss" if "j < length ?os" for j
    using settings_values [OF ok, of j] bare_given [OF b assms(2), of j] that by (simp add: os) (simp add: bare_def)
  have vals: "map o_values (op_options (snd ?last)) = map (\<lambda>j. given ?os j ss) [0..<length ?os]"
    using v bare_length [OF e] by (intro nth_equalityI) simp_all
  have "check_required (op_options (snd ?last)) = Inr ()"
    using assms(3) v bare_length [OF e] bare_nth(3) [OF e] by (simp add: check_required_ok all_set_conv_all_nth)
  then show ?thesis
    using p vals settings_args [of ?start ss] os by (simp add: parse_by_start)
qed

text \<open>A line for the sample parser.\<close>

definition sample_settings :: "setting list" where
  "sample_settings = [Give 1 Short_joined ''5'', Plain ''a'', Turn_on 0 True, Give 1 Long_equal ''6'', Give 2 Short_apart ''--'']"

lemma sample_settings_ok:
  "\<forall>s \<in> set sample_settings. setting_ok (op_options sample_parser) s"
  "\<forall>j < length (op_options sample_parser). o_attribute (op_options sample_parser ! j) = Attribute_required \<longrightarrow>
     given (op_options sample_parser) j sample_settings \<noteq> []"
  "map (\<lambda>j. given (op_options sample_parser) j sample_settings) [0..<length (op_options sample_parser)] =
     [[BoolV True], [StreamV 5, StreamV 6], [StringV ''--'']]"
  by (simp_all add: sample_settings_def sample_parser_def sample_option_def text_value_def sample_number short_ok_def
      long_ok_def nul_def numeral_2_eq_2 less_Suc_eq upt_rec)

theorem popl_settings_read_back_witness:
  "\<exists>st'. OptionParser_parse (\<lambda>_. BoolV True, sample_parser)
      [''prog'', ''-n5'', ''a'', ''--verbose'', ''--number=6'', ''-f'', ''--''] = Inr st' \<and>
     map o_values (op_options (snd st')) = [[BoolV True], [StreamV 5, StreamV 6], [StringV ''--'']] \<and>
     op_non_option_args (snd st') = [''a''] \<and> op_unknown_options (snd st') = []"
proof -
  obtain vars where "popl_reach (vars, sample_parser)" using sample_parser_reached by blast
  then have r: "popl_reach (\<lambda>_. BoolV True, sample_parser)" by (rule popl_reach.program)
  have "concat (map (setting_strings (op_options sample_parser)) sample_settings) =
      [''-n5'', ''a'', ''--verbose'', ''--number=6'', ''-f'', ''--'']"
    and "plain sample_settings = [''a'']"
    by (simp_all add: sample_settings_def sample_parser_def sample_option_def numeral_2_eq_2)
  then show ?thesis
    using popl_settings_read_back [OF r, of sample_settings "''prog''"] sample_settings_ok by simp
qed

section \<open>Switches in one argument\<close>

text \<open>Letters of switches behind one hyphen are read as arguments of their own.\<close>

lemma switch_bundle_start:
  assumes "active (snd st) (find_option_short (snd st) c) = Some i" and "o_class (op_options (snd st) ! i) = Switch_class"
  shows "short_characters st (c # cs) rest u = short_characters (add_at st i (BoolV True)) cs rest u"
  using assms by (simp add: Option_argument_type_def at_option_switch)

definition is_switch :: "'a option_parser \<Rightarrow> char \<Rightarrow> bool" where
  "is_switch P c \<longleftrightarrow> (case active P (find_option_short P c) of None \<Rightarrow> False | Some i \<Rightarrow> o_class (op_options P ! i) = Switch_class)"

lemma find_short_bare: "bare (op_options P) = bare (op_options Q) \<Longrightarrow> find_option_short P c = find_option_short Q c"
proof -
  have "first_index (\<lambda>o1. Option_short_name o1 = c) (bare os) = first_index (\<lambda>o1. Option_short_name o1 = c) os"
    for os :: "'a popl_option list" by (induction os) (simp_all add: bare_def Option_short_name_def)
  then show "bare (op_options P) = bare (op_options Q) \<Longrightarrow> find_option_short P c = find_option_short Q c"
    unfolding find_option_short_def by metis
qed

lemma is_switch_bare:
  assumes "bare (op_options P) = bare (op_options Q)"
  shows "is_switch P c = is_switch Q c"
proof (cases "find_option_short Q c")
  case (Some i)
  then have "i < length (op_options P)"
    using first_index_Some [of _ "op_options Q" i] bare_length [OF assms] by (simp add: find_option_short_def)
  then show ?thesis
    using Some find_short_bare [OF assms, of c] bare_nth(3,4) [OF assms, of i]
    by (simp add: is_switch_def active_def Option_attribute_def)
qed (simp add: is_switch_def active_def find_short_bare [OF assms])

lemma switches_apart:
  assumes "\<forall>c \<in> set cs. is_switch (snd st) c \<and> c \<noteq> CHR ''-''"
  shows "\<exists>st'. short_characters st cs rest u = Inr (st', rest, u) \<and>
    parse_arguments st (map (\<lambda>c. [CHR ''-'', c]) cs @ rest) = parse_arguments st' rest"
  using assms
proof (induction cs arbitrary: st)
  case (Cons c cs)
  obtain i where i: "active (snd st) (find_option_short (snd st) c) = Some i" "o_class (op_options (snd st) ! i) = Switch_class"
    using Cons.prems by (auto simp: is_switch_def split: option.splits)
  let ?st = "add_at st i (BoolV True)"
  have "\<forall>d \<in> set cs. is_switch (snd ?st) d \<and> d \<noteq> CHR ''-''"
    using Cons.prems is_switch_bare [OF add_at_simps(1)] by (metis list.set_intros(2))
  from Cons.IH [OF this] obtain st' where st': "short_characters ?st cs rest u = Inr (st', rest, u)"
    "parse_arguments ?st (map (\<lambda>c. [CHR ''-'', c]) cs @ rest) = parse_arguments st' rest" by blast
  have "parse_argument st [CHR ''-'', c] r = Inr (?st, r)" for r
    using Cons.prems switch_bundle_start [OF i, of "[]" r False] by (simp add: parse_argument_def short_argument_def del: short_characters.simps(2))
  then show ?case
    using st' switch_bundle_start [OF i, of cs rest u] by (auto simp del: short_characters.simps(2))
qed simp

lemma popl_switch_bundle:
  assumes "cs \<noteq> []" and "\<forall>c \<in> set cs. is_switch (snd st) c \<and> c \<noteq> CHR ''-''"
  shows "parse_arguments st ((CHR ''-'' # cs) # rest) = parse_arguments st (map (\<lambda>c. [CHR ''-'', c]) cs @ rest)"
proof -
  obtain st' where st': "short_characters st cs rest False = Inr (st', rest, False)"
    "parse_arguments st (map (\<lambda>c. [CHR ''-'', c]) cs @ rest) = parse_arguments st' rest"
    using switches_apart [OF assms(2)] by blast
  have "parse_argument st (CHR ''-'' # cs) rest = Inr (st', rest)"
    using assms st'(1) by (cases cs) (auto simp: parse_argument_def short_argument_def numeral_2_eq_2 simp del: short_characters.simps(2))
  then show ?thesis using st'(2) by simp
qed

section \<open>Two hyphens\<close>

lemma parse_plain: "\<forall>a \<in> set as. take 1 a \<noteq> ''-'' \<Longrightarrow> parse_arguments st as = Inr (push_args st as)"
proof (induction as arbitrary: st)
  case (Cons a as)
  then have "parse_argument st a as = Inr (push_args st [a], as)"
    by (cases a) (auto simp: parse_argument_def take_Suc numeral_2_eq_2)
  with Cons show ?case by (simp add: push_args_def)
qed (simp add: push_args_def)

lemma push_args_options [simp]: "op_options (snd (push_args st as)) = op_options (snd st)"
  by (simp add: push_args_def)

lemma two_hyphens: "parse_arguments st (''--'' # as) = parse_arguments (push_args st as) as"
  by (rule parse_arguments_step) (simp add: parse_argument_def)

lemma parse_turn_on_letter:
  assumes "is_switch (snd st) c" and "c \<noteq> CHR ''-''"
  obtains i where "find_option_short (snd st) c = Some i" "i < length (op_options (snd st))"
    "parse_arguments st [[CHR ''-'', c]] = Inr (add_at st i (BoolV True))"
proof -
  obtain i where i: "active (snd st) (find_option_short (snd st) c) = Some i" "o_class (op_options (snd st) ! i) = Switch_class"
    using assms(1) by (auto simp: is_switch_def split: option.splits)
  have "parse_argument st [CHR ''-'', c] [] = Inr (add_at st i (BoolV True), [])"
    using assms(2) switch_bundle_start [OF i, of "[]" "[]" False]
    by (simp add: parse_argument_def short_argument_def del: short_characters.simps(2))
  moreover have "find_option_short (snd st) c = Some i" using i(1) by (auto simp: active_def split: option.splits if_splits)
  ultimately show ?thesis using that active_short(1) [OF i(1)] by simp
qed

text \<open>Two hyphens alone do not end the options: the arguments behind them are listed, and then
  parsed like all others. Those without a hyphen end up in the list twice, and a switch among
  them is turned on.
\<close>

theorem popl_two_hyphens_parse_on:
  assumes "\<forall>a \<in> set as. take 1 a \<noteq> ''-''" and "\<forall>o1 \<in> set (op_options (snd st)). o_attribute o1 \<noteq> Attribute_required"
    and "is_switch (snd st) c" and "c \<noteq> CHR ''-''"
  shows "\<exists>st' st'' i. OptionParser_parse st (prog # ''--'' # as) = Inr st' \<and> op_non_option_args (snd st') = as @ as \<and>
    OptionParser_parse st [prog, ''--'', [CHR ''-'', c]] = Inr st'' \<and> op_non_option_args (snd st'') = [[CHR ''-'', c]] \<and>
    find_option_short (snd st) c = Some i \<and> o_values (op_options (snd st'') ! i) = [BoolV True]"
proof -
  let ?start = "parse_start st"
  have b: "bare (op_options (snd ?start)) = bare (op_options (snd st))"
    and start: "op_options (snd ?start) = bare (op_options (snd st))" "op_non_option_args (snd ?start) = []"
    by (simp_all add: parse_start_def bare_def)
  have fine: "check_required (op_options (snd x)) = Inr ()" if "bare (op_options (snd x)) = bare (op_options (snd st))" for x :: "'a parser_state"
    using assms(2) bare_nth(3) [OF that] bare_length [OF that] by (simp add: check_required_ok all_set_conv_all_nth)
  have "OptionParser_parse st (prog # ''--'' # as) = Inr (push_args (push_args ?start as) as)"
    using parse_plain [OF assms(1), of "push_args ?start as"] fine [of "push_args (push_args ?start as) as"] b
    by (simp add: parse_by_start two_hyphens del: parse_arguments.simps(2))
  moreover have "op_non_option_args (snd (push_args (push_args ?start as) as)) = as @ as"
    by (simp add: push_args_def start)
  moreover
  let ?a = "[[CHR ''-'', c]]"
  let ?mid = "push_args ?start ?a"
  have m: "bare (op_options (snd ?mid)) = bare (op_options (snd st))" using b by (simp add: push_args_def)
  obtain i where i: "find_option_short (snd ?mid) c = Some i" "i < length (op_options (snd ?mid))"
    "parse_arguments ?mid ?a = Inr (add_at ?mid i (BoolV True))"
    using parse_turn_on_letter [of ?mid c] is_switch_bare [OF m] assms(3,4) by blast
  have "OptionParser_parse st [prog, ''--'', [CHR ''-'', c]] = Inr (add_at ?mid i (BoolV True))"
    using i(3) fine [of "add_at ?mid i (BoolV True)"] m
    by (simp add: parse_by_start two_hyphens del: parse_arguments.simps(2))
  moreover have "op_non_option_args (snd (add_at ?mid i (BoolV True))) = [[CHR ''-'', c]]"
    by (simp add: push_args_def start)
  moreover have "o_values (op_options (snd (add_at ?mid i (BoolV True))) ! i) = [BoolV True]"
    using i(2) by (simp add: add_at_def push_args_def start bare_def)
  ultimately show ?thesis using i(1) find_short_bare [OF m] by auto
qed

text \<open>A parser without a required option.\<close>

definition switch_parser :: "int option_parser" where
  "switch_parser = sample_parser\<lparr>op_options := take 2 (op_options sample_parser)\<rparr>"

theorem popl_two_hyphens_parse_on_witness:
  "\<exists>st' st''. OptionParser_parse (\<lambda>_. BoolV True, switch_parser) [''prog'', ''--'', ''a'', ''b''] = Inr st' \<and>
     op_non_option_args (snd st') = [''a'', ''b'', ''a'', ''b''] \<and>
     OptionParser_parse (\<lambda>_. BoolV True, switch_parser) [''prog'', ''--'', ''-v''] = Inr st'' \<and>
     o_values (op_options (snd st'') ! 0) = [BoolV True]"
proof -
  let ?st = "(\<lambda>_. BoolV True, switch_parser)"
  have f: "find_option_short switch_parser CHR ''v'' = Some 0"
    by (simp add: switch_parser_def sample_parser_def sample_option_def find_option_short_def Option_short_name_def numeral_2_eq_2)
  have "is_switch switch_parser CHR ''v''"
    by (simp add: is_switch_def f active_def)
      (simp add: switch_parser_def sample_parser_def sample_option_def Option_attribute_def numeral_2_eq_2)
  moreover have "\<forall>o1 \<in> set (op_options switch_parser). o_attribute o1 \<noteq> Attribute_required"
    by (simp add: switch_parser_def sample_parser_def sample_option_def numeral_2_eq_2)
  ultimately show ?thesis
    using popl_two_hyphens_parse_on [of "[''a'', ''b'']" ?st "CHR ''v''" "''prog''"] f by auto
qed

section \<open>An empty name\<close>

text \<open>An option without a long name answers to \<open>--=value\<close>.\<close>

lemma empty_name_found:
  assumes "i < length (op_options P)" and "o_long_name (op_options P ! i) = []"
  shows "\<exists>j \<le> i. find_option_long P [] = Some j \<and> o_long_name (op_options P ! j) = []"
proof -
  have "\<exists>j \<le> i. first_index p xs = Some j" if "i < length xs" "p (xs ! i)" for p and xs :: "'a popl_option list"
    using that
  proof (induction xs arbitrary: i)
    case (Cons x xs)
    then show ?case by (cases i) (auto, metis Suc_le_mono)
  qed simp
  from this [OF assms(1), of "\<lambda>o1. Option_long_name o1 = []"] assms(2) show ?thesis
    using first_index_Some [of "\<lambda>o1. Option_long_name o1 = []" "op_options P"]
    by (auto simp: find_option_long_def Option_long_name_def)
qed

text \<open>The script for completion is the same for all parsers.\<close>

lemma completion_ignores_options: "BashCompletion_print (Some P) prog a = BashCompletion_print (Some Q) prog b"
  by (simp add: BashCompletion_print_def)

end
