(* ===== verification/Router_Forward.thy ===== *)
theory Router_Forward
  imports Router_Model
begin

text \<open>
  A request that reaches a router: the read of holding registers of a slave whose device is a
  master of the router, from \<open>Server::task\<close> over the device to the answer.
\<close>

section \<open>The slave\<close>

lemma put_ctx_other: "slave_dev s \<noteq> Some d \<Longrightarrow> w_devices (put_ctx w s e c) d = w_devices w d"
  by (cases "slave_dev s") (auto simp: put_ctx_def)

text \<open>The image takes what the device answers, at the offset of the request.\<close>

definition answered :: "bslave \<Rightarrow> nat \<Rightarrow> u16 list \<Rightarrow> bslave" where
  "answered s off out =
     (let b = map_registers (bmap s); mem = blk_mem b
      in s\<lparr>bmap := (bmap s)\<lparr>map_registers := b\<lparr>blk_tab := Some (take off mem @ out @ drop (off + length out) mem)\<rparr>\<rparr>\<rparr>)"

lemma answered_simps [simp]:
  "slave_dev (answered s off out) = slave_dev s" "slave_id (answered s off out) = slave_id s"
  "beforeReplyCB (answered s off out) = beforeReplyCB s" "afterReplyCB (answered s off out) = afterReplyCB s"
  by (simp_all add: answered_def Let_def)

lemma answered_nothing:
  assumes "map_ok (bmap s)" and "in_block (map_registers (bmap s)) a"
  shows "answered s off [] = s"
proof -
  have "blk_tab (map_registers (bmap s)) = Some (blk_mem (map_registers (bmap s)))"
    by (rule in_block_tab [OF _ assms(2)]) (use assms(1) in \<open>simp add: map_ok_def\<close>)
  then show ?thesis by (simp add: answered_def Let_def)
qed

text \<open>A request that can be forwarded: the read of registers that the image of the slave has.\<close>

definition read_request :: "message \<Rightarrow> bslave \<Rightarrow> u16 \<Rightarrow> u16 \<Rightarrow> bool" where
  "read_request m s a q \<longleftrightarrow>
     Message_function m = Inr ReadHoldingRegisters \<and> Message_startingAddress m = Inr a \<and> Message_quantity m = Inr q \<and>
     map_ok (bmap s) \<and> in_block (map_registers (bmap s)) (uint a) \<and>
     in_block (map_registers (bmap s)) (uint a + uint q - 1)"

definition forward_offset :: "bslave \<Rightarrow> u16 \<Rightarrow> nat" where
  "forward_offset s a = nat (uint a - blk_start (map_registers (bmap s)))"

lemma forwarded_read:
  assumes "read_request m s a q" and "Slave_isOpen w s"
    and "Slave_ctx w s = Inr c" and "modbus_set_slave M c (slave_id s) = (0, e0, c0)"
    and "modbus_read_registers M c0 (if a = 0 \<or> pduAddressing s then 0 else -1) (uint q) = (out, r, e, c')"
    and "length out \<le> unat q"
  shows "BufferedSlave_readFromDevice K M (w, s) (Some m)
    = Inr (r, put_ctx (put_ctx w s e0 c0) s e c', answered s (forward_offset s a) out)"
proof -
  let ?b = "map_registers (bmap s)" let ?mem = "blk_mem ?b" and ?off = "forward_offset s a"
  have ok: "block_ok ?b" using assms(1) by (simp add: read_request_def map_ok_def)
  have bl: "blk_nb ?b = int (length ?mem)" by (rule block_ok_mem [OF ok])
  have i: "in_block ?b (uint a)" "in_block ?b (uint a + uint q - 1)" using assms(1) by (simp_all add: read_request_def)
  then have n: "min (uint q) (blk_nb ?b - (uint a - blk_start ?b)) = uint q" by (simp add: in_block_def)
  have r: "Message_function m = Inr ReadHoldingRegisters" "Message_startingAddress m = Inr a" "Message_quantity m = Inr q"
    "map_ok (bmap s)" using assms(1) by (simp_all add: read_request_def)
  obtain f where f: "BufferedSlave_readFromDevice K M (w, s) (Some m)
      = and_then (Slave_request M w s f (drop ?off ?mem)) (\<lambda>(rc, img, w').
          Inr (rc, w', s\<lparr>bmap := (bmap s)\<lparr>map_registers := ?b\<lparr>blk_tab := Some (take ?off ?mem @ img)\<rparr>\<rparr>\<rparr>))"
    "\<forall>c. f c = modbus_read_registers M c (if a = 0 \<or> pduAddressing s then 0 else -1) (uint q)"
    using device_read_address_lost [OF assms(2) r(1-3) refl r(4) i(1) refl refl, of K M]
    unfolding n forward_offset_def [symmetric] by blast
  have "length out \<le> length (drop ?off ?mem)"
  proof -
    have "0 \<le> uint a - blk_start ?b" using i(1) by (simp add: in_block_def)
    then have "int ?off = uint a - blk_start ?b" by (simp add: forward_offset_def)
    moreover have "uint a + uint q - blk_start ?b \<le> int (length ?mem)" using i(2) bl by (simp add: in_block_def)
    moreover have "int (length out) \<le> uint q" using assms(6) unfolding uint_nat by (rule of_nat_mono)
    ultimately have "int (length out) + int ?off \<le> int (length ?mem)" by linarith
    then show ?thesis by simp
  qed
  moreover have "Slave_isValid w s" using assms(2) by (simp add: Slave_isOpen_def split: if_splits)
  moreover have "f c0 = (out, r, e, c')" using f(2) assms(5) by simp
  ultimately have "Slave_request M w s f (drop ?off ?mem)
      = Inr (r, out @ drop (length out) (drop ?off ?mem), put_ctx (put_ctx w s e0 c0) s e c')"
    by (intro Slave_request_reply [OF _ assms(3,4)])
  then show ?thesis unfolding f(1) by (simp add: answered_def Let_def add.commute)
qed

section \<open>The task\<close>

text \<open>The task up to the answer: the link of the server has been told the slave, and the slave holds
  what its device has answered.\<close>

lemma serve_until_reply:
  assumes "req (snd st) = Some m" and "srv_slaves (snd st) i = Some s" and "read_request m s a q"
    and "Slave_isOpen (fst st) s" and "slave_dev s \<noteq> Some (srv_dev (snd st))"
    and "dev_backend (Server_device st) = Some l" and "modbus_set_slave M (ctx l) i = (0, e1, c1)"
    and "Slave_ctx (fst st) s = Inr c" and "modbus_set_slave M c (slave_id s) = (0, e0, c0)"
    and "modbus_read_registers M c0 (if a = 0 \<or> pduAddressing s then 0 else -1) (uint q) = (out, r, e, c')"
    and "length out \<le> unat q"
  shows "\<exists>st1 st2. server_call (Device_call (\<lambda>c. modbus_set_slave M c i)) st = Inr (0, st1) \<and> snd st1 = snd st \<and>
    on_slave i (\<lambda>b. BufferedSlave_readFromDevice K M b (Some m)) st1 = Inr (r, st2) \<and>
    snd st2 = (snd st)\<lparr>srv_slaves := (srv_slaves (snd st))(i \<mapsto> answered s (forward_offset s a) out)\<rparr> \<and>
    (\<exists>l'. dev_backend (Server_device st2) = Some l' \<and> ctx l' = c1)"
proof -
  obtain w1 l1 where 1: "server_call (Device_call (\<lambda>c. modbus_set_slave M c i)) st = Inr (0, w1, snd st)"
    and l1: "dev_backend (Server_device (w1, snd st)) = Some l1" "ctx l1 = c1"
    using server_call_reply [OF assms(6), of 0 e1 c1]
    unfolding server_call_at [OF assms(6), of "\<lambda>c. modbus_set_slave M c i"] assms(7) by blast
  have o1: "Slave_isOpen w1 s" using server_call_isOpen [OF 1, of s] assms(4) by simp
  have "w_devices w1 d = w_devices (fst st) d" if "d \<noteq> srv_dev (snd st)" for d
    using server_call_world [OF 1] that by simp
  then have "Slave_ctx w1 s = Slave_ctx (fst st) s"
    using assms(5) by (auto simp: Slave_ctx_def split: option.split)
  then have x1: "Slave_ctx w1 s = Inr c" using assms(8) by simp
  let ?w = "put_ctx (put_ctx w1 s e0 c0) s e c'"
  let ?v = "(snd st)\<lparr>srv_slaves := (srv_slaves (snd st))(i \<mapsto> answered s (forward_offset s a) out)\<rparr>"
  have "Server_device (?w, ?v) = Server_device (w1, snd st)"
    using assms(5) by (simp add: Server_device_def put_ctx_other)
  then have "\<exists>l'. dev_backend (Server_device (?w, ?v)) = Some l' \<and> ctx l' = c1" using l1 by (intro exI [of _ l1]) simp
  moreover have "on_slave i (\<lambda>b. BufferedSlave_readFromDevice K M b (Some m)) (w1, snd st) = Inr (r, ?w, ?v)"
    using forwarded_read [OF assms(3) o1 x1 assms(9-11), of K] assms(2) by (simp add: on_slave_def)
  moreover have "snd (w1, snd st) = snd st" "snd (?w, ?v) = ?v" by simp_all
  ultimately show ?thesis using 1 by blast
qed

lemma on_slave_other_call:
  assumes "on_slave i f st1 = Inr (r, st2)"
  shows "srv_dev (snd st2) = srv_dev (snd st1) \<and> req (snd st2) = req (snd st1)"
  using assms by (auto simp: on_slave_def and_then_eq_Inr split: option.splits)

section \<open>Properties\<close>

text \<open>C9. A router that gets a request to read holding registers of a slave behind one of its masters
  asks the device for the registers from address 0 on when the request is for address 0 or the
  slave has PDU addressing, and else from -1 on, which is 65535 on the line. If the device
  answers, \<open>modbus_reply\<close> works on tables that hold the answer at the address of the request, so
  that with PDU addressing the client reads the first registers of the device wherever it
  asks; if it refuses, the client gets no answer at all: its link is left as the selection of
  the slave leaves it, and nothing of the router changes.\<close>

theorem router_forwards_reads:
  assumes "0 < rc" and "req (snd st) = Some m" and "Message_slave m = Inr i"
    and "srv_slaves (snd st) (uint i) = Some s" and "read_request m s a q"
    and "Slave_isOpen (fst st) s" and "slave_dev s \<noteq> Some (srv_dev (snd st))"
    and "beforeReplyCB s = None" and "afterReplyCB s = None"
    and "dev_backend (Server_device st) = Some l" and "modbus_set_slave M (ctx l) (uint i) = (0, e1, c1)"
    and "Slave_ctx (fst st) s = Inr c" and "modbus_set_slave M c (slave_id s) = (0, e0, c0)"
    and "modbus_read_registers M c0 (if a = 0 \<or> pduAddressing s then 0 else -1) (uint q) = (out, r, e, c')"
    and "length out \<le> unat q" and "r < 0 \<longrightarrow> out = []"
    and "modbus_reply SV c1 (adu m) rc (bmap (answered s (forward_offset s a) out)) = (map', r', e', c2)"
  shows "(0 \<le> r \<longrightarrow> (\<exists>w. Server_task K L M SV cb opn rc st
      = Inr (0, w, (snd st)\<lparr>srv_slaves := (srv_slaves (snd st))(uint i \<mapsto> (answered s (forward_offset s a) out)\<lparr>bmap := map'\<rparr>)\<rparr>))) \<and>
    (r < 0 \<longrightarrow> (\<exists>w l'. Server_task K L M SV cb opn rc st = Inr (0, w, snd st) \<and>
      dev_backend (Server_device (w, snd st)) = Some l' \<and> ctx l' = c1))"
proof -
  let ?s = "answered s (forward_offset s a) out" and ?S = "srv_slaves (snd st)"
  obtain st1 st2 where 1: "server_call (Device_call (\<lambda>c. modbus_set_slave M c (uint i))) st = Inr (0, st1)" "snd st1 = snd st"
    and 2: "on_slave (uint i) (\<lambda>b. BufferedSlave_readFromDevice K M b (Some m)) st1 = Inr (r, st2)"
    "snd st2 = (snd st)\<lparr>srv_slaves := ?S(uint i \<mapsto> ?s)\<rparr>"
    and l: "\<exists>l'. dev_backend (Server_device st2) = Some l' \<and> ctx l' = c1"
    using serve_until_reply [OF assms(2,4-7,10-15), of K] by blast
  have t: "Server_task K L M SV cb opn rc st = Server_serve K M SV cb (uint i) rc st"
    using assms(1-4) by (simp add: Server_task_def Server_hasSlave_def)
  have pos: "\<exists>w. Server_serve K M SV cb (uint i) rc st = Inr (0, w, (snd st)\<lparr>srv_slaves := ?S(uint i \<mapsto> ?s\<lparr>bmap := map'\<rparr>)\<rparr>)" if "0 \<le> r"
  proof -
    obtain l' where l': "dev_backend (Server_device st2) = Some l'" "ctx l' = c1" using l by blast
    obtain w3 where 3: "server_call (Device_call (\<lambda>_. (r', e', c2))) st2 = Inr (r', w3, snd st2)"
      using server_call_reply [OF l'(1), of r' e' c2] by auto
    let ?v = "(snd st)\<lparr>srv_slaves := ?S(uint i \<mapsto> ?s\<lparr>bmap := map'\<rparr>)\<rparr>"
    have 4: "Server_reply SV (uint i) rc st2 = Inr (r', w3, ?v)"
      using assms(2,17) l' 3 by (simp add: Server_reply_def 2(2))
    have "\<exists>b. BufferedSlave_writeToDevice M (w3, ?s\<lparr>bmap := map'\<rparr>) (Some m) = Inr (b, w3, ?s\<lparr>bmap := map'\<rparr>)"
      using assms(5) by (simp add: BufferedSlave_writeToDevice_def writeToDevice_switch_def read_request_def)
    then obtain b where "BufferedSlave_writeToDevice M (w3, ?s\<lparr>bmap := map'\<rparr>) (Some m) = Inr (b, w3, ?s\<lparr>bmap := map'\<rparr>)" ..
    then have "on_slave (uint i) (\<lambda>x. BufferedSlave_writeToDevice M x (Some m)) (w3, ?v) = Inr (b, w3, ?v)"
      by (intro on_slave_same) simp_all
    then have 5: "Server_after_reply M cb (uint i) (w3, ?v) = Inr (0, w3, ?v)"
      using assms(2,9) by (simp add: Server_after_reply_def run_callback_def)
    show ?thesis
      using that assms(2,8) 1 2 4 5 by (simp add: Server_serve_def run_callback_def)
  qed
  have neg: "Server_serve K M SV cb (uint i) rc st = Inr (0, fst st2, snd st) \<and> st2 = (fst st2, snd st)" if "r < 0"
  proof -
    have "?s = s" using that assms(5,16) by (auto simp: read_request_def intro: answered_nothing)
    then have "snd st2 = snd st" using 2(2) assms(4) by (simp add: fun_upd_idem)
    then show ?thesis
      using that 1 2(1) assms(2) by (cases st2) (simp add: Server_serve_def)
  qed
  show ?thesis unfolding t using pos neg l by metis
qed

text \<open>A sensor with the four registers 10 to 13, behind slave 3 of a router.\<close>

definition sensor_client :: "nat modbus_client" where
  "sensor_client = sample_client\<lparr>modbus_read_registers := (\<lambda>c a n.
     if 0 \<le> a \<and> a + n \<le> 4 then (take (nat n) (drop (nat a) [10, 11, 12, 13]), n, None, c)
     else ([], -1, Some EINVAL, c))\<rparr>"

definition sensor_slave :: bslave where
  "sensor_slave = sample_slave (Some 1)"

definition sensor_router :: "u8 \<Rightarrow> nat rstate" where
  "sensor_router a = (sample_world, server.extend ((Server_Private 0)\<lparr>req := Some (sample_request\<lparr>adu := [3, 3, 0, a, 0, 2, 0, 0]\<rparr>),
     srv_slaves := [3 \<mapsto> sensor_slave]\<rparr>) \<lparr>r_master = []\<rparr>)"

text \<open>The registers from the second on are refused; the first two are answered.\<close>

theorem router_forwards_reads_witness:
  "(\<exists>w l'. Server_task libmodbus_values sample_link sensor_client sample_server_api (\<lambda>_ st. Inr (0, st)) (\<lambda>st. Inr (True, st)) 8
      (sensor_router 1) = Inr (0, w, snd (sensor_router 1)) \<and>
      dev_backend (Server_device (w, snd (sensor_router 1))) = Some l' \<and> ctx l' = 0) \<and>
   (\<exists>w. Server_task libmodbus_values sample_link sensor_client sample_server_api (\<lambda>_ st. Inr (0, st)) (\<lambda>st. Inr (True, st)) 8
      (sensor_router 0) = Inr (0, w, (snd (sensor_router 0))\<lparr>srv_slaves := [3 \<mapsto> sensor_slave\<lparr>bmap := sample_map\<lparr>map_registers :=
        \<lparr>blk_start = 0, blk_nb = 4, blk_tab = Some [10, 11, 3, 4]\<rparr>\<rparr>\<rparr>]\<rparr>))"
proof -
  let ?m = "\<lambda>a. sample_request\<lparr>adu := [3, 3, 0, a, 0, 2, 0, 0]\<rparr>"
  have m: "Message_slave (?m a) = Inr 3" "Message_function (?m a) = Inr ReadHoldingRegisters"
    "Message_startingAddress (?m a) = Inr (ucast a)" "Message_quantity (?m a) = Inr 2" for a
    by (simp_all add: sample_request_def Message_slave_def Message_function_def Message_byte_def Message_startingAddress_def
        Message_quantity_def Message_word_def vget_def function_of_byte_def word_be_def)
  have r: "read_request (?m a) sensor_slave (ucast a) 2" if "a \<in> {0, 1}" for a
    using that by (auto simp: read_request_def m sensor_slave_def sample_map_ok) (simp_all add: sample_map_def in_block_def)
  have st: "req (snd (sensor_router a)) = Some (?m a)" "srv_slaves (snd (sensor_router a)) = [3 \<mapsto> sensor_slave]"
    "fst (sensor_router a) = sample_world" "srv_dev (snd (sensor_router a)) = 0"
    "dev_backend (Server_device (sensor_router a)) = dev_backend (sample_device 0)" for a
    by (simp_all add: sensor_router_def server.extend_def Server_Private_def Server_device_def sample_world_def)
  have s: "Slave_isOpen sample_world sensor_slave" "slave_dev sensor_slave = Some 1" "slave_id sensor_slave = 3"
    "beforeReplyCB sensor_slave = None" "afterReplyCB sensor_slave = None" "\<not> pduAddressing sensor_slave"
    "Slave_ctx sample_world sensor_slave = Inr 0"
    by (simp_all add: sensor_slave_def sample_slave_def BufferedSlave_Private_at_def BufferedSlave_Private_def Slave_Private_def
        slave.extend_def Slave_isOpen_def Slave_isValid_def Slave_device_def Slave_number_def sample_world_def sample_device_def
        Device_isValid_def Device_isOpen_def Slave_ctx_def Device_backend_def)
  have c: "modbus_set_slave sensor_client 0 3 = (0, None, 0)"
    "modbus_read_registers sensor_client 0 (-1) 2 = ([], -1, Some EINVAL, 0)"
    "modbus_read_registers sensor_client 0 0 2 = ([10, 11], 2, None, 0)"
    by (simp_all add: sensor_client_def sample_client_def numeral_2_eq_2)
  have a: "bmap (answered sensor_slave (forward_offset sensor_slave 0) [10, 11]) = sample_map\<lparr>map_registers :=
      \<lparr>blk_start = 0, blk_nb = 4, blk_tab = Some [10, 11, 3, 4]\<rparr>\<rparr>"
    by (simp add: answered_def sensor_slave_def sample_map_def Let_def blk_mem_def forward_offset_def)
  obtain l where l: "dev_backend (sample_device 0) = Some l" "ctx l = 0" by (simp add: sample_device_def)
  have reply: "modbus_reply sample_server_api 0 b n mp = (mp, -1, Some EPIPE, 0)" for b n mp
    by (simp add: sample_server_api_def)
  have 1: "\<exists>w l'. Server_task libmodbus_values sample_link sensor_client sample_server_api (\<lambda>_ st. Inr (0, st)) (\<lambda>st. Inr (True, st)) 8
      (sensor_router 1) = Inr (0, w, snd (sensor_router 1)) \<and>
      dev_backend (Server_device (w, snd (sensor_router 1))) = Some l' \<and> ctx l' = 0"
    using router_forwards_reads [where st = "sensor_router 1" and m = "?m 1" and i = 3 and s = sensor_slave and a = 1 and q = 2 and
        rc = 8 and l = l and M = sensor_client and ?c1.0 = 0 and c = 0 and ?c0.0 = 0 and out = "[]" and r = "-1" and c' = 0 and
        SV = sample_server_api and ?e1.0 = None and ?e0.0 = None and e = "Some EINVAL"]
      st s c m(1) r [of 1] l reply by simp
  have 2: "\<exists>w. Server_task libmodbus_values sample_link sensor_client sample_server_api (\<lambda>_ st. Inr (0, st)) (\<lambda>st. Inr (True, st)) 8
      (sensor_router 0) = Inr (0, w, (snd (sensor_router 0))\<lparr>srv_slaves := [3 \<mapsto> (answered sensor_slave (forward_offset sensor_slave 0) [10, 11])
        \<lparr>bmap := bmap (answered sensor_slave (forward_offset sensor_slave 0) [10, 11])\<rparr>]\<rparr>)"
    using router_forwards_reads [where st = "sensor_router 0" and m = "?m 0" and i = 3 and s = sensor_slave and a = 0 and q = 2 and
        rc = 8 and l = l and M = sensor_client and ?c1.0 = 0 and c = 0 and ?c0.0 = 0 and out = "[10, 11]" and r = 2 and c' = 0 and
        SV = sample_server_api and ?e1.0 = None and ?e0.0 = None and e = None and
        map' = "bmap (answered sensor_slave (forward_offset sensor_slave 0) [10, 11])"]
      st s c m(1) r [of 0] l reply by simp
  have "(answered sensor_slave (forward_offset sensor_slave 0) [10, 11])\<lparr>bmap := mp\<rparr> = sensor_slave\<lparr>bmap := mp\<rparr>" for mp
    by (simp add: answered_def Let_def)
  then show ?thesis using 1 2 unfolding a by simp
qed

end
