(* ===== verification/Master_Programs.thy ===== *)
theory Master_Programs
  imports Object_Access
begin

text \<open>
  The programs of \<open>examples/master\<close> that read and write the calibration of a pressure sensor, four
  values of type \<open>float\<close> in the holding registers 1 to 8 of slave 33: \<open>write-holding-data\<close>,
  \<open>read-holding-data\<close> and \<open>rw-holding-json\<close>, which saves them, writes others, and restores them.
  A run gives the exit status and what is printed; \<open>exit\<close> does not close the link.
\<close>

section \<open>Values\<close>

text \<open>The numbers 152.3, 1010.7, 45 and 901 as objects of type \<open>float\<close>.\<close>

definition float_default :: data where
  "float_default = Data_default 4 EndianBigLittle"

definition calibration :: "data list" where
  "calibration = map (Data_assign float_default)
     [[0xCD, 0x4C, 0x18, 0x43], [0xCD, 0xAC, 0x7C, 0x44], [0x00, 0x00, 0x34, 0x42], [0x00, 0x40, 0x61, 0x44]]"

text \<open>The operator \<open>==\<close> of \<open>float\<close>: not a number differs from everything, the two zeros are equal.\<close>

definition float_bits :: "u8 list \<Rightarrow> nat" where
  "float_bits bs = foldr (\<lambda>b x. unat b + 256 * x) bs 0"

definition float_nan :: "nat \<Rightarrow> bool" where
  "float_nan n \<longleftrightarrow> n div 2 ^ 23 mod 256 = 255 \<and> n mod 2 ^ 23 \<noteq> 0"

definition float_eq :: "u8 list \<Rightarrow> u8 list \<Rightarrow> bool" where
  "float_eq bs cs =
     (let m = float_bits bs; n = float_bits cs
      in \<not> float_nan m \<and> \<not> float_nan n \<and> (m = n \<or> m mod 2 ^ 31 = 0 \<and> n mod 2 ^ 31 = 0))"

section \<open>The programs with an open link\<close>

datatype printed =
    Values "u8 list list" | Registers_written int | Correctly_written | Not_correctly_written "u8 list list"
  | Registers_restored int | Coils "u8 list" | Registers "u16 list" | Report_id nat "u8 list" bool "u8 list" | Unable_to_read | Unable_to_write | Unable_to_open

text \<open>\<open>rd\<close> and \<open>wr\<close> are the virtual functions of the slave.\<close>

definition read_holding :: "'s reader \<Rightarrow> 's \<Rightarrow> (int \<times> printed list \<times> 's) res" where
  "read_holding rd st =
     and_then (Slave_readData 2 rd st 1 (replicate 4 float_default) 4) (\<lambda>(ret, registers, st1).
     if ret > 0 then Inr (0, [Values (map m_value registers)], st1) else Inr (1, [Unable_to_read], st1))"

definition write_holding :: "'s writer \<Rightarrow> 's \<Rightarrow> (int \<times> printed list \<times> 's) res" where
  "write_holding wr st =
     and_then (Slave_writeData wr st 1 calibration 4) (\<lambda>(ret, _, st1).
     if ret < 0 then Inr (1, [Unable_to_write], st1) else Inr (0, [Registers_written ret], st1))"

text \<open>\<open>read-coils\<close>, \<open>read-input-registers\<close> and \<open>report-slave-id\<close>. The arrays of the first two are not
  initialised: what they hold at first is an argument.\<close>

definition read_coils :: "('s \<Rightarrow> int \<Rightarrow> u8 list \<Rightarrow> int \<Rightarrow> (int \<times> u8 list \<times> 's) res) \<Rightarrow> u8 list \<Rightarrow> 's \<Rightarrow> (int \<times> printed list \<times> 's) res" where
  "read_coils rd coil st =
     and_then (rd st 1 coil 5) (\<lambda>(ncoils, coil, st1).
     if ncoils > 0 then and_then (vread coil 0 ncoils) (\<lambda>bs. Inr (0, [Coils bs], st1))
     else Inr (1, [Unable_to_read], st1))"

definition read_inputs :: "'s reader \<Rightarrow> u16 list \<Rightarrow> 's \<Rightarrow> (int \<times> printed list \<times> 's) res" where
  "read_inputs rd values st =
     and_then (rd st 1 values 2) (\<lambda>(ret, values, st1).
     if ret = 2 then Inr (0, [Registers values], st1) else Inr (1, [Unable_to_read], st1))"

definition report_id ::
    "mb_consts \<Rightarrow> ('s \<Rightarrow> u16 \<Rightarrow> u8 list \<Rightarrow> (int \<times> u8 list \<times> 's) res) \<Rightarrow> report \<Rightarrow> 's \<Rightarrow> (int \<times> printed list \<times> 's) res" where
  "report_id K rid r st =
     and_then (Slave_report K rid st r) (\<lambda>(ret, i, st1).
     if ret > 0
     then and_then (SlaveReport_id 1 i) (\<lambda>id.
          and_then (SlaveReport_status 1 i) (\<lambda>status.
          and_then (SlaveReport_data 1 i) (\<lambda>d.
          Inr (0, [Report_id (unat (SlaveReport_size i)) id status d], st1))))
     else Inr (1, [Unable_to_read], st1))"

definition rw_holding :: "'s reader \<Rightarrow> 's writer \<Rightarrow> 's \<Rightarrow> (int \<times> printed list \<times> 's) res" where
  "rw_holding rd wr st =
     and_then (Slave_readData 2 rd st 1 (replicate 4 float_default) 4) (\<lambda>(ret, backup, st1).
     if ret \<le> 0 then Inr (1, [Unable_to_read], st1)
     else let out1 = [Values (map m_value backup)]
     in and_then (Slave_writeData wr st1 1 calibration 4) (\<lambda>(ret, bank1, st2).
     if ret < 0 then Inr (1, out1 @ [Unable_to_write], st2)
     else let out2 = out1 @ [Registers_written ret]
     in and_then (Slave_readData 2 rd st2 1 (replicate 4 float_default) 4) (\<lambda>(ret, bank2, st3).
     if ret \<le> 0 then Inr (1, out2 @ [Unable_to_read], st3)
     else let ok = list_all2 (\<lambda>a b. float_eq (m_value a) (m_value b)) bank1 bank2;
              out3 = out2 @ [if ok then Correctly_written else Not_correctly_written (map m_value bank2)]
     in and_then (Slave_writeData wr st3 1 backup 4) (\<lambda>(ret, _, st4).
     if ret < 0 then Inr (1, out3 @ [Unable_to_write], st4)
     else Inr (0, out3 @ [Registers_restored ret], st4)))))"

text \<open>\<open>main\<close> once it has the reference \<open>slv\<close> to the slave: a program that has not exited closes the
  link.\<close>

definition master_main ::
    "'c modbus_link \<Rightarrow> (slave \<Rightarrow> 'c world \<Rightarrow> (int \<times> printed list \<times> 'c world) res) \<Rightarrow> slave \<Rightarrow> 'c mstate \<Rightarrow>
     (int \<times> printed list \<times> 'c mstate) res" where
  "master_main L body slv st =
     and_then (Master_open L st) (\<lambda>(ok, st1).
     if \<not> ok then Inr (1, [Unable_to_open], st1)
     else and_then (body slv (fst st1)) (\<lambda>(status, out, w).
          if status = 0 then and_then (Master_close L (w, snd st1)) (\<lambda>st2. Inr (0, out, st2))
          else Inr (status, out, w, snd st1)))"

text \<open>The state of \<open>rw-holding-json\<close> is that of its master, which a file has configured.\<close>

definition rw_holding_main ::
    "mb_consts \<Rightarrow> 'c modbus_link \<Rightarrow> 'c modbus_client \<Rightarrow> 'c mstate \<Rightarrow> (int \<times> printed list \<times> 'c mstate) res" where
  "rw_holding_main K L M st =
     and_then (Master_slave K st 33) (\<lambda>slv.
     master_main L (\<lambda>slv. rw_holding (\<lambda>w. Slave_readRegisters M w slv) (\<lambda>w. Slave_writeRegisters M w slv)) slv st)"

text \<open>The others make a master on the serial port of the first argument, and add the slave.\<close>

definition serial_port :: "string list \<Rightarrow> string" where
  "serial_port argv = (if 1 < length argv then argv ! 1 else ''/dev/ttyUSB0'')"

definition serial_master ::
    "mb_consts \<Rightarrow> 'c modbus_link \<Rightarrow> 'c rtu_api \<Rightarrow> 'c modbus_client \<Rightarrow> nat \<Rightarrow> 'c world \<Rightarrow> string \<Rightarrow> int \<Rightarrow> string list \<Rightarrow>
     (slave \<times> 'c mstate) res" where
  "serial_master K L R M i w line number argv =
     and_then (Master_new_net K L R M i w Rtu (serial_port argv) line) (\<lambda>st.
     and_then (Master_addSlave M st number) (\<lambda>st1.
     and_then (map_at (m_slaves (snd st1)) number) (\<lambda>slv. Inr (slv, st1))))"

definition write_holding_main ::
    "mb_consts \<Rightarrow> 'c modbus_link \<Rightarrow> 'c rtu_api \<Rightarrow> 'c modbus_client \<Rightarrow> nat \<Rightarrow> 'c world \<Rightarrow> string list \<Rightarrow>
     (int \<times> printed list \<times> 'c mstate) res" where
  "write_holding_main K L R M i w argv =
     and_then (serial_master K L R M i w ''38400E1'' 33 argv) (\<lambda>(slv, st).
     master_main L (\<lambda>slv. write_holding (\<lambda>w. Slave_writeRegisters M w slv)) slv st)"

definition read_holding_main ::
    "mb_consts \<Rightarrow> 'c modbus_link \<Rightarrow> 'c rtu_api \<Rightarrow> 'c modbus_client \<Rightarrow> nat \<Rightarrow> 'c world \<Rightarrow> string list \<Rightarrow>
     (int \<times> printed list \<times> 'c mstate) res" where
  "read_holding_main K L R M i w argv =
     and_then (serial_master K L R M i w ''38400E1'' 33 argv) (\<lambda>(slv, st).
     master_main L (\<lambda>slv. read_holding (\<lambda>w. Slave_readRegisters M w slv)) slv st)"

definition read_coils_main ::
    "mb_consts \<Rightarrow> 'c modbus_link \<Rightarrow> 'c rtu_api \<Rightarrow> 'c modbus_client \<Rightarrow> nat \<Rightarrow> 'c world \<Rightarrow> string list \<Rightarrow> u8 list \<Rightarrow>
     (int \<times> printed list \<times> 'c mstate) res" where
  "read_coils_main K L R M i w argv coil =
     and_then (serial_master K L R M i w ''19200E1'' 8 argv) (\<lambda>(slv, st).
     master_main L (\<lambda>slv. read_coils (\<lambda>w. Slave_readCoils M w slv) coil) slv st)"

definition read_inputs_main ::
    "mb_consts \<Rightarrow> 'c modbus_link \<Rightarrow> 'c rtu_api \<Rightarrow> 'c modbus_client \<Rightarrow> nat \<Rightarrow> 'c world \<Rightarrow> string list \<Rightarrow> u16 list \<Rightarrow>
     (int \<times> printed list \<times> 'c mstate) res" where
  "read_inputs_main K L R M i w argv values =
     and_then (serial_master K L R M i w ''38400E1'' 33 argv) (\<lambda>(slv, st).
     master_main L (\<lambda>slv. read_inputs (\<lambda>w. Slave_readInputRegisters M w slv) values) slv st)"

definition report_id_main ::
    "mb_consts \<Rightarrow> 'c modbus_link \<Rightarrow> 'c rtu_api \<Rightarrow> 'c modbus_client \<Rightarrow> nat \<Rightarrow> 'c world \<Rightarrow> string list \<Rightarrow> u8 list \<Rightarrow>
     (int \<times> printed list \<times> 'c mstate) res" where
  "report_id_main K L R M i w argv memory =
     and_then (serial_master K L R M i w ''38400E1'' 33 argv) (\<lambda>(slv, st).
     master_main L (\<lambda>slv. report_id K (\<lambda>w. Slave_reportSlaveId M w slv) (SlaveReport_default EndianBigBig memory)) slv st)"

section \<open>A device with registers\<close>

text \<open>What the programs rely on: libmodbus on a working link to a device that stores its registers,
  which \<open>stored\<close> tells of a context.\<close>

definition memory_link :: "'c modbus_client \<Rightarrow> ('c \<Rightarrow> int \<Rightarrow> u16) \<Rightarrow> int \<Rightarrow> bool" where
  "memory_link M stored i \<longleftrightarrow>
     (\<forall>c. \<exists>e c'. modbus_set_slave M c i = (0, e, c') \<and> stored c' = stored c) \<and>
     (\<forall>c a n. 0 \<le> a \<and> 0 < n \<and> n \<le> 123 \<longrightarrow> (\<exists>e c'. modbus_read_registers M c a (int n)
        = (map (\<lambda>k. stored c (a + int k)) [0..<n], int n, e, c') \<and> stored c' = stored c)) \<and>
     (\<forall>c a vs. 0 \<le> a \<and> 0 < length vs \<and> length vs \<le> 123 \<longrightarrow> (\<exists>e c'. modbus_write_registers M c a (int (length vs)) vs
        = (int (length vs), e, c') \<and>
          stored c' = (\<lambda>x. if a \<le> x \<and> x < a + int (length vs) then vs ! nat (x - a) else stored c x)))"

text \<open>The registers behind a slave.\<close>

definition device_regs :: "('c \<Rightarrow> int \<Rightarrow> u16) \<Rightarrow> 'a slave_scheme \<Rightarrow> 'c world \<Rightarrow> int \<Rightarrow> u16" where
  "device_regs stored s w = (case Slave_ctx w s of Inr c \<Rightarrow> stored c | Inl _ \<Rightarrow> (\<lambda>_. 0))"

lemma put_ctx_ctx: "Slave_isValid w s \<Longrightarrow> Slave_ctx (put_ctx w s e c) s = Inr c \<and> Slave_isValid (put_ctx w s e c) s"
  by (auto simp: Slave_isValid_def Slave_device_def Slave_ctx_def put_ctx_def Device_isValid_def Device_backend_def
      Slave_number_def split: option.splits)

lemma slave_read_memory:
  assumes "memory_link M stored (slave_id s)" and "Slave_isValid w s" and "0 \<le> Slave_pduAddress s addr"
    and "0 < n" and "n \<le> 123" and "length dest = n"
  shows "\<exists>w'. Slave_readRegisters M w s addr dest (int n)
      = Inr (int n, map (\<lambda>k. device_regs stored s w (Slave_pduAddress s addr + int k)) [0..<n], w') \<and>
    Slave_isValid w' s \<and> device_regs stored s w' = device_regs stored s w"
proof -
  let ?a = "Slave_pduAddress s addr"
  obtain c where c: "Slave_ctx w s = Inr c" using Slave_ctx_valid [OF assms(2)] by blast
  obtain e1 c1 where 1: "modbus_set_slave M c (slave_id s) = (0, e1, c1)" "stored c1 = stored c"
    using assms(1) unfolding memory_link_def by blast
  obtain e2 c2 where 2: "modbus_read_registers M c1 ?a (int n) = (map (\<lambda>k. stored c1 (?a + int k)) [0..<n], int n, e2, c2)"
    "stored c2 = stored c1"
    using assms(1,3-5) unfolding memory_link_def by blast
  have "Slave_readRegisters M w s addr dest (int n)
      = Inr (int n, map (\<lambda>k. stored c1 (?a + int k)) [0..<n] @ drop n dest, put_ctx (put_ctx w s e1 c1) s e2 c2)"
    unfolding Slave_readRegisters_def
    using Slave_request_reply [OF assms(2) c 1(1), of "\<lambda>c. modbus_read_registers M c ?a (int n)", OF 2(1), of dest] assms(6) by simp
  moreover have "Slave_isValid (put_ctx w s e1 c1) s" using put_ctx_ctx [OF assms(2)] by blast
  ultimately show ?thesis
    using put_ctx_ctx [of "put_ctx w s e1 c1" s e2 c2] assms(6) 1(2) 2(2)
    by (auto simp: device_regs_def c)
qed

lemma slave_write_memory:
  assumes "memory_link M stored (slave_id s)" and "Slave_isValid w s" and "0 \<le> Slave_pduAddress s addr"
    and "0 < length vs" and "length vs \<le> 123" and "n = int (length vs)" and "a = Slave_pduAddress s addr"
  shows "\<exists>w'. Slave_writeRegisters M w s addr vs n = Inr (n, w') \<and> Slave_isValid w' s \<and>
    device_regs stored s w' = (\<lambda>x. if a \<le> x \<and> x < a + n then vs ! nat (x - a) else device_regs stored s w x)"
proof -
  obtain c where c: "Slave_ctx w s = Inr c" using Slave_ctx_valid [OF assms(2)] by blast
  obtain e1 c1 where 1: "modbus_set_slave M c (slave_id s) = (0, e1, c1)" "stored c1 = stored c"
    using assms(1) unfolding memory_link_def by blast
  obtain e2 c2 where 2: "modbus_write_registers M c1 a n vs = (n, e2, c2)"
    "stored c2 = (\<lambda>x. if a \<le> x \<and> x < a + n then vs ! nat (x - a) else stored c1 x)"
    using assms(1,3-7) unfolding memory_link_def by blast
  have "Slave_writeRegisters M w s addr vs n = Inr (n, put_ctx (put_ctx w s e1 c1) s e2 c2)"
    using Slave_request_reply [OF assms(2) c 1(1), of "\<lambda>c. ([] :: u8 list, modbus_write_registers M c a n vs)" "[]" n e2 c2 "[]"] 2(1)
    by (simp add: Slave_writeRegisters_def Slave_command_def assms(7))
  moreover have "Slave_isValid (put_ctx w s e1 c1) s" using put_ctx_ctx [OF assms(2)] by blast
  ultimately show ?thesis
    using put_ctx_ctx [of "put_ctx w s e1 c1" s e2 c2] 1(2) 2(2)
    by (auto simp: device_regs_def c)
qed

section \<open>What goes through the slave\<close>

lemma pack_unpack_data:
  "list_all (data_wf k) dest \<Longrightarrow> length buf = length dest * k \<Longrightarrow> pack_data (unpack_data (length dest) dest buf) = buf"
proof (induction dest arbitrary: buf)
  case (Cons d dest)
  let ?d = "Data_updateValue (d\<lparr>m_registers := take k buf\<rparr>)"
  have d: "length (m_registers d) = k" using Cons.prems(1) by (simp add: data_wf_def)
  have "m_registers (Data_updateRegisters ?d) = take k buf"
    by (simp add: updateRegisters_words updateValue_words)
  moreover have "pack_data (unpack_data (length dest) dest (drop k buf)) = drop k buf"
    using Cons.IH [of "drop k buf"] Cons.prems by simp
  ultimately show ?case using d by (simp add: pack_data_def Let_def)
qed (simp add: pack_data_def)

lemma unpack_data_wf:
  "list_all (data_wf k) dest \<Longrightarrow> length buf = length dest * k \<Longrightarrow> list_all (data_wf k) (unpack_data (length dest) dest buf)"
proof (induction dest arbitrary: buf)
  case (Cons d dest)
  have "length (m_registers d) = k" using Cons.prems(1) by (simp add: data_wf_def)
  moreover have "data_wf k (Data_updateValue (d\<lparr>m_registers := take k buf\<rparr>))"
    using Cons.prems by (simp add: data_wf_def updateValue_words)
  ultimately show ?case using Cons.IH [of "drop k buf"] Cons.prems by (simp add: Let_def)
qed simp

lemma float_wf:
  "data_wf 2 float_default" "m_endian float_default = EndianBigLittle"
  "length bs = 4 \<Longrightarrow> data_wf 2 (Data_assign float_default bs)" "m_endian (Data_assign float_default bs) = EndianBigLittle"
  "m_value (Data_assign float_default bs) = bs"
  by (simp_all add: float_default_def data_wf_def Data_default_def Data_assign_def updateRegisters_words)

lemma banks_wf: "list_all (data_wf 2) (replicate 4 float_default)" "list_all (data_wf 2) calibration" "length calibration = 4"
  "map m_endian (replicate 4 float_default) = map m_endian calibration"
proof -
  show "list_all (data_wf 2) (replicate 4 float_default)" by (simp add: list_all_iff float_wf)
  show "list_all (data_wf 2) calibration" "length calibration = 4" by (simp_all add: calibration_def float_wf)
  have "replicate 4 x = [x, x, x, x]" for x :: Endian by (simp add: eval_nat_numeral)
  then show "map m_endian (replicate 4 float_default) = map m_endian calibration"
    by (simp add: calibration_def float_wf)
qed

text \<open>The registers of the programs, and the two calls that they make.\<close>

definition bank_regs :: "(int \<Rightarrow> u16) \<Rightarrow> int \<Rightarrow> u16 list" where
  "bank_regs f a = map (\<lambda>k. f (a + int k)) [0..<8]"

lemma bank_read:
  assumes "memory_link M stored (slave_id s)" and "Slave_isValid w s" and "Slave_pduAddress s 1 = a" and "0 \<le> a"
  shows "\<exists>w'. Slave_readData 2 (\<lambda>w. Slave_readRegisters M w s) w 1 (replicate 4 float_default) 4
      = Inr (8, unpack_data 4 (replicate 4 float_default) (bank_regs (device_regs stored s w) a), w') \<and>
    Slave_isValid w' s \<and> device_regs stored s w' = device_regs stored s w"
proof -
  have "0 \<le> Slave_pduAddress s 1" using assms(3,4) by simp
  from slave_read_memory [OF assms(1,2) this, of 8 "replicate 8 0"]
  obtain w' where w': "Slave_readRegisters M w s 1 (replicate 8 0) 8 = Inr (8, bank_regs (device_regs stored s w) a, w')"
    "Slave_isValid w' s" "device_regs stored s w' = device_regs stored s w"
    unfolding assms(3) bank_regs_def by auto
  show ?thesis
    by (rule exI [of _ w']) (simp add: Slave_readData_def w')
qed

lemma bank_write:
  assumes "memory_link M stored (slave_id s)" and "Slave_isValid w s" and "Slave_pduAddress s 1 = a" and "0 \<le> a"
    and "list_all (data_wf 2) ds" and "length ds = 4"
  shows "\<exists>w'. Slave_writeData (\<lambda>w. Slave_writeRegisters M w s) w 1 ds 4 = Inr (8, map Data_updateRegisters ds, w') \<and>
    Slave_isValid w' s \<and>
    device_regs stored s w' = (\<lambda>x. if a \<le> x \<and> x < a + 8 then pack_data ds ! nat (x - a) else device_regs stored s w x)"
proof -
  have len: "length (pack_data ds) = 8" using pack_data_length [OF assms(5)] assms(6) by simp
  have "\<exists>w'. Slave_writeRegisters M w s 1 (pack_data ds) 8 = Inr (8, w') \<and> Slave_isValid w' s \<and>
    device_regs stored s w' = (\<lambda>x. if a \<le> x \<and> x < a + 8 then pack_data ds ! nat (x - a) else device_regs stored s w x)"
    by (rule slave_write_memory [OF assms(1,2)]) (simp_all add: len assms(3,4))
  then obtain w' where w': "Slave_writeRegisters M w s 1 (pack_data ds) 8 = Inr (8, w')" "Slave_isValid w' s"
    "device_regs stored s w' = (\<lambda>x. if a \<le> x \<and> x < a + 8 then pack_data ds ! nat (x - a) else device_regs stored s w x)"
    by blast
  have "Slave_writeData (\<lambda>w. Slave_writeRegisters M w s) w 1 ds 4 = Inr (8, map Data_updateRegisters ds, w')"
    using len assms(6) by (simp add: Slave_writeData_def w'(1))
  then show ?thesis using w'(2,3) by blast
qed

lemma bank_regs_written:
  assumes "length vs = 8"
  shows "bank_regs (\<lambda>x. if a \<le> x \<and> x < a + 8 then vs ! nat (x - a) else f x) a = vs"
  using assms by (intro nth_equalityI) (simp_all add: bank_regs_def)

lemma bank_regs_back:
  "(\<lambda>x. if a \<le> x \<and> x < a + 8 then bank_regs f a ! nat (x - a)
    else if a \<le> x \<and> x < a + 8 then vs ! nat (x - a) else f x) = f"
  by (rule ext) (auto simp: bank_regs_def nat_less_iff)

lemma calibration_equal:
  assumes "map m_value ds = map m_value calibration"
  shows "list_all2 (\<lambda>a b. float_eq (m_value a) (m_value b)) (map Data_updateRegisters calibration) ds"
proof -
  have "list_all (\<lambda>v. float_eq v v) (map m_value calibration)"
    by (simp add: calibration_def float_wf float_eq_def float_bits_def float_nan_def)
  then have "list_all2 float_eq (map m_value calibration) (map m_value calibration)"
    by (simp add: list_all2_same list_all_iff)
  then have "list_all2 float_eq (map m_value calibration) (map m_value ds)" using assms by simp
  then show ?thesis by (simp add: list_all2_map1 list_all2_map2)
qed

lemma rw_holding_run:
  assumes "memory_link M stored (slave_id s)" and "Slave_isValid w s" and "0 \<le> Slave_pduAddress s 1"
  shows "\<exists>w'. rw_holding (\<lambda>w. Slave_readRegisters M w s) (\<lambda>w. Slave_writeRegisters M w s) w
      = Inr (0, [Values (map m_value (unpack_data 4 (replicate 4 float_default)
          (bank_regs (device_regs stored s w) (Slave_pduAddress s 1)))), Registers_written 8, Correctly_written, Registers_restored 8], w') \<and>
    Slave_isValid w' s \<and> device_regs stored s w' = device_regs stored s w"
proof -
  let ?rd = "\<lambda>w. Slave_readRegisters M w s" and ?wr = "\<lambda>w. Slave_writeRegisters M w s" and ?a = "Slave_pduAddress s 1"
  let ?b = "bank_regs (device_regs stored s w) ?a"
  let ?backup = "unpack_data 4 (replicate 4 float_default) ?b"
  have b: "length ?b = 8" by (simp add: bank_regs_def)
  have bk: "list_all (data_wf 2) ?backup" "pack_data ?backup = ?b" "length ?backup = 4"
    using unpack_data_wf [OF banks_wf(1), of ?b] pack_unpack_data [OF banks_wf(1), of ?b] b
    by (simp_all add: eval_nat_numeral Let_def)
  obtain w1 where 1: "Slave_readData 2 ?rd w 1 (replicate 4 float_default) 4 = Inr (8, ?backup, w1)"
    "Slave_isValid w1 s" "device_regs stored s w1 = device_regs stored s w"
    using bank_read [OF assms(1,2) refl assms(3)] by blast
  obtain w2 where 2: "Slave_writeData ?wr w1 1 calibration 4 = Inr (8, map Data_updateRegisters calibration, w2)"
    "Slave_isValid w2 s" "device_regs stored s w2
      = (\<lambda>x. if ?a \<le> x \<and> x < ?a + 8 then pack_data calibration ! nat (x - ?a) else device_regs stored s w x)"
    using bank_write [OF assms(1) 1(2) refl assms(3) banks_wf(2,3)] unfolding 1(3) by blast
  have p: "length (pack_data calibration) = 8" using pack_data_length [OF banks_wf(2)] banks_wf(3) by simp
  let ?bank2 = "unpack_data 4 (replicate 4 float_default) (pack_data calibration)"
  have "bank_regs (device_regs stored s w2) ?a = pack_data calibration"
    unfolding 2(3) by (rule bank_regs_written [OF p])
  then obtain w3 where 3: "Slave_readData 2 ?rd w2 1 (replicate 4 float_default) 4 = Inr (8, ?bank2, w3)"
    "Slave_isValid w3 s" "device_regs stored s w3 = device_regs stored s w2"
    using bank_read [OF assms(1) 2(2) refl assms(3)] by auto
  have "map m_value ?bank2 = map m_value calibration"
    using unpack_pack_data [OF banks_wf(2,1,4)] banks_wf(3) by simp
  then have ok: "list_all2 (\<lambda>a b. float_eq (m_value a) (m_value b)) (map Data_updateRegisters calibration) ?bank2"
    by (rule calibration_equal)
  obtain w4 where 4: "Slave_writeData ?wr w3 1 ?backup 4 = Inr (8, map Data_updateRegisters ?backup, w4)"
    "Slave_isValid w4 s" "device_regs stored s w4 = device_regs stored s w"
    using bank_write [OF assms(1) 3(2) refl assms(3) bk(1,3)]
    unfolding 3(3) 2(3) bk(2) bank_regs_back by blast
  show ?thesis using 1(1) 2(1) 3(1) 4 ok by (simp add: rw_holding_def)
qed

section \<open>The interface of the templates on a link\<close>

definition link_serves :: "'c modbus_client \<Rightarrow> ('c \<Rightarrow> int \<Rightarrow> u16) \<Rightarrow> 'a slave_scheme \<Rightarrow> 'c world \<Rightarrow> int \<Rightarrow> int \<Rightarrow> bool" where
  "link_serves M stored s w addr n \<longleftrightarrow>
     memory_link M stored (slave_id s) \<and> Slave_isValid w s \<and> 0 \<le> Slave_pduAddress s addr \<and> 0 < n \<and> n \<le> 123"

interpretation link_port: register_port "\<lambda>w. Slave_readRegisters M w s" "\<lambda>w. Slave_writeRegisters M w s"
  "link_serves M stored s" for M stored s
proof
  fix w :: "'a world" and addr and vs :: "u16 list"
  let ?a = "Slave_pduAddress s addr" and ?n = "int (length vs)"
  assume v: "link_serves M stored s w addr ?n"
  then obtain w1 where 1: "Slave_writeRegisters M w s addr vs ?n = Inr (?n, w1)" "Slave_isValid w1 s"
    "device_regs stored s w1 = (\<lambda>x. if ?a \<le> x \<and> x < ?a + ?n then vs ! nat (x - ?a) else device_regs stored s w x)"
    using slave_write_memory [of M stored s w addr vs ?n ?a] by (auto simp: link_serves_def)
  then show "\<exists>w'. Slave_writeRegisters M w s addr vs ?n = Inr (?n, w')" by blast
  have "map (\<lambda>k. device_regs stored s w1 (?a + int k)) [0..<length vs] = vs"
    by (rule nth_equalityI) (simp_all add: 1(3))
  then show "\<exists>w''. Slave_readRegisters M w' s addr dest ?n = Inr (?n, vs, w'')"
    if "Slave_writeRegisters M w s addr vs ?n = Inr (?n, w')" and "length dest = length vs" for w' dest
    using slave_read_memory [of M stored s w1 addr "length vs" dest] v that 1(1,2) by (auto simp: link_serves_def)
qed

text \<open>What \<open>write-holding-data\<close> has written, \<open>read-holding-data\<close> prints.\<close>

lemma written_values_shown:
  assumes "memory_link M stored (slave_id s)" and "Slave_isValid w s" and "0 \<le> Slave_pduAddress s 1"
  shows "\<exists>w1 w2. write_holding (\<lambda>w. Slave_writeRegisters M w s) w = Inr (0, [Registers_written 8], w1) \<and>
    read_holding (\<lambda>w. Slave_readRegisters M w s) w1 = Inr (0, [Values (map m_value calibration)], w2)"
proof -
  have "link_serves M stored s w 1 (int (length calibration * 2))"
    using assms by (simp add: link_serves_def banks_wf(3))
  from link_port.data_through_port [OF banks_wf(2,1,4) this] show ?thesis
    unfolding banks_wf(3) write_holding_def read_holding_def by auto
qed

text \<open>A slave whose report has one byte, its identifier, makes \<open>report-slave-id\<close> read past the report.\<close>

lemma report_id_short_answer:
  assumes "rid st (MODBUS_MAX_PDU_LENGTH K) (r_data r) = Inr (1, bytes, st1)" and "length bytes = 253"
  shows "report_id K rid r st = Inl Undefined_behaviour"
proof -
  have "SlaveReport_data 1 (r\<lparr>r_data := bytes, r_size := 1\<rparr>) = Inl Undefined_behaviour"
    by (rule report_data_overflow) (simp_all add: assms(2))
  moreover have "SlaveReport_id 1 (r\<lparr>r_data := bytes, r_size := 1\<rparr>) = Inl Undefined_behaviour \<or>
      (\<exists>v. SlaveReport_id 1 (r\<lparr>r_data := bytes, r_size := 1\<rparr>) = Inr v)"
    by (simp add: SlaveReport_id_def vread_def)
  ultimately show ?thesis
    using assms(1) by (auto simp: report_id_def Slave_report_def SlaveReport_status_def)
qed

section \<open>Properties\<close>

lemma pack_data_values: "pack_data ds = concat (map (\<lambda>d. m_registers (Data_of_value (m_value d) (m_endian d))) ds)"
proof -
  have "m_registers (Data_updateRegisters d) = m_registers (Data_of_value (m_value d) (m_endian d))" for d
    by (simp add: Data_of_value_def Data_updateRegisters_def Data_swap_def Let_def)
  then show ?thesis by (simp add: pack_data_def)
qed

lemma unpack_data_endian:
  "length dest = n \<Longrightarrow> map m_endian (unpack_data n dest buf) = map m_endian dest"
  by (induction n dest buf rule: unpack_data.induct) (simp_all add: Let_def)

text \<open>C12. On a working link to a sensor that stores its registers, \<open>rw-holding-json\<close> shows the values
  that its registers 1 to 8 have, writes the calibration and finds it written, and leaves with
  status 0 and every register of the sensor as it was.\<close>

theorem rw_holding_restores:
  assumes "Master_slave K st 33 = Inr slv" and "slv = Slave_Private_at 33 (Some (m_dev (snd st)))"
    and "Master_open L st = Inr (True, st1)" and "Slave_isValid (fst st1) slv" and "memory_link M stored 33"
  shows "\<exists>w vs. rw_holding_main K L M st = and_then (Master_close L (w, snd st1)) (\<lambda>st2.
      Inr (0, [Values vs, Registers_written 8, Correctly_written, Registers_restored 8], st2)) \<and>
    device_regs stored slv w = device_regs stored slv (fst st1) \<and>
    length vs = 4 \<and> concat (map (\<lambda>v. m_registers (Data_of_value v EndianBigLittle)) vs)
      = map (\<lambda>k. device_regs stored slv (fst st1) (int k)) [0..<8]"
proof -
  have s: "slave_id slv = 33" "Slave_pduAddress slv 1 = 0"
    by (simp_all add: assms(2) Slave_Private_at_def Slave_Private_def Slave_pduAddress_def)
  let ?b = "bank_regs (device_regs stored slv (fst st1)) 0"
  let ?ds = "unpack_data 4 (replicate 4 float_default) ?b"
  obtain w where w: "rw_holding (\<lambda>w. Slave_readRegisters M w slv) (\<lambda>w. Slave_writeRegisters M w slv) (fst st1)
      = Inr (0, [Values (map m_value ?ds), Registers_written 8, Correctly_written, Registers_restored 8], w)"
    "device_regs stored slv w = device_regs stored slv (fst st1)"
    using rw_holding_run [of M stored slv "fst st1"] assms(4,5) s by auto
  have e: "map m_endian ?ds = replicate 4 EndianBigLittle"
    using unpack_data_endian [of "replicate 4 float_default" 4 ?b] by (simp add: float_wf(2))
  then have "\<forall>d \<in> set ?ds. m_endian d = EndianBigLittle" by (metis in_set_replicate list.set_map image_eqI)
  then have "concat (map (\<lambda>v. m_registers (Data_of_value v EndianBigLittle)) (map m_value ?ds)) = pack_data ?ds"
    unfolding pack_data_values by (simp add: comp_def cong: map_cong)
  also have "\<dots> = ?b" using pack_unpack_data [OF banks_wf(1), of ?b] by (simp add: bank_regs_def)
  finally have r: "concat (map (\<lambda>v. m_registers (Data_of_value v EndianBigLittle)) (map m_value ?ds)) = ?b" .
  have "length ?ds = 4" using map_eq_imp_length_eq [of m_endian ?ds id "replicate 4 EndianBigLittle"] e by simp
  then have "length (map m_value ?ds) = 4" by simp
  moreover have "?b = map (\<lambda>k. device_regs stored slv (fst st1) (int k)) [0..<8]" by (simp add: bank_regs_def)
  moreover have "rw_holding_main K L M st = and_then (Master_close L (w, snd st1)) (\<lambda>st2.
      Inr (0, [Values (map m_value ?ds), Registers_written 8, Correctly_written, Registers_restored 8], st2))"
    using w(1) by (simp add: rw_holding_main_def master_main_def assms(1,3))
  ultimately show ?thesis using r w(2) by metis
qed

text \<open>A sensor whose context is its registers, at first each the number of its address.\<close>

definition sensor_registers :: "(int \<Rightarrow> u16) modbus_client" where
  "sensor_registers = \<lparr>
     modbus_set_slave = (\<lambda>c i. (0, None, c)),
     modbus_read_bits = (\<lambda>c a n. ([], -1, Some EINVAL, c)), modbus_read_input_bits = (\<lambda>c a n. ([], -1, Some EINVAL, c)),
     modbus_read_registers = (\<lambda>c a n. (map (\<lambda>k. c (a + int k)) [0..<nat n], n, None, c)),
     modbus_read_input_registers = (\<lambda>c a n. ([], -1, Some EINVAL, c)),
     modbus_write_bit = (\<lambda>c a v. (-1, Some EINVAL, c)), modbus_write_bits = (\<lambda>c a n bs. (-1, Some EINVAL, c)),
     modbus_write_register = (\<lambda>c a v. (1, None, c(a := v))),
     modbus_write_registers = (\<lambda>c a n vs. (n, None, \<lambda>x. if a \<le> x \<and> x < a + n then vs ! nat (x - a) else c x)),
     modbus_write_and_read_registers = (\<lambda>c a n bs a' n'. ([], -1, Some EINVAL, c)),
     modbus_report_slave_id = (\<lambda>c n. ([], -1, Some EINVAL, c)) \<rparr>"

definition sensor_state :: "(int \<Rightarrow> u16) mstate" where
  "sensor_state = (\<lparr>w_errno = ENOERR, w_devices = (\<lambda>_. \<lparr>dev_isOpen = True,
     dev_backend = Some \<lparr>nl_net = Rtu, connection = ''/dev/ttyUSB0'', settings = ''38400E1'', nl_maxAduLength = 256,
       ctx = word_of_int, nl_transactionId = 0, oneByteTime = 0\<rparr>, dev_recoveryLink = False, dev_debug = False\<rparr>)\<rparr>,
     \<lparr>m_dev = 0, m_slaves = [33 \<mapsto> Slave_Private_at 33 (Some 0)]\<rparr>)"

theorem rw_holding_restores_witness:
  "\<forall>L. \<exists>w vs. rw_holding_main libmodbus_values L sensor_registers sensor_state
      = and_then (Master_close L (w, snd sensor_state)) (\<lambda>st2.
      Inr (0, [Values vs, Registers_written 8, Correctly_written, Registers_restored 8], st2)) \<and>
    device_regs id (Slave_Private_at 33 (Some 0)) w = word_of_int \<and>
    concat (map (\<lambda>v. m_registers (Data_of_value v EndianBigLittle)) vs) = [0, 1, 2, 3, 4, 5, 6, 7]"
proof
  fix L :: "(int \<Rightarrow> u16) modbus_link"
  let ?s = "Slave_Private_at 33 (Some 0)"
  have 1: "Master_slave libmodbus_values sensor_state 33 = Inr ?s"
    by (simp add: Master_slave_def Device_defaultSlave_def Master_device_def map_at_def sensor_state_def)
  have 2: "Master_open L sensor_state = Inr (True, sensor_state)"
    by (simp add: Master_open_def master_call_def on_device_def Device_open_def Device_isOpen_def sensor_state_def fun_upd_idem)
  have 3: "Slave_isValid (fst sensor_state) ?s" "device_regs id ?s (fst sensor_state) = word_of_int"
    by (simp_all add: sensor_state_def Slave_isValid_def Slave_device_def Slave_number_def Slave_Private_at_def Slave_Private_def
        Device_isValid_def device_regs_def Slave_ctx_def Device_backend_def)
  have 4: "memory_link sensor_registers id 33" by (simp add: memory_link_def sensor_registers_def id_def)
  have "map (\<lambda>k. word_of_int (int k)) [0..<8] = [0, 1, 2, 3, 4, 5, 6, 7 :: u16]" by (simp add: upt_rec)
  then show "\<exists>w vs. rw_holding_main libmodbus_values L sensor_registers sensor_state
      = and_then (Master_close L (w, snd sensor_state)) (\<lambda>st2.
      Inr (0, [Values vs, Registers_written 8, Correctly_written, Registers_restored 8], st2)) \<and>
    device_regs id ?s w = word_of_int \<and> concat (map (\<lambda>v. m_registers (Data_of_value v EndianBigLittle)) vs) = [0, 1, 2, 3, 4, 5, 6, 7]"
    using rw_holding_restores [OF 1 _ 2 3(1) 4] unfolding 3(2) by (simp add: sensor_state_def) metis
qed

end
