(* ===== verification/C_Time.thy ===== *)
theory C_Time
  imports Prelude
begin

text \<open>
  The part of the C library's \<open>time.h\<close> that the examples call: \<open>struct tm\<close> and \<open>gmtime\<close>, the
  conversion of seconds since 1970 to a date and time of the Gregorian calendar. The lemmas show
  that it is the inverse of the formula by which POSIX defines the seconds since the Epoch.
\<close>

record tm =
  tm_sec :: int
  tm_min :: int
  tm_hour :: int
  tm_mday :: int
  tm_mon :: int
  tm_year :: int
  tm_wday :: int
  tm_yday :: int
  tm_isdst :: int
  tm_gmtoff :: int

section \<open>Days and years\<close>

text \<open>The days from 1 January 1970 to 1 January of the year \<open>y\<close>.\<close>

definition days_before :: "int \<Rightarrow> int" where
  "days_before y = 365 * (y - 1970) + (y - 1) div 4 - (y - 1) div 100 + (y - 1) div 400 - 477"

definition is_leap :: "int \<Rightarrow> bool" where
  "is_leap y \<longleftrightarrow> y mod 4 = 0 \<and> (y mod 100 \<noteq> 0 \<or> y mod 400 = 0)"

text \<open>The year of a day: a quotient by the mean length of a year, corrected by one.\<close>

definition year_of_day :: "int \<Rightarrow> int" where
  "year_of_day d =
     (let y = 1970 + 400 * d div 146097
      in if d < days_before y then y - 1 else if days_before (y + 1) \<le> d then y + 1 else y)"

definition month_lengths :: "int \<Rightarrow> int list" where
  "month_lengths y = [31, if is_leap y then 29 else 28, 31, 30, 31, 30, 31, 31, 30, 31, 30, 31]"

text \<open>The index of the part that an offset falls into, and the offset in that part.\<close>

fun split_days :: "int list \<Rightarrow> int \<Rightarrow> int \<times> int" where
  "split_days [] d = (0, d)"
| "split_days (m # ms) d = (if d < m then (0, d) else case split_days ms (d - m) of (i, r) \<Rightarrow> (i + 1, r))"

definition gmtime :: "int \<Rightarrow> tm" where
  "gmtime t =
     (let d = t div 86400; s = t mod 86400; y = year_of_day d; yd = d - days_before y
      in case split_days (month_lengths y) yd of (mon, r) \<Rightarrow>
        \<lparr>tm_sec = s mod 60, tm_min = s div 60 mod 60, tm_hour = s div 3600, tm_mday = r + 1, tm_mon = mon,
         tm_year = y - 1900, tm_wday = (d + 4) mod 7, tm_yday = yd, tm_isdst = 0, tm_gmtoff = 0\<rparr>)"

section \<open>Lemmas\<close>

lemma days_before_next: "days_before (y + 1) = days_before y + (if is_leap y then 366 else 365)"
proof -
  have q: "(y + 1 - 1) div k = (y - 1) div k + (if y mod k = 0 then 1 else 0)" if "0 < k" for k :: int
  proof (cases "y mod k = 0")
    case True
    then have "y - 1 = k * (y div k - 1) + (k - 1)" using mult_div_mod_eq [of k y] by (simp add: algebra_simps)
    then have "(y - 1) div k = y div k - 1" using that by (intro int_div_pos_eq [where r = "k - 1"]) linarith+
    then show ?thesis using True by simp
  next
    case False
    have "y - 1 = k * (y div k) + (y mod k - 1)" by simp
    moreover have "0 \<le> y mod k" "y mod k < k" using that by simp_all
    ultimately have "(y - 1) div k = y div k" using False by (intro int_div_pos_eq [where r = "y mod k - 1"]) linarith+
    then show ?thesis using False by simp
  qed
  define b where "b k = (if y mod k = 0 then 1 else 0 :: int)" for k
  have "days_before (y + 1) = days_before y + 365 + b 4 - b 100 + b 400"
  proof -
    have "365 * (y + 1 - 1970) + (A + a) - (B + b) + (C + c) - 477 = 365 * (y - 1970) + A - B + C - 477 + 365 + a - b + c"
      for A B C a b c :: int by simp
    then show ?thesis
      using q [of 4, folded b_def] q [of 100, folded b_def] q [of 400, folded b_def] by (simp only: days_before_def)
  qed
  moreover have "y mod 400 = 0 \<Longrightarrow> y mod 100 = 0" "y mod 100 = 0 \<Longrightarrow> y mod 4 = 0" by presburger+
  ultimately show ?thesis unfolding is_leap_def b_def by (cases "y mod 400 = 0"; cases "y mod 100 = 0"; simp)
qed

text \<open>The bounds that make the first quotient right up to one year.\<close>

lemma div_bounds: "(k :: int) * (x div k) \<le> x \<and> x < k * (x div k) + k" if "0 < k"
proof -
  have "k * (x div k) + x mod k = x" by simp
  moreover have "0 \<le> x mod k" "x mod k < k" using that by simp_all
  ultimately show ?thesis by linarith
qed

lemma year_of_day_bounds:
  "days_before (year_of_day d) \<le> d" "d < days_before (year_of_day d + 1)"
proof -
  define g where "g = 400 * d div 146097"
  have g: "146097 * g \<le> 400 * d" "400 * d < 146097 * g + 146097"
    using div_bounds [of 146097 "400 * d"] by (simp_all add: g_def)
  have low: "days_before (1970 + g - 1) \<le> d"
    using div_bounds [of 4 "1968 + g"] div_bounds [of 100 "1968 + g"] div_bounds [of 400 "1968 + g"] g
    unfolding days_before_def by (simp add: algebra_simps)
  have high: "d < days_before (1970 + g + 2)"
    using div_bounds [of 4 "1971 + g"] div_bounds [of 100 "1971 + g"] div_bounds [of 400 "1971 + g"] g
    unfolding days_before_def by (simp add: algebra_simps)
  have step: "days_before y < days_before (y + 1)" for y using days_before_next [of y] by simp
  show "days_before (year_of_day d) \<le> d" "d < days_before (year_of_day d + 1)"
    using low high step [of "1970 + g"] by (auto simp: year_of_day_def Let_def g_def [symmetric] add.assoc)
qed

lemma split_days_spec:
  assumes "0 \<le> d" and "d < sum_list ms" and "\<forall>m \<in> set ms. 0 < m" and "split_days ms d = (i, r)"
  shows "0 \<le> i \<and> i < int (length ms) \<and> 0 \<le> r \<and> r < ms ! nat i \<and> sum_list (take (nat i) ms) + r = d"
  using assms
proof (induction ms arbitrary: d i r)
  case (Cons m ms)
  show ?case
  proof (cases "d < m")
    case False
    obtain j q where jq: "split_days ms (d - m) = (j, q)" by (cases "split_days ms (d - m)")
    then have "i = j + 1" "r = q" using Cons.prems(4) False by simp_all
    moreover have "0 \<le> j \<and> j < int (length ms) \<and> 0 \<le> q \<and> q < ms ! nat j \<and> sum_list (take (nat j) ms) + q = d - m"
      using Cons.IH [OF _ _ _ jq] Cons.prems False by simp
    moreover from this have "nat (j + 1) = Suc (nat j)" by (simp add: nat_add_distrib)
    ultimately show ?thesis by simp
  qed (use Cons.prems in auto)
qed simp

text \<open>The seconds since the Epoch of a broken-down time, as POSIX defines them.\<close>

definition posix_seconds :: "tm \<Rightarrow> int" where
  "posix_seconds t = tm_sec t + tm_min t * 60 + tm_hour t * 3600 + tm_yday t * 86400 + (tm_year t - 70) * 31536000 +
     ((tm_year t - 69) div 4) * 86400 - ((tm_year t - 1) div 100) * 86400 + ((tm_year t + 299) div 400) * 86400"

text \<open>The fields of a date are in range and agree with each other.\<close>

definition tm_ok :: "tm \<Rightarrow> bool" where
  "tm_ok t \<longleftrightarrow> 0 \<le> tm_sec t \<and> tm_sec t < 60 \<and> 0 \<le> tm_min t \<and> tm_min t < 60 \<and> 0 \<le> tm_hour t \<and> tm_hour t < 24 \<and>
     0 \<le> tm_mon t \<and> tm_mon t < 12 \<and> 1 \<le> tm_mday t \<and>
     tm_mday t \<le> month_lengths (tm_year t + 1900) ! nat (tm_mon t) \<and> 0 \<le> tm_wday t \<and> tm_wday t < 7 \<and>
     tm_yday t = sum_list (take (nat (tm_mon t)) (month_lengths (tm_year t + 1900))) + tm_mday t - 1"

lemma months_sum: "sum_list (month_lengths y) = (if is_leap y then 366 else 365)"
  by (simp add: month_lengths_def)

lemma gmtime_ok: "tm_ok (gmtime t)"
proof -
  let ?d = "t div 86400" let ?y = "year_of_day ?d"
  obtain mon r where s: "split_days (month_lengths ?y) (?d - days_before ?y) = (mon, r)"
    by (cases "split_days (month_lengths ?y) (?d - days_before ?y)")
  have "?d - days_before ?y < sum_list (month_lengths ?y)" "0 \<le> ?d - days_before ?y"
    using year_of_day_bounds [of ?d] days_before_next [of ?y] by (auto simp: months_sum)
  then have "0 \<le> mon \<and> mon < 12 \<and> 0 \<le> r \<and> r < month_lengths ?y ! nat mon \<and>
      sum_list (take (nat mon) (month_lengths ?y)) + r = ?d - days_before ?y"
    using split_days_spec [OF _ _ _ s] by (auto simp: month_lengths_def)
  moreover have "t mod 86400 div 3600 \<le> 86399 div 3600" by (rule zdiv_mono1) simp_all
  moreover have "0 \<le> t mod 86400 div 3600" by (simp add: pos_imp_zdiv_nonneg_iff)
  ultimately show ?thesis by (simp add: gmtime_def Let_def s tm_ok_def)
qed

lemma hours_minutes_seconds: "s mod 60 + s div 60 mod 60 * 60 + s div 3600 * 3600 = (s :: int)"
proof -
  have h: "s div 3600 = s div 60 div 60" using zdiv_zmult2_eq [of 60 s 60] by simp
  have "a + b * 60 + c * 3600 = a + (b + c * 60) * 60" for a b c :: int by simp
  then show ?thesis by (simp only: h mod_div_mult_eq)
qed

lemma gmtime_posix: "posix_seconds (gmtime t) = t"
proof -
  let ?d = "t div 86400" and ?s = "t mod 86400" let ?y = "year_of_day ?d"
  have y: "(?y - 1969) div 4 = (?y - 1) div 4 - 492" "(?y - 1901) div 100 = (?y - 1) div 100 - 19"
    "(?y - 1601) div 400 = (?y - 1) div 400 - 4"
    using div_mult_self1 [of 4 "?y - 1" "-492"] div_mult_self1 [of 100 "?y - 1" "-19"] div_mult_self1 [of 400 "?y - 1" "-4"]
    by simp_all
  have "posix_seconds (gmtime t) = (?s mod 60 + ?s div 60 mod 60 * 60 + ?s div 3600 * 3600) + (?d - days_before ?y) * 86400 +
      (?y - 1970) * 31536000 + ((?y - 1) div 4 - 492) * 86400 - ((?y - 1) div 100 - 19) * 86400 + ((?y - 1) div 400 - 4) * 86400"
    by (simp add: posix_seconds_def gmtime_def Let_def y split: prod.split)
  also have "\<dots> = ?s + ?d * 86400" unfolding hours_minutes_seconds days_before_def by (simp add: algebra_simps)
  also have "\<dots> = t" by (rule mod_div_mult_eq)
  finally show ?thesis .
qed

text \<open>The seconds of a day are those of the fields.\<close>

lemma gmtime_example: "gmtime 1574955637 =
  \<lparr>tm_sec = 37, tm_min = 40, tm_hour = 15, tm_mday = 28, tm_mon = 10, tm_year = 119, tm_wday = 4, tm_yday = 331,
   tm_isdst = 0, tm_gmtoff = 0\<rparr>"
  by code_simp

end
