(* ===== verification/Clock_Server.thy ===== *)
theory Clock_Server
  imports C_Time Object_Access BufferedSlave_Spec Server_Props
begin

text \<open>
  The program \<open>examples/server/clock-server/main.cpp\<close>: a server whose slave 10 shows the time. The
  input registers 1 to 8 are a date and time, the holding registers 1 and 2 the offset from
  GMT, coil 1 tells of summer time; a master can change the last two. The program \<open>clock-server-json\<close>
  has the same loop. The clock and \<open>localtime\<close> are inputs of the functions.
\<close>

section \<open>The program\<close>

definition SlaveAddress :: int where "SlaveAddress = 10"

text \<open>The server with the variables that live across the turns of the loop.\<close>

record clock_server = server +
  ck_before :: int
  ck_daylight :: u8
  ck_gmtoff :: data

type_synonym 'c ckstate = "'c world \<times> clock_server"

text \<open>A call of the slave that returns what it read; the programs drop the return value.\<close>

definition slave_get ::
    "('c bstate \<Rightarrow> (int \<times> 'x \<times> 'c bstate) res) \<Rightarrow> ('c, 'a) sstate \<Rightarrow> ('x \<times> ('c, 'a) sstate) res" where
  "slave_get f st = on_slave SlaveAddress (\<lambda>b. and_then (f b) (\<lambda>(_, x, b'). Inr (x, b'))) st"

text \<open>A new slave with its tables, each from its first address on, and those of the clock.\<close>

definition set_tables :: "memory \<Rightarrow> (Table \<times> int) list \<Rightarrow> bslave \<Rightarrow> bslave res" where
  "set_tables A ts s = foldl (\<lambda>r (t, n). and_then r (\<lambda>s1. and_then (BufferedSlave_setBlock A s1 t n (-1)) (\<lambda>(_, s2). Inr s2))) (Inr s) ts"

definition clock_tables :: "(Table \<times> int) list" where
  "clock_tables = [(InputRegister, 8), (HoldingRegister, 2), (Coil, 1)]"

definition add_slave_tables ::
    "'c modbus_client \<Rightarrow> memory \<Rightarrow> int \<Rightarrow> nat option \<Rightarrow> (Table \<times> int) list \<Rightarrow> ('c, 'a) sstate \<Rightarrow> ('c, 'a) sstate res" where
  "add_slave_tables M A a dev ts st =
     and_then (Server_addSlave M st a dev) (\<lambda>st1.
     and_then (on_slave a (\<lambda>(w, s). and_then (set_tables A ts s) (\<lambda>s'. Inr ((), w, s'))) st1) (\<lambda>(_, st2).
     Inr st2))"

definition clock_slave :: "'c modbus_client \<Rightarrow> memory \<Rightarrow> ('c, 'a) sstate \<Rightarrow> ('c, 'a) sstate res" where
  "clock_slave M A st = add_slave_tables M A SlaveAddress None clock_tables st"

text \<open>A conversion of an \<open>int\<close> or a \<open>long\<close> to \<open>int32_t\<close>, and the value of its object representation.\<close>

definition int32_value :: "u8 list \<Rightarrow> int" where
  "int32_value bs = sint (word_of_int (foldr (\<lambda>b x. uint b + 256 * x) bs 0) :: 32 word)"

definition clock_init :: "'c modbus_client \<Rightarrow> int \<Rightarrow> tm \<Rightarrow> 'c ckstate \<Rightarrow> 'c ckstate res" where
  "clock_init M now t st =
     (let daylight = (tm_isdst t > 0)
      in and_then (on_slave SlaveAddress (\<lambda>b. BufferedSlave_writeCoil M b 1 daylight) st) (\<lambda>(_, st1).
         let gmtoff = Data_assign (Data_default 4 EndianBigBig) (bytes_of_int 4 (tm_gmtoff t))
         in and_then (slave_get (\<lambda>b. Slave_writeDatum (BufferedSlave_writeRegisters M) b 1 gmtoff) st1) (\<lambda>(g, w, v).
            Inr (w, v\<lparr>ck_before := now, ck_daylight := of_bool daylight, ck_gmtoff := g\<rparr>))))"

definition mb_time :: "tm \<Rightarrow> u16 list" where
  "mb_time t = map word_of_int [tm_sec t, tm_min t, tm_hour t, tm_mday t, tm_mon t + 1, tm_year t + 1900,
     tm_wday t, tm_yday t + 1]"

text \<open>A signed overflow is undefined; \<open>gmtime\<close> gives a null pointer for a year that an \<open>int\<close> has
  not, and the next access goes through it.\<close>

definition fits_int :: "int \<Rightarrow> bool" where
  "fits_int x \<longleftrightarrow> - (2 ^ 31) \<le> x \<and> x < 2 ^ 31"

definition clock_tick :: "'c modbus_client \<Rightarrow> int \<Rightarrow> 'c ckstate \<Rightarrow> 'c ckstate res" where
  "clock_tick M now st =
     (if now > ck_before (snd st)
      then let st0 = (fst st, (snd st)\<lparr>ck_before := now\<rparr>)
           in and_then (slave_get (\<lambda>b. Slave_read1 (BufferedSlave_readCoils M) b 1 (ck_daylight (snd st0))) st0) (\<lambda>(daylight, st1).
              and_then (slave_get (\<lambda>b. Slave_readDatum (BufferedSlave_readRegisters M) b 1 (ck_gmtoff (snd st1))) st1) (\<lambda>(gmtoff, st2).
              let shift = (if daylight \<noteq> 0 then 3600 else 0) + int32_value (m_value gmtoff);
                  t = gmtime (now + shift)
              in if fits_int shift \<and> fits_int (tm_year t)
                 then and_then (on_slave SlaveAddress (\<lambda>b. BufferedSlave_writeInputRegisters b 1 (mb_time t) 8) st2) (\<lambda>(_, w, v).
                      Inr (w, v\<lparr>ck_daylight := daylight, ck_gmtoff := gmtoff\<rparr>))
                 else Inl Undefined_behaviour))
      else Inr st)"

text \<open>A turn of the loop and the loop, on the readings of the clock and whether the receiving thread
  ends within the time of \<open>poll\<close>. It ends when the server is closed; the result tells whether it has.\<close>

definition clock_turn ::
    "mb_consts \<Rightarrow> 'c modbus_link \<Rightarrow> 'c modbus_client \<Rightarrow> 'c modbus_server \<Rightarrow> 'c ckstate \<Rightarrow> int \<times> bool \<Rightarrow> 'c ckstate res" where
  "clock_turn K L M SV st x =
     and_then (clock_tick M (fst x) st) (\<lambda>st1.
     and_then (Server_poll K L M SV (\<lambda>_ st. Inl Undefined_behaviour) (Server_Private_open K L SV) (snd x) st1) (\<lambda>(_, st2).
     Inr st2))"

fun clock_loop ::
    "mb_consts \<Rightarrow> 'c modbus_link \<Rightarrow> 'c modbus_client \<Rightarrow> 'c modbus_server \<Rightarrow> (int \<times> bool) list \<Rightarrow> 'c ckstate \<Rightarrow>
     (bool \<times> 'c ckstate) res" where
  "clock_loop K L M SV [] st = Inr (False, st)"
| "clock_loop K L M SV (x # xs) st =
     and_then (clock_turn K L M SV st x) (\<lambda>st1.
     if Server_isOpen st1 then clock_loop K L M SV xs st1 else Inr (True, st1))"

section \<open>The offset\<close>

lemma le_bytes_value: "foldr (\<lambda>b x. uint b + 256 * x) (le_bytes k n) 0 = int (n mod 256 ^ k)"
proof (induction k arbitrary: n)
  case (Suc k)
  have "le_bytes (Suc k) n = of_nat n # le_bytes k (n div 256)"
    by (simp add: le_bytes_def map_upt_Suc div_mult2_eq del: upt_Suc)
  moreover have "uint (of_nat n :: u8) = int (n mod 256)" by (simp add: uint_nat unat_of_nat)
  ultimately show ?case by (simp add: Suc mod_mult2_eq)
qed (simp add: le_bytes_def)

lemma int32_round_trip:
  assumes "fits_int x"
  shows "int32_value (bytes_of_int 4 x) = x"
proof -
  have "int (nat (x mod 2 ^ 32) mod 256 ^ 4) = x mod 2 ^ 32"
    by (simp add: nat_mod_distrib)
  then have "int32_value (bytes_of_int 4 x) = sint (word_of_int (x mod 2 ^ 32) :: 32 word)"
    unfolding int32_value_def bytes_of_int_def le_bytes_value by simp
  also have "word_of_int (x mod 2 ^ 32) = (word_of_int x :: 32 word)"
    by (simp add: word_of_int_eq_iff take_bit_eq_mod)
  also have "sint (word_of_int x :: 32 word) = x"
    using assms by (simp add: fits_int_def int_word_sint)
  finally show ?thesis .
qed

section \<open>The slave\<close>

text \<open>The three tables of the slave: the coil, the two registers of the offset, the date.\<close>

definition shows_tables :: "u8 \<Rightarrow> u16 list \<Rightarrow> u16 list \<Rightarrow> bslave \<Rightarrow> bool" where
  "shows_tables c offset date s \<longleftrightarrow>
     slave_dev s = None \<and> \<not> pduAddressing s \<and> length offset = 2 \<and> length date = 8 \<and>
     map_bits (bmap s) = \<lparr>blk_start = 0, blk_nb = 1, blk_tab = Some [c]\<rparr> \<and>
     map_registers (bmap s) = \<lparr>blk_start = 0, blk_nb = 2, blk_tab = Some offset\<rparr> \<and>
     map_input_registers (bmap s) = \<lparr>blk_start = 0, blk_nb = 8, blk_tab = Some date\<rparr>"

definition clock_shows :: "u8 \<Rightarrow> u16 list \<Rightarrow> u16 list \<Rightarrow> ('c, 'a) sstate \<Rightarrow> bool" where
  "clock_shows c offset date st \<longleftrightarrow>
     (\<exists>s. srv_slaves (snd st) SlaveAddress = Some s \<and> shows_tables c offset date s)"

lemma shows_closed: "shows_tables c offset date s \<Longrightarrow> \<not> Slave_isOpen w s"
  by (simp add: shows_tables_def Slave_isOpen_def Slave_isValid_def Slave_device_def)

lemmas slave_simps = Let_def in_block_def Slave_pduAddress_def blk_mem_def store_block_def vread_in vwrite_in

lemma coil_read:
  "shows_tables c offset date s \<Longrightarrow>
   Slave_read1 (BufferedSlave_readCoils M) (w, s) 1 d = Inr (1, c, (w, s))"
  using shows_closed [of c offset date s w]
  by (simp add: Slave_read1_def BufferedSlave_readCoils_def buffered_read_def slave_simps shows_tables_def)

lemma coil_write:
  "shows_tables c offset date s \<Longrightarrow>
   \<exists>s'. BufferedSlave_writeCoil M (w, s) 1 b = Inr (1, (w, s')) \<and> shows_tables (of_bool b) offset date s'"
  using shows_closed [of c offset date s w]
  by (simp add: BufferedSlave_writeCoil_def BufferedSlave_writeCoils_def coils_out.write_offline image_write_def
      slave_simps shows_tables_def)

lemma offset_read:
  assumes "shows_tables c offset date s" and "data_wf 2 g"
  shows "Slave_readDatum (BufferedSlave_readRegisters M) (w, s) 1 g
    = Inr (2, Data_updateValue (g\<lparr>m_registers := offset\<rparr>), (w, s))"
  using shows_closed [OF assms(1), of w] assms
  by (simp add: Slave_readDatum_def BufferedSlave_readRegisters_def buffered_read_def slave_simps shows_tables_def data_wf_def)

lemma offset_write:
  assumes "shows_tables c offset date s" and "length (m_value g) = 4"
  shows "\<exists>s'. Slave_writeDatum (BufferedSlave_writeRegisters M) (w, s) 1 g = Inr (2, Data_updateRegisters g, (w, s')) \<and>
    shows_tables c (m_registers (Data_updateRegisters g)) date s'"
proof -
  have "length (m_registers (Data_updateRegisters g)) = 2" using assms(2) by (simp add: updateRegisters_length)
  then show ?thesis
    using shows_closed [OF assms(1), of w] assms(1)
    by (simp add: Slave_writeDatum_def BufferedSlave_writeRegisters_def holding_out.write_offline image_write_def
        slave_simps shows_tables_def)
qed

lemma date_write:
  assumes "shows_tables c offset date s" and "length ts = 8"
  shows "\<exists>s'. BufferedSlave_writeInputRegisters (w, s) 1 ts 8 = Inr (8, (w, s')) \<and> shows_tables c offset ts s'"
  using assms
  by (simp add: BufferedSlave_writeInputRegisters_def image_write_def slave_simps shows_tables_def)

lemma date_read:
  assumes "shows_tables c offset date s" and "length dest = 8"
  shows "BufferedSlave_readInputRegisters M (w, s) 1 dest 8 = Inr (8, date, (w, s))"
  using shows_closed [OF assms(1), of w] assms
  by (simp add: BufferedSlave_readInputRegisters_def buffered_read_def slave_simps shows_tables_def)

section \<open>A turn of the clock\<close>

definition shown_shift :: "u8 \<Rightarrow> u16 list \<Rightarrow> int" where
  "shown_shift c offset = (if c \<noteq> 0 then 3600 else 0) + int32_value (store16 (rev offset))"

lemma mb_time_length [simp]: "length (mb_time t) = 8"
  by (simp add: mb_time_def)

lemma tick_shows:
  assumes "clock_shows c offset date st" and "ck_before (snd st) < now"
    and "data_wf 2 (ck_gmtoff (snd st))" and "m_endian (ck_gmtoff (snd st)) = EndianBigBig"
    and "x = now + shown_shift c offset" and "fits_int (shown_shift c offset)" and "fits_int (tm_year (gmtime x))"
  shows "\<exists>st'. clock_tick M now st = Inr st' \<and> clock_shows c offset (mb_time (gmtime x)) st' \<and>
    fst st' = fst st \<and> ck_before (snd st') = now \<and>
    data_wf 2 (ck_gmtoff (snd st')) \<and> m_endian (ck_gmtoff (snd st')) = EndianBigBig"
proof -
  obtain w v where st: "st = (w, v)" by (cases st)
  obtain s where s: "srv_slaves v SlaveAddress = Some s" "shows_tables c offset date s"
    using assms(1) by (auto simp: st clock_shows_def)
  let ?g = "Data_updateValue ((ck_gmtoff v)\<lparr>m_registers := offset\<rparr>)"
  have g: "m_value ?g = store16 (rev offset)" "data_wf 2 ?g" "m_endian ?g = EndianBigBig"
    using assms(3,4) s(2) by (simp_all add: st updateValue_words order_words_def data_wf_def shows_tables_def)
  obtain s' where s': "BufferedSlave_writeInputRegisters (w, s) 1 (mb_time (gmtime x)) 8 = Inr (8, (w, s'))"
    "shows_tables c offset (mb_time (gmtime x)) s'"
    using date_write [OF s(2), of "mb_time (gmtime x)" w] by auto
  show ?thesis
    using assms(2,3,5-7) g s s'
    by (simp add: clock_tick_def st slave_get_def on_slave_def coil_read [OF s(2)] offset_read [OF s(2)]
        shown_shift_def [symmetric] g(1) Let_def clock_shows_def)
qed

section \<open>The start\<close>

lemma set_block_new:
  assumes "allocates calloc realloc" and "0 < n" and "calloc n \<noteq> None"
  shows "set_block calloc realloc k empty_block start n
    = Inr (n, \<lparr>blk_start = start, blk_nb = n, blk_tab = Some (replicate (nat n) 0)\<rparr>)"
proof -
  have "calloc n = Some (replicate (nat n) 0)"
    using assms(1,3) unfolding allocates_def by blast
  then show ?thesis using assms(2) by (simp add: set_block_def empty_block_def)
qed

text \<open>The allocator has memory for the tables.\<close>

definition has_memory :: "memory \<Rightarrow> bool" where
  "has_memory A \<longleftrightarrow> memory_ok A \<and> calloc_words A 8 \<noteq> None \<and> calloc_words A 2 \<noteq> None \<and> calloc_bytes A 1 \<noteq> None"

lemma tables_set:
  assumes "has_memory A" and "bmap s = empty_mapping" and "slave_dev s = None" and "\<not> pduAddressing s"
  shows "\<exists>s'. set_tables A clock_tables s = Inr s' \<and> shows_tables 0 [0, 0] (replicate 8 0) s'"
proof -
  have "allocates (calloc_words A) (realloc_words A)" "allocates (calloc_bytes A) (realloc_bytes A)"
    using assms(1) by (simp_all add: has_memory_def memory_ok_def)
  from set_block_new [OF this(1), of 8 2 0] set_block_new [OF this(1), of 2 2 0] set_block_new [OF this(2), of 1 1 0]
  show ?thesis
    using assms
    by (simp add: set_tables_def clock_tables_def BufferedSlave_setBlock_def Let_def setInputRegisterBlock_def
        setHoldingRegisterBlock_def setCoilBlock_def Slave_pduAddress_def has_memory_def empty_mapping_def
        shows_tables_def) (simp add: eval_nat_numeral)
qed

lemma clock_slave_ready:
  assumes "srv_slaves (snd st) SlaveAddress = None" and "Server_addSlave M st SlaveAddress None = Inr st1" and "has_memory A"
  shows "\<exists>st2. clock_slave M A st = Inr st2 \<and> clock_shows 0 [0, 0] (replicate 8 0) st2"
proof -
  let ?s = "BufferedSlave_Private_at empty_mapping SlaveAddress None"
  have frame: "srv_slaves (snd st0) = srv_slaves (snd st)" if "server_call f st = Inr (x, st0)" for f st0 x
    using that by (auto simp: server_call_def and_then_eq_Inr)
  have s: "srv_slaves (snd st1) SlaveAddress = Some ?s"
    using assms(1,2) by (auto simp: Server_addSlave_def Server_Private_addSlave_def and_then_eq_Inr dest: frame split: if_splits)
  have "bmap ?s = empty_mapping" "slave_dev ?s = None" "\<not> pduAddressing ?s"
    by (simp_all add: BufferedSlave_Private_at_def BufferedSlave_Private_def Slave_Private_def slave.extend_def)
  from tables_set [OF assms(3) this] s show ?thesis
    by (auto simp: clock_slave_def add_slave_tables_def assms(2) on_slave_def clock_shows_def)
qed

lemma clock_init_shows:
  assumes "clock_shows c offset date st" and "fits_int (tm_gmtoff t)"
  shows "\<exists>st' offset'. clock_init M now t st = Inr st' \<and> clock_shows (of_bool (tm_isdst t > 0)) offset' date st' \<and>
    shown_shift (of_bool (tm_isdst t > 0)) offset' = tm_gmtoff t + (if tm_isdst t > 0 then 3600 else 0) \<and>
    fst st' = fst st \<and> ck_before (snd st') = now \<and>
    data_wf 2 (ck_gmtoff (snd st')) \<and> m_endian (ck_gmtoff (snd st')) = EndianBigBig"
proof -
  obtain w v where st: "st = (w, v)" by (cases st)
  obtain s where s: "srv_slaves v SlaveAddress = Some s" "shows_tables c offset date s"
    using assms(1) by (auto simp: st clock_shows_def)
  let ?d = "tm_isdst t > 0" and ?g = "Data_assign (Data_default 4 EndianBigBig) (bytes_of_int 4 (tm_gmtoff t))"
  let ?o = "m_registers (Data_updateRegisters ?g)"
  have g: "length (m_value ?g) = 4" "m_endian ?g = EndianBigBig" "m_value ?g = bytes_of_int 4 (tm_gmtoff t)"
    by (simp_all add: Data_assign_def Data_default_def bytes_of_int_def)
  then have o: "?o = rev (load16 (bytes_of_int 4 (tm_gmtoff t)))"
    by (simp add: updateRegisters_words order_words_def)
  have sh: "shown_shift (of_bool ?d) ?o = tm_gmtoff t + (if ?d then 3600 else 0)"
    using int32_round_trip [OF assms(2)] g by (simp add: shown_shift_def o store16_load16)
  obtain s1 where 1: "BufferedSlave_writeCoil M (w, s) 1 ?d = Inr (1, (w, s1))" "shows_tables (of_bool ?d) offset date s1"
    using coil_write [OF s(2)] by blast
  obtain s2 where 2: "Slave_writeDatum (BufferedSlave_writeRegisters M) (w, s1) 1 ?g = Inr (2, Data_updateRegisters ?g, (w, s2))"
    "shows_tables (of_bool ?d) ?o date s2"
    using offset_write [OF 1(2) g(1)] by blast
  have "data_wf 2 (Data_updateRegisters ?g)" "m_endian (Data_updateRegisters ?g) = EndianBigBig"
    using g by (simp_all add: data_wf_def updateRegisters_length)
  then show ?thesis
    using s(1) 1(1) 2 sh
    by (auto simp: clock_init_def st Let_def on_slave_def slave_get_def clock_shows_def)
qed

section \<open>What is shown\<close>

text \<open>The date and time of the eight registers.\<close>

definition shown_tm :: "u16 list \<Rightarrow> tm" where
  "shown_tm rs = \<lparr>tm_sec = uint (rs ! 0), tm_min = uint (rs ! 1), tm_hour = uint (rs ! 2), tm_mday = uint (rs ! 3),
     tm_mon = uint (rs ! 4) - 1, tm_year = uint (rs ! 5) - 1900, tm_wday = uint (rs ! 6), tm_yday = uint (rs ! 7) - 1,
     tm_isdst = 0, tm_gmtoff = 0\<rparr>"

lemma tm_bounds:
  assumes "tm_ok t"
  shows "tm_mday t \<le> 31 \<and> 0 \<le> tm_yday t \<and> tm_yday t < 366"
proof -
  let ?ms = "month_lengths (tm_year t + 1900)" and ?i = "nat (tm_mon t)"
  have i: "?i < 12" using assms by (auto simp: tm_ok_def)
  have "j \<in> {0, 1, 2, 3, 4, 5, 6, 7, 8, 9, 10, 11}" if "j < 12" for j :: nat
    unfolding insert_iff empty_iff using that by presburger
  then have "?i \<in> {0, 1, 2, 3, 4, 5, 6, 7, 8, 9, 10, 11}" using i by blast
  then have "?ms ! ?i \<le> 31 \<and> 0 \<le> sum_list (take ?i ?ms) \<and> sum_list (take ?i ?ms) + ?ms ! ?i \<le> 366"
    by (elim insertE emptyE; simp only: month_lengths_def) (simp_all add: eval_nat_numeral)
  then show ?thesis using assms by (auto simp: tm_ok_def)
qed

lemma shown_mb_time:
  assumes "tm_ok t" and "0 \<le> tm_year t + 1900" and "tm_year t + 1900 < 65536" and "tm_isdst t = 0" and "tm_gmtoff t = 0"
  shows "shown_tm (mb_time t) = t"
proof -
  have u: "uint (word_of_int x :: u16) = x" if "0 \<le> x" "x < 65536" for x
    using that by (simp add: uint_word_of_int)
  have "0 \<le> tm_sec t" "tm_sec t < 60" "0 \<le> tm_min t" "tm_min t < 60" "0 \<le> tm_hour t" "tm_hour t < 24"
    "0 \<le> tm_mon t" "tm_mon t < 12" "1 \<le> tm_mday t" "0 \<le> tm_wday t" "tm_wday t < 7"
    using assms(1) by (simp_all add: tm_ok_def)
  then show ?thesis
    using assms(2-5) tm_bounds [OF assms(1)]
    by (cases t) (simp add: shown_tm_def mb_time_def u eval_nat_numeral del: of_int_add)
qed

lemma shown_gmtime:
  assumes "0 \<le> tm_year (gmtime x) + 1900" and "tm_year (gmtime x) + 1900 < 65536"
  shows "posix_seconds (shown_tm (mb_time (gmtime x))) = x \<and> tm_ok (shown_tm (mb_time (gmtime x)))"
proof -
  have "tm_isdst (gmtime x) = 0 \<and> tm_gmtoff (gmtime x) = 0"
    by (simp add: gmtime_def Let_def split: prod.split)
  then show ?thesis using shown_mb_time [OF gmtime_ok assms] gmtime_posix gmtime_ok by simp
qed

section \<open>The loop\<close>

text \<open>A poll that no request ends keeps the tables and the variables of the program.\<close>

lemma poll_idle:
  assumes "Server_isOpen st" and "\<not> Server_isRunning st" and "receiveTask (snd st) \<in> {NoTask, Receiving}"
  shows "Server_poll K L M SV cb opn False st = Inr (0, fst st, (snd st)\<lparr>receiveTask := Receiving\<rparr>)"
  using assms by (cases st) (auto simp: Server_poll_def Let_def)

text \<open>The clock between two turns: it shows the time of the last reading that was later than the one of
  the start; before such a reading the registers are clear.\<close>

definition clock_date :: "int \<Rightarrow> int \<Rightarrow> int \<Rightarrow> u16 list" where
  "clock_date start shift before = (if start < before then mb_time (gmtime (before + shift)) else replicate 8 0)"

definition clock_right :: "int \<Rightarrow> int \<Rightarrow> 'c ckstate \<Rightarrow> bool" where
  "clock_right start shift st \<longleftrightarrow> start \<le> ck_before (snd st) \<and>
     (\<exists>c offset. shown_shift c offset = shift \<and> clock_shows c offset (clock_date start shift (ck_before (snd st))) st) \<and>
     data_wf 2 (ck_gmtoff (snd st)) \<and> m_endian (ck_gmtoff (snd st)) = EndianBigBig \<and>
     Server_isOpen st \<and> \<not> Server_isRunning st \<and> receiveTask (snd st) \<in> {NoTask, Receiving}"

lemma frame_tick:
  assumes "clock_tick M now st = Inr st'"
  shows "receiveTask (snd st') = receiveTask (snd st) \<and> daemon (snd st') = daemon (snd st) \<and> srv_dev (snd st') = srv_dev (snd st)"
proof -
  have f: "receiveTask (snd st1) = receiveTask (snd st0) \<and> daemon (snd st1) = daemon (snd st0) \<and> srv_dev (snd st1) = srv_dev (snd st0)"
    if "on_slave a f st0 = Inr (x, st1)" for a f st0 x and st1 :: "'a ckstate"
    using that by (auto simp: on_slave_def and_then_eq_Inr split: option.splits)
  show ?thesis
    using assms
    by (auto simp: clock_tick_def slave_get_def Let_def and_then_eq_Inr dest!: f split: if_splits)
qed

lemma turn_right:
  assumes "clock_right start shift st" and "fits_int shift"
    and "start < now \<Longrightarrow> fits_int (tm_year (gmtime (now + shift)))"
  shows "\<exists>st'. clock_turn K L M SV st (now, False) = Inr st' \<and> clock_right start shift st' \<and>
    ck_before (snd st') = max (ck_before (snd st)) now"
proof -
  let ?b = "ck_before (snd st)"
  obtain c offset where c: "shown_shift c offset = shift" "clock_shows c offset (clock_date start shift ?b) st"
    and g: "start \<le> ?b" "data_wf 2 (ck_gmtoff (snd st))" "m_endian (ck_gmtoff (snd st)) = EndianBigBig"
    and r: "Server_isOpen st" "\<not> Server_isRunning st" "receiveTask (snd st) \<in> {NoTask, Receiving}"
    using assms(1) by (auto simp: clock_right_def)
  obtain st1 where 1: "clock_tick M now st = Inr st1" "fst st1 = fst st" "ck_before (snd st1) = max ?b now"
    "clock_shows c offset (clock_date start shift (max ?b now)) st1"
    "data_wf 2 (ck_gmtoff (snd st1))" "m_endian (ck_gmtoff (snd st1)) = EndianBigBig"
  proof (cases "?b < now")
    case True
    then have "start < now" using g(1) by simp
    then show ?thesis
      using tick_shows [OF c(2) True g(2,3) refl, of M] assms(2,3) that True
      by (auto simp: c(1) max_def clock_date_def)
  next
    case False
    then show ?thesis using that [of st] c g by (simp add: clock_tick_def max_def)
  qed
  have r1: "Server_isOpen st1" "\<not> Server_isRunning st1" "receiveTask (snd st1) \<in> {NoTask, Receiving}"
    using r frame_tick [OF 1(1)] 1(2)
    by (simp_all add: Server_isOpen_def Server_isRunning_def Server_device_def)
  have "clock_right start shift (fst st1, (snd st1)\<lparr>receiveTask := Receiving\<rparr>)"
    using 1 c(1) r1 g(1)
    by (auto simp: clock_right_def clock_shows_def Server_isOpen_def Server_isRunning_def Server_device_def)
  then show ?thesis
    using 1(1,3) by (simp add: clock_turn_def poll_idle [OF r1])
qed

lemma loop_right:
  assumes "clock_right start shift st" and "fits_int shift"
    and "\<forall>now \<in> set nows. start < now \<longrightarrow> fits_int (tm_year (gmtime (now + shift)))"
  shows "\<exists>st'. clock_loop K L M SV (map (\<lambda>now. (now, False)) nows) st = Inr (False, st') \<and> clock_right start shift st' \<and>
    ck_before (snd st') = fold max nows (ck_before (snd st))"
  using assms
proof (induction nows arbitrary: st)
  case (Cons now nows)
  obtain st1 where 1: "clock_turn K L M SV st (now, False) = Inr st1" "clock_right start shift st1"
    "ck_before (snd st1) = max (ck_before (snd st)) now"
    using turn_right [OF Cons.prems(1,2), of now K L M SV] Cons.prems(3) by auto
  moreover have "Server_isOpen st1" using 1(2) by (simp add: clock_right_def)
  ultimately show ?case
    using Cons.IH [OF 1(2) Cons.prems(2)] Cons.prems(3) by (auto simp: max.commute)
qed simp

lemma fold_max_in: "fold max xs (x :: int) = x \<or> fold max xs x \<in> set xs \<and> x < fold max xs x"
proof (induction xs arbitrary: x)
  case (Cons y ys)
  from Cons [of "max y x"] show ?case by (auto simp: max_def split: if_splits)
qed simp

text \<open>The start leads to such a state.\<close>

lemma open_fields:
  assumes "Server_open K L SV st = Inr (True, st')"
  shows "Server_isOpen st' \<and> (\<exists>s q. snd st' = (snd st)\<lparr>sock := s, req := q\<rparr>)"
proof (cases "Device_isValid (Server_device st) \<and> \<not> Server_isOpen st")
  case True
  with assms obtain b st1 where o: "Server_Private_open K L SV st = Inr (b, st1)" and st': "st' = put_isOpen b st1"
    and "Server_isOpen st'"
    by (auto simp: Server_open_def Server_open_by_def and_then_eq_Inr)
  moreover have "\<exists>s q. snd st1 = (snd st)\<lparr>sock := s, req := q\<rparr>"
    using o
  proof (rule Server_Private_openE)
    fix l st2
    assume 1: "(case nl_net l of
        Tcp \<Rightarrow> and_then (server_call (Device_call (\<lambda>c. modbus_tcp_pi_listen SV c 1)) st)
                 (\<lambda>(s, w, v). Inr (s \<noteq> -1, w, v\<lparr>sock := s\<rparr>))
      | Rtu \<Rightarrow> server_call (Device_Private_open L) st
      | NoNet \<Rightarrow> Inr (False, st)) = Inr (b, st2)"
      and 2: "st1 = st2 \<or> (\<exists>m. st1 = (fst st2, (snd st2)\<lparr>req := Some m\<rparr>))"
    have "snd st2 = snd st \<or> (\<exists>s. snd st2 = (snd st)\<lparr>sock := s\<rparr>)"
      using 1 by (cases "nl_net l") (auto simp: and_then_eq_Inr dest!: server_call_world)
    then obtain s where s: "snd st2 = (snd st)\<lparr>sock := s\<rparr>"
      by (metis (no_types) server.surjective server.update_convs(2))
    show ?thesis
    proof (cases "st1 = st2")
      case True
      then have "snd st1 = (snd st)\<lparr>sock := s, req := req (snd st)\<rparr>" using s by simp
      then show ?thesis by blast
    next
      case False
      then obtain m where "snd st1 = (snd st2)\<lparr>req := Some m\<rparr>" using 2 by auto
      then have "snd st1 = (snd st)\<lparr>sock := s, req := Some m\<rparr>" using s by simp
      then show ?thesis by blast
    qed
  qed
  ultimately show ?thesis by simp
next
  case False
  with assms have "st' = st" "Server_isOpen st'" by (auto simp: Server_open_def Server_open_by_def)
  moreover have "snd st = (snd st)\<lparr>sock := sock (snd st), req := req (snd st)\<rparr>" by simp
  ultimately show ?thesis by metis
qed

definition same_thread :: "('c, 'a) sstate \<Rightarrow> ('c, 'a) sstate \<Rightarrow> bool" where
  "same_thread st st' \<longleftrightarrow> receiveTask (snd st') = receiveTask (snd st) \<and> daemon (snd st') = daemon (snd st) \<and>
     srv_dev (snd st') = srv_dev (snd st)"

lemma on_slave_thread: "on_slave a f st = Inr (x, st') \<Longrightarrow> same_thread st st'"
  by (auto simp: on_slave_def and_then_eq_Inr same_thread_def split: option.splits)

lemma clock_slave_thread: "clock_slave M A st = Inr st' \<Longrightarrow> same_thread st st'"
  by (auto simp: clock_slave_def add_slave_tables_def Server_addSlave_def Server_Private_addSlave_def and_then_eq_Inr
      same_thread_def dest!: on_slave_thread server_call_world split: if_splits)

lemma clock_slave_world:
  "clock_slave M A st = Inr st' \<Longrightarrow> Server_addSlave M st SlaveAddress None = Inr st1 \<Longrightarrow> fst st' = fst st1"
  by (auto simp: clock_slave_def add_slave_tables_def on_slave_def and_then_eq_Inr split: option.splits)

lemma clock_init_thread: "clock_init M now t st = Inr st' \<Longrightarrow> same_thread st st'"
  by (auto simp: clock_init_def slave_get_def and_then_eq_Inr Let_def same_thread_def dest!: on_slave_thread)

lemma start_right:
  assumes "srv_slaves (snd st) SlaveAddress = None" and "has_memory A" and "\<not> Server_isRunning st"
    and "receiveTask (snd st) = NoTask"
    and "and_then (and_then (clock_slave M A st) (clock_init M now0 t)) (Server_open K L SV) = Inr (True, st4)"
    and "fits_int (tm_gmtoff t)" and "shift = tm_gmtoff t + (if tm_isdst t > 0 then 3600 else 0)"
  shows "clock_right now0 shift st4 \<and> ck_before (snd st4) = now0"
proof -
  let ?c = "of_bool (tm_isdst t > 0) :: u8"
  obtain st2 st3 where 2: "clock_slave M A st = Inr st2" and 3: "clock_init M now0 t st2 = Inr st3"
    and 4: "Server_open K L SV st3 = Inr (True, st4)"
    using assms(5) by (auto simp: and_then_eq_Inr)
  obtain st1 where "Server_addSlave M st SlaveAddress None = Inr st1"
    using 2 unfolding clock_slave_def add_slave_tables_def by (rule and_then_InrE)
  then have c2: "clock_shows 0 [0, 0] (replicate 8 0) st2"
    using clock_slave_ready [OF assms(1) _ assms(2)] 2 by fastforce
  obtain offset where c3: "clock_shows ?c offset (replicate 8 0) st3" "shown_shift ?c offset = shift"
    "ck_before (snd st3) = now0" "data_wf 2 (ck_gmtoff (snd st3))" "m_endian (ck_gmtoff (snd st3)) = EndianBigBig"
    using clock_init_shows [OF c2 assms(6), of M now0] 3 assms(7) by auto
  obtain s q where o: "Server_isOpen st4" "snd st4 = (snd st3)\<lparr>sock := s, req := q\<rparr>"
    using open_fields [OF 4] by blast
  have "same_thread st st3"
    using clock_slave_thread [OF 2] clock_init_thread [OF 3] by (simp add: same_thread_def)
  then have "receiveTask (snd st4) = NoTask" "\<not> Server_isRunning st4"
    using o(2) assms(3,4) by (simp_all add: same_thread_def Server_isRunning_def)
  moreover have "clock_shows ?c offset (replicate 8 0) st4" using c3(1) o(2) by (simp add: clock_shows_def)
  ultimately show ?thesis
    using c3(2-5) o by (auto simp: clock_right_def clock_date_def)
qed

section \<open>Properties\<close>

lemma shown_to_masters:
  assumes "clock_shows c offset (mb_time (gmtime x)) st"
    and "0 \<le> tm_year (gmtime x) + 1900" and "tm_year (gmtime x) + 1900 < 65536"
  shows "\<exists>s regs. srv_slaves (snd st) SlaveAddress = Some s \<and>
    BufferedSlave_readInputRegisters M (fst st, s) 1 (replicate 8 0) 8 = Inr (8, regs, (fst st, s)) \<and>
    posix_seconds (shown_tm regs) = x \<and> tm_ok (shown_tm regs)"
proof -
  obtain s where s: "srv_slaves (snd st) SlaveAddress = Some s" "shows_tables c offset (mb_time (gmtime x)) s"
    using assms(1) by (auto simp: clock_shows_def)
  show ?thesis using s(1) date_read [OF s(2), of "replicate 8 0" M "fst st"] shown_gmtime [OF assms(2,3)] by simp
qed

lemma shift_of_offset:
  assumes "offset = m_registers (Data_of_value (bytes_of_int 4 g) EndianBigBig)" and "fits_int g"
  shows "shown_shift c offset = (if c \<noteq> 0 then 3600 else 0) + g"
  using assms int32_round_trip [OF assms(2)]
  by (simp add: shown_shift_def Data_of_value_def updateRegisters_words order_words_def bytes_of_int_def store16_load16)

text \<open>C11. When a second has passed, the clock reads the offset and the summer time that a master
  may have written into its tables, and the eight input registers become a date and time of the
  calendar that lies by just that offset, and an hour more in summer, after the time of the
  system: POSIX's formula for the seconds since 1970 gives it back from the registers.\<close>

theorem clock_shows_shifted_time:
  assumes "clock_shows c offset date st" and "ck_before (snd st) < now"
    and "data_wf 2 (ck_gmtoff (snd st))" and "m_endian (ck_gmtoff (snd st)) = EndianBigBig"
    and "offset = m_registers (Data_of_value (bytes_of_int 4 g) EndianBigBig)" and "fits_int g"
    and "shift = (if c \<noteq> 0 then 3600 else 0) + g" and "fits_int shift"
    and "0 \<le> tm_year (gmtime (now + shift)) + 1900" and "tm_year (gmtime (now + shift)) + 1900 < 65536"
  shows "\<exists>st' s regs. clock_tick M now st = Inr st' \<and> srv_slaves (snd st') SlaveAddress = Some s \<and>
    BufferedSlave_readInputRegisters M (fst st', s) 1 (replicate 8 0) 8 = Inr (8, regs, (fst st', s)) \<and>
    posix_seconds (shown_tm regs) = now + shift \<and> tm_ok (shown_tm regs)"
proof -
  have sh: "shown_shift c offset = shift" using shift_of_offset [OF assms(5,6)] assms(7) by simp
  have "fits_int (tm_year (gmtime (now + shift)))" using assms(9,10) by (simp add: fits_int_def)
  then obtain st' where st': "clock_tick M now st = Inr st'" "clock_shows c offset (mb_time (gmtime (now + shift))) st'"
    using tick_shows [OF assms(1-4) refl, of M] assms(8) by (auto simp: sh)
  then show ?thesis using shown_to_masters [OF st'(2) assms(9,10)] by blast
qed

text \<open>C27. The program from its start: it adds the slave and its tables, takes the time \<open>now0\<close> and the
  offset from \<open>localtime\<close>, opens the server, and then, as long as no request arrives, the loop goes
  on and neither throws nor does anything undefined, whatever the clock of the system gives. Until
  a reading later than \<open>now0\<close> the date registers are all zero; from the first such reading on they
  show the latest time that the clock has given, also when it is put back, by the offset that the
  start has stored. (The tables are allocated, no receiving thread is left from before, the
  offset and the year fit their types.)\<close>

theorem clock_loop_keeps_time:
  assumes "srv_slaves (snd st) SlaveAddress = None" and "has_memory A" and "\<not> Server_isRunning st"
    and "receiveTask (snd st) = NoTask"
    and "and_then (and_then (clock_slave M A st) (clock_init M now0 t)) (Server_open K L SV) = Inr (True, st1)"
    and "fits_int (tm_gmtoff t)" and "shift = tm_gmtoff t + (if tm_isdst t > 0 then 3600 else 0)" and "fits_int shift"
    and "\<forall>now \<in> set nows. now0 < now \<longrightarrow>
      0 \<le> tm_year (gmtime (now + shift)) + 1900 \<and> tm_year (gmtime (now + shift)) + 1900 < 65536"
  shows "\<exists>st' s regs. clock_loop K L M SV (map (\<lambda>now. (now, False)) nows) st1 = Inr (False, st') \<and>
    srv_slaves (snd st') SlaveAddress = Some s \<and>
    BufferedSlave_readInputRegisters M (fst st', s) 1 (replicate 8 0) 8 = Inr (8, regs, (fst st', s)) \<and>
    (if fold max nows now0 = now0 then regs = replicate 8 0
     else posix_seconds (shown_tm regs) = fold max nows now0 + shift)"
proof -
  note r = start_right [OF assms(1-7)]
  have "\<forall>now \<in> set nows. now0 < now \<longrightarrow> fits_int (tm_year (gmtime (now + shift)))"
    using assms(9) by (auto simp: fits_int_def)
  then obtain st' where st': "clock_loop K L M SV (map (\<lambda>now. (now, False)) nows) st1 = Inr (False, st')"
    "clock_right now0 shift st'" "ck_before (snd st') = fold max nows now0"
    using loop_right [OF conjunct1 [OF r] assms(8)] r by metis
  then obtain c offset where sh: "clock_shows c offset (clock_date now0 shift (fold max nows now0)) st'"
    by (auto simp: clock_right_def)
  show ?thesis
  proof (cases "fold max nows now0 = now0")
    case True
    then obtain s where s: "srv_slaves (snd st') SlaveAddress = Some s" "shows_tables c offset (replicate 8 0) s"
      using sh by (auto simp: clock_shows_def clock_date_def)
    then show ?thesis using date_read [OF s(2), of "replicate 8 0" M "fst st'"] st'(1) True by simp
  next
    case False
    then have m: "fold max nows now0 \<in> set nows" "now0 < fold max nows now0" using fold_max_in by blast+
    then show ?thesis
      using shown_to_masters [of c offset "fold max nows now0 + shift" st' M] sh assms(9) st'(1) False
      by (auto simp: clock_date_def)
  qed
qed

text \<open>C28. In summer the clock is an hour ahead of the local time: the offset that the program takes
  from \<open>localtime\<close> is that of the summer time already (C and POSIX have \<open>tm_gmtoff\<close> so, and local time
  is the time of the system plus it), and the first turn adds the hour of the coil, which the
  program has set from \<open>tm_isdst\<close>, once more.\<close>

theorem clock_counts_summer_time_twice:
  assumes "srv_slaves (snd st) SlaveAddress = None" and "Server_addSlave M st SlaveAddress None = Inr st1"
    and "has_memory A" and "fits_int (tm_gmtoff t)" and "now0 < now"
    and "x = now + tm_gmtoff t + (if tm_isdst t > 0 then 3600 else 0)" and "fits_int (x - now)"
    and "0 \<le> tm_year (gmtime x) + 1900" and "tm_year (gmtime x) + 1900 < 65536"
  shows "\<exists>st' s regs. and_then (and_then (clock_slave M A st) (clock_init M now0 t)) (clock_tick M now) = Inr st' \<and>
    srv_slaves (snd st') SlaveAddress = Some s \<and>
    BufferedSlave_readInputRegisters M (fst st', s) 1 (replicate 8 0) 8 = Inr (8, regs, (fst st', s)) \<and>
    posix_seconds (shown_tm regs) = x"
proof -
  let ?c = "of_bool (tm_isdst t > 0) :: u8"
  obtain st2 where 2: "clock_slave M A st = Inr st2" "clock_shows 0 [0, 0] (replicate 8 0) st2"
    using clock_slave_ready [OF assms(1-3)] by blast
  obtain st3 offset where 3: "clock_init M now0 t st2 = Inr st3" "clock_shows ?c offset (replicate 8 0) st3"
    "shown_shift ?c offset = x - now" "ck_before (snd st3) = now0"
    "data_wf 2 (ck_gmtoff (snd st3))" "m_endian (ck_gmtoff (snd st3)) = EndianBigBig"
    using clock_init_shows [OF 2(2) assms(4), of M now0] assms(6) by auto
  have "fits_int (tm_year (gmtime x))" using assms(8,9) by (simp add: fits_int_def)
  then obtain st4 where 4: "clock_tick M now st3 = Inr st4" "clock_shows ?c offset (mb_time (gmtime x)) st4"
    using tick_shows [OF 3(2) _ 3(5,6), of now x M] assms(5,7) by (auto simp: 3(3,4))
  from shown_to_masters [OF 4(2) assms(8,9)] 2(1) 3(1) 4(1) show ?thesis by (simp del: and_then_eq_Inr) blast
qed

section \<open>Witnesses\<close>

text \<open>The program after its start in summer, two hours ahead of GMT; then the masters' changes.\<close>

definition sample_clock_slave :: bslave where
  "sample_clock_slave = (BufferedSlave_Private_at \<lparr>
     map_bits = \<lparr>blk_start = 0, blk_nb = 1, blk_tab = Some [1]\<rparr>, map_input_bits = empty_block,
     map_registers = \<lparr>blk_start = 0, blk_nb = 2, blk_tab = Some [0, 0x1C20]\<rparr>,
     map_input_registers = \<lparr>blk_start = 0, blk_nb = 8, blk_tab = Some (mb_time (gmtime 10800))\<rparr>\<rparr> 10 None)"

definition sample_clock :: "nat ckstate" where
  "sample_clock = (sample_world, server.extend ((Server_Private 0)\<lparr>srv_slaves := [10 \<mapsto> sample_clock_slave]\<rparr>)
     \<lparr>ck_before = 0, ck_daylight = 1, ck_gmtoff = Data_default 4 EndianBigBig\<rparr>)"

lemma sample_clock_shows: "clock_shows 1 [0, 0x1C20] (mb_time (gmtime 10800)) sample_clock"
  by (simp add: clock_shows_def shows_tables_def sample_clock_def sample_clock_slave_def server.extend_def
      SlaveAddress_def BufferedSlave_Private_at_def BufferedSlave_Private_def Slave_Private_def slave.extend_def
      Server_Private_def)

lemma sample_clock_vars:
  "ck_before (snd sample_clock) = 0" "data_wf 2 (ck_gmtoff (snd sample_clock))"
  "m_endian (ck_gmtoff (snd sample_clock)) = EndianBigBig"
  by (simp_all add: sample_clock_def server.extend_def data_wf_def Data_default_def updateRegisters_length)

lemma sample_offset: "[0, 0x1C20] = m_registers (Data_of_value (bytes_of_int 4 7200) EndianBigBig)"
proof -
  have "bytes_of_int 4 7200 = [0x20, 0x1C, 0, 0]" by (simp add: bytes_of_int_def le_bytes_def upt_rec)
  then show ?thesis by (simp add: Data_of_value_def updateRegisters_words order_words_def word_be_def)
qed

lemma sample_year: "tm_year (gmtime 1574966437) = 119" "tm_year (gmtime 10800) = 70"
  by code_simp+

theorem clock_shows_shifted_time_witness:
  "\<exists>st' s regs. clock_tick sample_client 1574955637 sample_clock = Inr st' \<and> srv_slaves (snd st') SlaveAddress = Some s \<and>
    BufferedSlave_readInputRegisters sample_client (fst st', s) 1 (replicate 8 0) 8 = Inr (8, regs, (fst st', s)) \<and>
    posix_seconds (shown_tm regs) = 1574966437 \<and> tm_ok (shown_tm regs)"
  using clock_shows_shifted_time [OF sample_clock_shows _ sample_clock_vars(2,3) sample_offset, of 1574955637 10800 sample_client]
  by (simp add: sample_clock_vars(1) fits_int_def sample_year)

lemma sample_opens:
  assumes "Server_device st = (sample_device 0)\<lparr>dev_isOpen := False\<rparr>"
  shows "\<exists>st'. Server_open libmodbus_values sample_link sample_server_api st = Inr (True, st')"
proof -
  let ?K = libmodbus_values and ?l = "the (dev_backend (sample_device 0))"
  have l: "dev_backend (Server_device st) = Some ?l" "nl_net ?l = Tcp" and ok: "layer_ok ?K ?l"
    by (simp_all add: assms sample_device_def layer_ok_def libmodbus_values_def)
  obtain w v where c: "server_call (Device_call (\<lambda>c. modbus_tcp_pi_listen sample_server_api c 1)) st = Inr (3, w, v)"
    and d: "Server_device (w, v) = Server_device st"
    using l by (simp add: server_call_exact Server_device_def sample_server_api_def)
  obtain m where "Message_Private_layer ?K ?l = Inr m"
    using Message_Private_layer_wf [OF consts_ok_values ok] by blast
  then have "Request_device ?K (Server_device (w, v)) = Inr m"
    using l(1) by (simp add: d Request_device_def Device_backend_def Request_layer_def)
  then have "\<exists>st1. Server_Private_open ?K sample_link sample_server_api st = Inr (True, st1)"
    using l c by (cases "req v") (simp_all add: Server_Private_open_def)
  then obtain st1 where "Server_Private_open ?K sample_link sample_server_api st = Inr (True, st1)" ..
  then have "Server_open ?K sample_link sample_server_api st = Inr (True, put_isOpen True st1)"
    by (simp add: Server_open_def Server_open_by_def Server_isOpen_def Device_isOpen_def Device_isValid_def assms sample_device_def)
  then show ?thesis ..
qed

theorem clock_loop_keeps_time_witness:
  "\<exists>st1 st' s regs. clock_loop libmodbus_values sample_link sample_client sample_server_api
      [(0, False), (1574955637, False), (0, False)] st1 = Inr (False, st') \<and>
    srv_slaves (snd st') SlaveAddress = Some s \<and>
    BufferedSlave_readInputRegisters sample_client (fst st', s) 1 (replicate 8 0) 8 = Inr (8, regs, (fst st', s)) \<and>
    posix_seconds (shown_tm regs) = 1574966437"
proof -
  let ?K = libmodbus_values
  let ?w = "sample_world\<lparr>w_devices := \<lambda>_. (sample_device 0)\<lparr>dev_isOpen := False\<rparr>\<rparr>"
  let ?st = "(?w, (snd sample_clock)\<lparr>srv_slaves := Map.empty\<rparr>)"
  let ?t = "(gmtime 0)\<lparr>tm_isdst := 1, tm_gmtoff := 7200\<rparr>"
  have start: "srv_slaves (snd ?st) SlaveAddress = None" "\<not> Server_isRunning ?st" "receiveTask (snd ?st) = NoTask"
    by (simp_all add: sample_clock_def server.extend_def Server_Private_def Server_isRunning_def)
  have mem: "has_memory sample_memory" using sample_memory_ok by (simp add: has_memory_def sample_memory_def)
  have add: "\<exists>v. Server_addSlave sample_client ?st SlaveAddress None = Inr (?w, v)"
    by (simp add: Server_addSlave_def Server_Private_addSlave_def Server_isOpen_def Server_device_def Device_isOpen_def
        server_call_def on_device_def Device_call_def on_ctx_def sample_clock_def sample_device_def server.extend_def
        sample_world_def sample_client_def SlaveAddress_def Server_Private_def fun_upd_idem)
  then obtain st2 where 2: "clock_slave sample_client sample_memory ?st = Inr st2" "clock_shows 0 [0, 0] (replicate 8 0) st2"
    using clock_slave_ready [OF start(1) _ mem] by blast
  obtain st3 where 3: "clock_init sample_client 0 ?t st2 = Inr st3" "fst st3 = fst st2"
    using clock_init_shows [OF 2(2), of ?t sample_client 0] by (auto simp: fits_int_def)
  have "fst st2 = ?w" using add clock_slave_world [OF 2(1)] by auto
  moreover have "srv_dev (snd st3) = 0"
    using clock_slave_thread [OF 2(1)] clock_init_thread [OF 3(1)]
    by (simp add: same_thread_def sample_clock_def server.extend_def Server_Private_def)
  ultimately have "Server_device st3 = (sample_device 0)\<lparr>dev_isOpen := False\<rparr>"
    using 3(2) by (simp add: Server_device_def)
  from sample_opens [OF this] obtain st1 where
    o: "and_then (and_then (clock_slave sample_client sample_memory ?st) (clock_init sample_client 0 ?t))
        (Server_open ?K sample_link sample_server_api) = Inr (True, st1)"
    using 2(1) 3(1) by auto
  have "\<exists>st' s regs. clock_loop ?K sample_link sample_client sample_server_api
      (map (\<lambda>now. (now, False)) [0, 1574955637, 0]) st1 = Inr (False, st') \<and>
    srv_slaves (snd st') SlaveAddress = Some s \<and>
    BufferedSlave_readInputRegisters sample_client (fst st', s) 1 (replicate 8 0) 8 = Inr (8, regs, (fst st', s)) \<and>
    (if fold max [0, 1574955637, 0] 0 = (0 :: int) then regs = replicate 8 0
     else posix_seconds (shown_tm regs) = fold max [0, 1574955637, 0] 0 + 10800)"
    by (rule clock_loop_keeps_time [OF start(1) mem start(2,3) o]) (use sample_year in \<open>simp_all add: fits_int_def\<close>)
  then show ?thesis unfolding list.map by (rule_tac exI [of _ st1]) (simp del: clock_loop.simps split_paired_Ex)
qed

text \<open>28 November 2019 as a day of summer time.\<close>

theorem clock_counts_summer_time_twice_witness:
  "\<exists>st1 st' s regs. Server_addSlave sample_client (fst sample_clock\<lparr>w_devices := \<lambda>_. (sample_device 0)\<lparr>dev_isOpen := False\<rparr>\<rparr>,
       (snd sample_clock)\<lparr>srv_slaves := Map.empty\<rparr>) SlaveAddress None = Inr st1 \<and>
    and_then (and_then (clock_slave sample_client sample_memory (fst sample_clock\<lparr>w_devices := \<lambda>_. (sample_device 0)\<lparr>dev_isOpen := False\<rparr>\<rparr>,
       (snd sample_clock)\<lparr>srv_slaves := Map.empty\<rparr>)) (clock_init sample_client 0 ((gmtime 0)\<lparr>tm_isdst := 1, tm_gmtoff := 7200\<rparr>)))
       (clock_tick sample_client 1574955637) = Inr st' \<and>
    srv_slaves (snd st') SlaveAddress = Some s \<and>
    BufferedSlave_readInputRegisters sample_client (fst st', s) 1 (replicate 8 0) 8 = Inr (8, regs, (fst st', s)) \<and>
    posix_seconds (shown_tm regs) = 1574955637 + 7200 + 3600"
proof -
  let ?st = "(fst sample_clock\<lparr>w_devices := \<lambda>_. (sample_device 0)\<lparr>dev_isOpen := False\<rparr>\<rparr>, (snd sample_clock)\<lparr>srv_slaves := Map.empty\<rparr>)"
  have "\<exists>st1. Server_addSlave sample_client ?st SlaveAddress None = Inr st1"
    by (simp add: Server_addSlave_def Server_Private_addSlave_def Server_isOpen_def Server_device_def Device_isOpen_def
        server_call_def on_device_def Device_call_def on_ctx_def Device_backend_def sample_clock_def sample_world_def sample_device_def
        sample_client_def SlaveAddress_def)
  moreover have "has_memory sample_memory" using sample_memory_ok by (simp add: has_memory_def sample_memory_def)
  ultimately show ?thesis
    using clock_counts_summer_time_twice [of ?st sample_client _ sample_memory "(gmtime 0)\<lparr>tm_isdst := 1, tm_gmtoff := 7200\<rparr>" 0
        1574955637 1574966437] sample_year
    by (auto simp: fits_int_def simp del: and_then_eq_Inr)
qed

end
