(* ===== verification/Callback_Server.thy ===== *)
theory Callback_Server
  imports Message_Transport Message_Ranges Popl_Options
begin

text \<open>
  The message handler of \<open>examples/server/callback-server-json/main.cpp\<close>: a program that answers
  requests for input registers by itself, with the values of a counter, through the callback of
  the server for messages that no slave of its own takes.
\<close>

section \<open>The handler\<close>

text \<open>The server with the static counter \<open>dummy\<close> and what the program has printed.\<close>

record callback_server = server +
  dummy :: u16
  cb_out :: string

type_synonym 'c cbstate = "'c world \<times> callback_server"

text \<open>\<open>for (uint16_t i = 0; i < N; i++) rsp.setRegisterValue (index + i, dummy++);\<close>\<close>

fun put_dummies :: "nat \<Rightarrow> message \<Rightarrow> u16 \<Rightarrow> u16 \<Rightarrow> (message \<times> u16) res" where
  "put_dummies 0 rsp index d = Inr (rsp, d)"
| "put_dummies (Suc n) rsp index d =
     and_then (Response_setRegisterValue rsp index d) (\<lambda>rsp'. put_dummies n rsp' (index + 1) (d + 1))"

definition build_response :: "message \<Rightarrow> u16 \<Rightarrow> (message \<times> u16) res" where
  "build_response r d =
     and_then (Message_quantity r) (\<lambda>N.
     and_then (Message_startingAddress r) (\<lambda>index.
     and_then (Response_setByteCount (Message_setSize (Response_from r) 1) (ucast (N * 2))) (\<lambda>rsp.
     put_dummies (unat N) rsp index d)))"

text \<open>\<open>dev->sendRawMessage (rsp, true)\<close>: a response is sent once, so that one turn of the loop of
  the device is enough (lemma \<open>response_sent_once\<close>).\<close>

definition send_response ::
    "'c modbus_link \<Rightarrow> 'c rtu_api \<Rightarrow> message \<Rightarrow> 'c dev_state \<Rightarrow> (int \<times> 'c dev_state) res" where
  "send_response L R rsp st =
     (case Device_sendRawMessage 1 L R st rsp True of
        None \<Rightarrow> Inl Undefined_behaviour
      | Some r \<Rightarrow> and_then r (\<lambda>(rc, st', _). Inr (rc, st')))"

text \<open>Both arguments of the callback are the server's: its request and itself.\<close>

definition messageHandler :: "'c modbus_link \<Rightarrow> 'c rtu_api \<Rightarrow> 'c cbstate \<Rightarrow> (int \<times> 'c cbstate) res" where
  "messageHandler L R st =
     (case req (snd st) of
        None \<Rightarrow> Inl Undefined_behaviour
      | Some r \<Rightarrow>
          let st0 = (fst st, (snd st)\<lparr>cb_out := cb_out (snd st) @ ''Receive message, size : '' @ decimal (aduSize r) @ newline\<rparr>)
          in and_then (Message_function r) (\<lambda>f.
             if f = ReadInputRegisters
             then and_then (build_response r (dummy (snd st))) (\<lambda>(rsp, d).
                  and_then (server_call (send_response L R rsp) st0) (\<lambda>(rc, w, v).
                  Inr (rc, w, v\<lparr>dummy := d\<rparr>)))
             else Inr (0, st0)))"

text \<open>The program installs the handler as its callback number 0.\<close>

definition handler_callbacks :: "'c modbus_link \<Rightarrow> 'c rtu_api \<Rightarrow> ('c, \<lparr>dummy :: u16, cb_out :: string\<rparr>) callbacks" where
  "handler_callbacks L R n st = messageHandler L R st"

text \<open>The task of the server calls it for a message to a slave that the server does not have.\<close>

lemma task_calls_handler:
  assumes "req (snd st) = Some r" and "messageCB (snd st) = Some (Some n)" and "Message_slave r = Inr b"
    and "srv_slaves (snd st) (uint b) = None" and "0 < rc"
  shows "Server_task K L M SV (handler_callbacks L R) opn rc st = messageHandler L R st"
  using assms by (simp add: Server_task_def Server_hasSlave_def Server_messageCallback_def handler_callbacks_def)

section \<open>The response\<close>

lemma response_sent_once:
  assumes "isResponse rsp"
  shows "Device_sendLoop 1 L R st rsp \<noteq> None"
  using assms by (auto split: sum.splits)

text \<open>The loop is that of the range accessor, on the values of the counter.\<close>

definition dummies :: "u16 \<Rightarrow> nat \<Rightarrow> u16 list" where
  "dummies d n = map (\<lambda>i. d + of_nat i) [0..<n]"

lemma dummies_simps [simp]: "dummies d 0 = []" "dummies d (Suc n) = d # dummies (d + 1) n"
  by (simp_all add: dummies_def map_upt_Suc add.assoc del: upt_Suc)

lemma dummies_length [simp]: "length (dummies d n) = n"
  by (simp add: dummies_def)

lemma put_dummies_loop:
  "put_dummies n rsp index d = and_then (set_loop Response_setRegisterValue rsp index n (dummies d n)) (\<lambda>r. Inr (r, d + of_nat n))"
  by (induction n arbitrary: rsp index d)
    (auto simp: and_then_def add.assoc split: sum.splits)

lemma register_size: "Response_setRegisterValue m i v = Inr m' \<Longrightarrow> aduSize m' = max (aduSize m) (nat (pduBegin m + 2 + 2 * uint i + 2))"
  by (auto simp: Response_setRegisterValue_def algebra_simps dest: setWord_size)

lemma registers_shape: "set_loop Response_setRegisterValue m index n vs = Inr m' \<Longrightarrow> same_shape m m'"
proof (induction n arbitrary: m index vs)
  case (Suc n)
  then show ?case
    by (cases vs) (auto simp: and_then_eq_Inr Response_setRegisterValue_def dest!: setWord_shape intro: same_shape_trans)
qed simp

lemma registers_size:
  assumes "set_loop Response_setRegisterValue m index n vs = Inr m'" and "uint index + int n \<le> 65536" and "0 < n"
    and "0 \<le> pduBegin m"
  shows "aduSize m' = max (aduSize m) (nat (pduBegin m + 2 + 2 * (uint index + int n)))"
  using assms
proof (induction n arbitrary: m index vs)
  case (Suc n)
  then obtain v ws t where t: "Response_setRegisterValue m index v = Inr t"
    "set_loop Response_setRegisterValue t (index + 1) n ws = Inr m'"
    by (cases vs) (auto simp: and_then_eq_Inr)
  have pb: "pduBegin t = pduBegin m"
    using t(1) by (auto simp: Response_setRegisterValue_def dest!: setWord_shape same_shapeD(2))
  show ?case
  proof (cases n)
    case 0
    then show ?thesis using t register_size [OF t(1)] by (simp add: algebra_simps)
  next
    case (Suc k)
    have u: "uint (index + 1) = uint index + 1"
      using Suc.prems(2) Suc by (simp add: uint_word_ariths mod_pos_pos_trivial)
    then have "aduSize m' = max (aduSize t) (nat (pduBegin m + 2 + 2 * (uint index + int (Suc n))))"
      using Suc.IH [OF t(2)] Suc.prems(2,4) Suc pb by (simp add: algebra_simps)
    moreover have "nat (pduBegin m + 2 + 2 * uint index + 2) \<le> nat (pduBegin m + 2 + 2 * (uint index + int (Suc n)))"
      by (intro nat_mono) simp
    ultimately show ?thesis using register_size [OF t(1)] by linarith
  qed
qed simp

lemma registers_out:
  assumes "j \<in> span index n" and "\<not> in_buf m (2 + 2 * uint j) 2" and "n \<le> length vs" and "n \<le> 65536"
  shows "set_loop Response_setRegisterValue m index n vs = Inl Undefined_behaviour"
  using assms
proof (induction n arbitrary: m index vs)
  case (Suc n)
  then obtain v ws where vs: "vs = v # ws" by (cases vs) auto
  have u: "Response_setRegisterValue m i x = Inl Undefined_behaviour \<or> (\<exists>t. Response_setRegisterValue m i x = Inr t)" for m i x
    by (auto simp: Response_setRegisterValue_def Message_setWord_def Let_def and_then_def vset_def split: sum.splits if_splits)
  show ?case
  proof (cases "Response_setRegisterValue m index v")
    case (Inr t)
    then have s: "same_shape m t" by (auto simp: Response_setRegisterValue_def dest: setWord_shape)
    have "in_buf m (2 + 2 * uint index) 2"
      using Inr setWord_defined [of m "2 + uint index * 2" v] by (auto simp: Response_setRegisterValue_def mult.commute)
    then have "j \<in> span (index + 1) n" using Suc.prems(1,2) by (auto simp: span_Suc)
    then show ?thesis
      using Suc.IH [of "index + 1" t ws] Suc.prems(2-4) vs Inr by (simp add: in_buf_same [OF s])
  qed (use u [of m index v] vs in auto)
qed simp

section \<open>What the client gets\<close>

text \<open>The response before the registers: a copy of the request, cut behind the function code, with
  the byte count.\<close>

lemma response_head:
  assumes "msg_wf r" and "in_buf r 0 2"
  obtains h where "Response_setByteCount (Message_setSize (Response_from r) 1) b = Inr h"
    "same_shape (r\<lparr>isResponse := True\<rparr>) h" "aduSize h = nat (pduBegin r + 2)"
    "\<And>j. Message_byte h j = (if j = 1 then Inr b else Message_byte r j)"
proof -
  let ?m = "(Response_from r)\<lparr>aduSize := nat (pduBegin r + 1)\<rparr>"
  have "in_buf ?m 1 1" using assms(2) by (simp add: in_buf_def Response_from_def)
  then obtain h where h: "Message_setByte ?m 1 b = Inr h" using setByte_defined by blast
  have "same_shape ?m h" using h setByte_shape by blast
  then have s: "same_shape (r\<lparr>isResponse := True\<rparr>) h" by (simp add: same_shape_def Response_from_def)
  have "aduSize h = nat (pduBegin r + 2)" using setByte_size [OF h] assms(1) by (simp add: Response_from_def msg_wf_def)
  moreover have "Message_byte h j = (if j = 1 then Inr b else Message_byte r j)" for j
    using msg_bytes.get_set [OF h, of j] by (simp add: Response_from_def Message_byte_def)
  ultimately show ?thesis
    using that [of h] h s by (simp add: Response_setByteCount_def Message_setSize_def Response_from_def)
qed

lemma response_built:
  assumes "msg_wf r" and "Message_quantity r = Inr N" and "Message_startingAddress r = Inr a" and "0 < N"
    and "in_buf r 2 (2 * (uint a + uint N))"
  shows "\<exists>rsp. build_response r d = Inr (rsp, d + N) \<and> same_shape (r\<lparr>isResponse := True\<rparr>) rsp \<and> msg_wf rsp \<and>
    Message_size rsp = nat (2 + 2 * (uint a + uint N)) \<and>
    (\<forall>j < 2. Message_byte rsp j = (if j = 1 then Inr (ucast (N * 2)) else Message_byte r j)) \<and>
    Response_registerValues rsp a N = Inr (dummies d (unat N)) \<and>
    (\<forall>j. j \<notin> span a (unat N) \<longrightarrow> Response_registerValue rsp j = Message_word r (2 + 2 * uint j))"
proof -
  have n: "0 < unat N" using assms(4) by (simp add: word_less_nat_alt)
  have pb: "1 \<le> pduBegin r" "length (adu r) < 65536" using assms(1) wf_length [OF assms(1)] by (simp_all add: msg_wf_def)
  have nn: "0 \<le> uint a" "0 \<le> uint N" by simp_all
  have le: "pduBegin r + 2 + 2 * (uint a + uint N) \<le> int (length (adu r))" using assms(5) by (simp only: in_buf_def)
  moreover have ge: "pduBegin r + 2 \<le> pduBegin r + 2 + 2 * (uint a + uint N)" using nn by presburger
  ultimately have "pduBegin r + 2 \<le> int (length (adu r))" by (rule order_trans [rotated])
  then have room: "in_buf r 0 2" using pb(1) by (simp add: in_buf_def)
  obtain h where h: "Response_setByteCount (Message_setSize (Response_from r) 1) (ucast (N * 2)) = Inr h"
    "same_shape (r\<lparr>isResponse := True\<rparr>) h" "aduSize h = nat (pduBegin r + 2)"
    "\<And>j. Message_byte h j = (if j = 1 then Inr (ucast (N * 2)) else Message_byte r j)"
    using response_head [OF assms(1) room, where b = "ucast (N * 2)"] by blast
  have sh: "pduBegin h = pduBegin r" "length (adu h) = length (adu r)" using same_shapeD(2,7) [OF h(2)] by simp_all
  have buf: "in_buf h 2 (2 * (uint a + int (unat N)))" using assms(5) sh by (simp add: in_buf_def)
  have "\<exists>x. Response_registerValue h j = Inr x" if "j \<in> span a (unat N)" for j
    using register_defined [OF buf _ _ that] pb(1) sh by (simp add: Response_registerValue_def)
  then obtain rsp where rsp: "set_loop Response_setRegisterValue h a (unat N) (dummies d (unat N)) = Inr rsp"
    using rsp_regs.set_loop_defined [of a "unat N" h "dummies d (unat N)"] by auto
  have s: "same_shape (r\<lparr>isResponse := True\<rparr>) rsp" using same_shape_trans [OF h(2) registers_shape [OF rsp]] .
  have small: "uint a + int (unat N) \<le> 65536" using le pb nn by simp
  have size: "aduSize rsp = nat (pduBegin r + 2 + 2 * (uint a + uint N))"
    using registers_size [OF rsp small n] h(3) pb(1) sh max_absorb2 [OF nat_mono [OF ge]] by simp
  have wf': "msg_wf (r\<lparr>isResponse := True\<rparr>)" using assms(1) by (auto simp: msg_wf_def)
  have len': "aduSize rsp \<le> length (adu (r\<lparr>isResponse := True\<rparr>))" using le by (simp add: size nat_le_iff)
  have front: "Message_byte rsp j = Message_byte h j" if "j < 2" for j
    by (rule set_loop_keeps [OF _ rsp, where f = "\<lambda>m. Message_byte m j"])
      (auto simp: Response_setRegisterValue_def intro: set_register_front that)
  have "Response_registerValue rsp j = Message_word r (2 + 2 * uint j)" if "j \<notin> span a (unat N)" for j
  proof -
    have "0 \<le> uint j" by simp
    then have "2 + 2 * uint j \<noteq> 1" "2 + 2 * uint j + 1 \<noteq> 1" by presburger+
    then have "Response_registerValue h j = Message_word r (2 + 2 * uint j)"
      using h(4) [of "2 + 2 * uint j"] h(4) [of "2 + 2 * uint j + 1"]
      by (simp add: Response_registerValue_def word_bytes mult.commute [of "uint j"])
    then show ?thesis using rsp_regs.set_loop_other [OF rsp that] by simp
  qed
  moreover have "build_response r d = Inr (rsp, d + N)"
    using assms(2,3) h(1) rsp by (simp add: build_response_def put_dummies_loop)
  moreover have "msg_wf rsp"
    by (rule shape_wf [OF s wf' len'])
  moreover have "Message_size rsp = nat (2 + 2 * (uint a + uint N))"
    using size same_shapeD(2) [OF s] pb ge by (simp add: Message_size_def)
  moreover have "Response_registerValues rsp a N = Inr (dummies d (unat N))"
    using rsp_regs.get_loop_set_loop [OF rsp count_le] by (simp add: Response_registerValues_def)
  ultimately show ?thesis using s front h(4) by auto
qed

section \<open>Sending it\<close>

text \<open>A link that takes every byte: the whole frame is transmitted, and the result is -1 all the same.\<close>

lemma response_sent:
  assumes "dev_backend (snd st) = Some l" and "NetLayer_prepareToSend l rsp = Inr (True, l', m')"
    and "msg_wf rsp" and "net rsp = Tcp \<longrightarrow> pduBegin rsp = 7" and "same_shape rsp m'" and "isResponse rsp"
    and "\<And>c bs. fst (sys_write L c bs) = int (length bs) \<and> fst (sys_send L c bs) = int (length bs)"
  shows "\<exists>e' d'. Device_sendOnce L R (fst st, (snd st)\<lparr>dev_backend := Some l'\<rparr>) m' = Inr (int (aduSize m'), e', d') \<and>
    send_response L R rsp st = Inr (-1, EMBBADDATA, d')"
proof -
  note f = framed [OF assms(2-4)]
  have nl: "nl_net l' \<noteq> NoNet"
    using assms(2) f(1) by (auto simp: NetLayer_prepareToSend_def RtuLayer_prepareToSend_def TcpLayer_prepareToSend_def
        and_then_eq_Inr Let_def split: Net.splits if_splits)
  have pb: "1 \<le> pduBegin m'" "isResponse m'" using assms(3,6) same_shapeD(2,4) [OF assms(5)] by (simp_all add: msg_wf_def)
  have pos: "0 < aduSize m'" using f(2,3) assms(3) by (auto simp: Message_size_def msg_wf_def split: if_splits)
  let ?s = "(fst st, (snd st)\<lparr>dev_backend := Some l'\<rparr>)"
  obtain e' l2 where "NetLayer_sendRawMessage L R (fst st) l' m' = Inr (int (aduSize m'), e', l2)"
    using NetLayer_send_rc [of m' l' "int (aduSize m')" L R "fst st"] f(4) nl assms(7) by auto
  then obtain d' where once: "Device_sendOnce L R ?s m' = Inr (int (aduSize m'), e', d')"
    using Device_sendOnce_rc [of ?s l'] by fastforce
  have "int (aduSize m') \<noteq> int (Message_size m')" using pb(1) pos by (auto simp: Message_size_def split: if_splits)
  then have "Device_sendRawMessage 1 L R st rsp True = Some (Inr (-1, (EMBBADDATA, d'), m'))"
    using once assms(1,2) pos pb(2) by (simp add: Device_sendRawMessage_def Device_isValid_def Device_backend_def)
  then show ?thesis using once by (simp add: send_response_def)
qed

text \<open>The link of a master delivers the frame of \<open>m'\<close>, for which the message \<open>resp\<close> has room.\<close>

definition delivers :: "'c modbus_master \<Rightarrow> 'c mstate \<Rightarrow> message \<Rightarrow> message \<Rightarrow> bool" where
  "delivers MM st m' resp \<longleftrightarrow>
     (\<exists>lm e c. dev_backend (Master_device st) = Some lm \<and> nl_net lm = net m' \<and>
       modbus_receive_confirmation MM (ctx lm) = (frame_bytes m', int (aduSize m'), e, c)) \<and>
     aduSize m' \<le> length (adu resp) \<and> pduBegin resp = pduBegin m'"

lemma delivered_read:
  assumes "NetLayer_prepareToSend l m = Inr (True, l', m')" and "msg_wf m" and "net m = Tcp \<longrightarrow> pduBegin m = 7"
    and "same_shape m m'" and "delivers MM st m' resp"
  shows "\<exists>st' resp'. Master_receiveResponse_msg MM st resp = Inr (int (aduSize m'), resp', st') \<and>
    aduSize resp' = aduSize m \<and> Message_size resp' = Message_size m \<and> reads_like m resp'"
proof -
  obtain lm e c where "dev_backend (Master_device st) = Some lm" "nl_net lm = net m"
    "modbus_receive_confirmation MM (ctx lm) = (frame_bytes m', int (aduSize m'), e, c)"
    "aduSize m' \<le> length (adu resp)" "pduBegin resp = pduBegin m"
    using assms(5) same_shapeD(1,2) [OF assms(4)] by (auto simp: delivers_def)
  then show ?thesis by (rule response_delivered [OF assms(1-3)])
qed

lemma registers_like:
  assumes "reads_like m r" and "2 + 2 * (uint i + int n) \<le> int (Message_size m)"
  shows "get_loop Response_registerValue r i n = get_loop Response_registerValue m i n"
proof (rule get_loop_cong)
  fix j assume "j \<in> span i n"
  then have "0 \<le> uint j" "uint j < uint i + int n" by (simp_all add: span_bound)
  then have "-1 \<le> 2 + uint j * 2" "2 + uint j * 2 + 1 < int (Message_size m)" using assms(2) by presburger+
  then show "Response_registerValue r j = Response_registerValue m j"
    using assms(1) by (simp add: reads_like_def Response_registerValue_def word_bytes)
qed

section \<open>Properties\<close>

text \<open>C10. A client that asks the program for N input registers from address 0 on, over RTU or TCP, of a
  slave that the server does not have, gets the next N values of its counter: the response is framed and handed to the link whole, and
  a master that receives the frame reads the N values from it. The handler returns -1 all the same,
  because \<open>sendRawMessage\<close> takes the complete transmission for a failure.\<close>

theorem callback_client_reads_counter:
  assumes "req (snd st) = Some r" and "msg_wf r" and "Message_function r = Inr ReadInputRegisters"
    and "Message_quantity r = Inr N" and "Message_startingAddress r = Inr 0" and "0 < N"
    and "dev_backend (Server_device st) = Some l" and "nl_net l = net r" and "net r \<noteq> NoNet"
    and "net r = Tcp \<longrightarrow> pduBegin r = 7" and "in_buf r 2 (2 * uint N + (if net r = Rtu then 2 else 0))"
    and "\<And>c bs. fst (sys_write L c bs) = int (length bs) \<and> fst (sys_send L c bs) = int (length bs)"
    and "messageCB (snd st) = Some (Some n)" and "Message_slave r = Inr b" and "srv_slaves (snd st) (uint b) = None"
    and "0 < rc"
  shows "\<exists>rsp l' m' st' sent. NetLayer_prepareToSend l rsp = Inr (True, l', m') \<and>
    same_shape (r\<lparr>isResponse := True\<rparr>) m' \<and> aduSize m' \<le> length (adu r) \<and>
    Device_sendOnce L R (w_errno (fst st), (Server_device st)\<lparr>dev_backend := Some l'\<rparr>) m' = Inr (int (aduSize m'), sent) \<and>
    Server_task K L M SV (handler_callbacks L R) opn rc st = Inr (-1, st') \<and> dummy (snd st') = dummy (snd st) + N \<and>
    (\<forall>(MM :: 'm modbus_master) mst resp. delivers MM mst m' resp \<longrightarrow>
      (\<exists>mst' resp'. Master_receiveResponse_msg MM mst resp = Inr (int (aduSize m'), resp', mst') \<and>
        Message_function resp' = Inr ReadInputRegisters \<and>
        Response_registerValues resp' 0 N = Inr (dummies (dummy (snd st)) (unat N))))"
proof -
  let ?d = "dummy (snd st)"
  have le: "pduBegin r + 2 + (2 * uint N + (if net r = Rtu then 2 else 0)) \<le> int (length (adu r))" "0 \<le> pduBegin r + 2"
    using assms(11) by (simp_all only: in_buf_def)
  then have buf: "in_buf r 2 (2 * (uint (0 :: u16) + uint N))" by (simp add: in_buf_def split: if_splits)
  obtain rsp where rsp: "build_response r ?d = Inr (rsp, ?d + N)" "same_shape (r\<lparr>isResponse := True\<rparr>) rsp" "msg_wf rsp"
    "Message_size rsp = nat (2 + 2 * uint N)" "Message_byte rsp 0 = Message_byte r 0"
    "Response_registerValues rsp 0 N = Inr (dummies ?d (unat N))"
    using response_built [OF assms(2,4,5,6) buf, of ?d] by auto
  note sh = same_shapeD [OF rsp(2)]
  have pb: "1 \<le> pduBegin r" using assms(2) by (simp add: msg_wf_def)
  have n: "0 \<le> uint N" by simp
  then have size: "int (Message_size rsp) = 2 + 2 * uint N" by (simp add: rsp(4))
  with n have size1: "1 \<le> Message_size rsp" by presburger
  then have "int (aduSize rsp) = pduBegin r + 2 + 2 * uint N"
    using size sh(2) size1 by (auto simp: Message_size_def split: if_splits)
  then have room: "net rsp = Rtu \<longrightarrow> aduSize rsp + 2 \<le> length (adu rsp)" using le(1) sh by auto
  obtain l' m' where p: "NetLayer_prepareToSend l rsp = Inr (True, l', m')" "same_shape rsp m'"
    using prepared [OF rsp(3), of l] assms(8-10) size1 room sh by auto
  have tcp: "net rsp = Tcp \<longrightarrow> pduBegin rsp = 7" using assms(10) sh by simp
  obtain e' d' where s: "Device_sendOnce L R (w_errno (fst st), (Server_device st)\<lparr>dev_backend := Some l'\<rparr>) m' = Inr (int (aduSize m'), e', d')"
    "send_response L R rsp (w_errno (fst st), Server_device st) = Inr (-1, EMBBADDATA, d')"
    using response_sent [of "(w_errno (fst st), Server_device st)" l rsp l' m' L R] assms(7,12) p rsp(3) tcp sh by auto
  have "\<exists>st'. messageHandler L R st = Inr (-1, st') \<and> dummy (snd st') = ?d + N"
    using assms(1,3) rsp(1) s(2) by (simp add: messageHandler_def server_call_def on_device_def Server_device_def Let_def)
  then obtain st' where h: "messageHandler L R st = Inr (-1, st')" "dummy (snd st') = ?d + N" by blast
  have "\<exists>mst' resp'. Master_receiveResponse_msg MM mst resp = Inr (int (aduSize m'), resp', mst') \<and>
      Message_function resp' = Inr ReadInputRegisters \<and> Response_registerValues resp' 0 N = Inr (dummies ?d (unat N))"
    if c: "delivers MM mst m' resp" for MM :: "'m modbus_master" and mst resp
  proof -
    obtain mst' resp' where m: "Master_receiveResponse_msg MM mst resp = Inr (int (aduSize m'), resp', mst')" "reads_like rsp resp'"
      using delivered_read [OF p(1) rsp(3) tcp p(2) c] by blast
    have "Message_function resp' = Inr ReadInputRegisters"
      using reads_like_head [OF m(2) size1] rsp(5) assms(3) by (simp add: Message_function_def)
    moreover have "Response_registerValues resp' 0 N = Inr (dummies ?d (unat N))"
      using registers_like [OF m(2), of 0 "unat N"] rsp(6) size by (simp add: Response_registerValues_def)
    ultimately show ?thesis using m(1) by blast
  qed
  moreover have "same_shape (r\<lparr>isResponse := True\<rparr>) m'" using same_shape_trans [OF rsp(2) p(2)] .
  moreover from this have "aduSize m' \<le> length (adu r)"
    using framed(4) [OF p(1) rsp(3) tcp] same_shapeD(7) by fastforce
  ultimately show ?thesis
    unfolding task_calls_handler [OF assms(1,13-16)] using p(1) s(1) h by blast
qed

text \<open>C29. The handler takes the starting address of the request for the index of the first register
  in the response. From another address than 0 on, a request that fits in the buffer gets a response
  that is longer than its byte count, whose first registers are bytes of the request instead of
  values of the counter; one that does not makes the program write past the end of the buffer.\<close>

theorem callback_takes_address_for_index:
  assumes "req (snd st) = Some r" and "msg_wf r" and "Message_function r = Inr ReadInputRegisters"
    and "Message_quantity r = Inr N" and "Message_startingAddress r = Inr a" and "0 < N" and "0 < a"
    and "in_buf r 0 2"
  shows "(in_buf r 2 (2 * (uint a + uint N)) \<longrightarrow>
      (\<exists>rsp. build_response r (dummy (snd st)) = Inr (rsp, dummy (snd st) + N) \<and>
        Message_byte rsp 1 = Inr (ucast (N * 2)) \<and> int (Message_size rsp) = 2 + 2 * (uint a + uint N) \<and>
        (\<forall>j < a. Response_registerValue rsp j = Message_word r (2 + 2 * uint j)))) \<and>
    (\<not> in_buf r 2 (2 * (uint a + uint N)) \<and> uint a + uint N \<le> 65536 \<longrightarrow>
      messageHandler L R st = Inl Undefined_behaviour)"
proof (intro conjI impI)
  assume buf: "in_buf r 2 (2 * (uint a + uint N))"
  have nn: "0 \<le> 2 + 2 * (uint a + uint N)" by (simp add: add_nonneg_nonneg)
  have "j \<notin> span a (unat N)" if "j < a" for j
  proof
    assume "j \<in> span a (unat N)"
    then obtain i where i: "i < unat N" "j = a + of_nat i" by (auto simp: span_def)
    have "pduBegin r + 2 + 2 * (uint a + uint N) \<le> int (length (adu r))" "1 \<le> pduBegin r" "length (adu r) < 65536"
      using buf assms(2) wf_length [OF assms(2)] by (simp_all only: in_buf_def msg_wf_def)
    moreover have "int i < uint N" unfolding uint_nat using i(1) by (simp only: of_nat_less_iff)
    ultimately have "int (unat a) + int i < 65536" unfolding uint_nat by presburger
    then have "unat a + i < 65536" by linarith
    then have "unat j = unat a + i" using i by (simp add: unat_word_ariths(1) unsigned_of_nat take_bit_nat_eq_self)
    then show False using that by (simp add: word_less_nat_alt)
  qed
  then show "\<exists>rsp. build_response r (dummy (snd st)) = Inr (rsp, dummy (snd st) + N) \<and>
        Message_byte rsp 1 = Inr (ucast (N * 2)) \<and> int (Message_size rsp) = 2 + 2 * (uint a + uint N) \<and>
        (\<forall>j < a. Response_registerValue rsp j = Message_word r (2 + 2 * uint j))"
    using response_built [OF assms(2,4,5,6) buf, of "dummy (snd st)"] nn by auto
next
  assume out: "\<not> in_buf r 2 (2 * (uint a + uint N)) \<and> uint a + uint N \<le> 65536"
  let ?j = "a + of_nat (unat N - 1)"
  have n: "0 < unat N" using assms(6) by (simp add: word_less_nat_alt)
  have j: "?j \<in> span a (unat N)" unfolding span_def using n by (intro image_eqI [where x = "unat N - 1"]) simp_all
  have "int (unat a) + int (unat N) \<le> 65536" using out unfolding uint_nat by blast
  then have "unat a + (unat N - 1) < 65536" using n by linarith
  then have "unat ?j = unat a + (unat N - 1)" by (simp add: unat_word_ariths(1) unsigned_of_nat take_bit_nat_eq_self)
  then have uj: "uint ?j = uint a + uint N - 1" unfolding uint_nat using n by linarith
  obtain h where h: "Response_setByteCount (Message_setSize (Response_from r) 1) (ucast (N * 2)) = Inr h"
    "same_shape (r\<lparr>isResponse := True\<rparr>) h"
    using response_head [OF assms(2,8), where b = "ucast (N * 2)"] by blast
  have "\<not> in_buf h (2 + 2 * (uint a + uint N - 1)) 2"
    using out assms(2) same_shapeD(2,7) [OF h(2)] by (auto simp: in_buf_def msg_wf_def)
  then have "\<not> in_buf h (2 + 2 * uint ?j) 2" by (simp only: uj not_False_eq_True)
  then have "set_loop Response_setRegisterValue h a (unat N) (dummies (dummy (snd st)) (unat N)) = Inl Undefined_behaviour"
    using registers_out [OF j, of h "dummies (dummy (snd st)) (unat N)"] count_le by simp
  then have "build_response r (dummy (snd st)) = Inl Undefined_behaviour"
    using assms(4,5) h(1) by (simp add: build_response_def put_dummies_loop)
  then show "messageHandler L R st = Inl Undefined_behaviour"
    using assms(1,3) by (simp add: messageHandler_def Let_def)
qed

text \<open>The program after a client has asked for two input registers of slave 9, over TCP, from the
  address of the last byte on.\<close>

definition sample_poll :: "u8 \<Rightarrow> message" where
  "sample_poll a = \<lparr>net = Tcp, pduBegin = 7, aduSize = 12, maxAduLength = 260, isResponse = False, backend = True,
     transactionId = 1, adu = [0, 1, 0, 0, 0, 6, 9, 4, 0, a, 0, 2] @ replicate 248 0\<rparr>"

definition sample_polled :: "u8 \<Rightarrow> nat cbstate" where
  "sample_polled a = (sample_world, server.extend ((Server_Private 0)\<lparr>req := Some (sample_poll a), messageCB := Some (Some 0)\<rparr>)
     \<lparr>dummy = 1, cb_out = []\<rparr>)"

lemma sample_poll_simps:
  "req (snd (sample_polled a)) = Some (sample_poll a)" "messageCB (snd (sample_polled a)) = Some (Some 0)"
  "Message_slave (sample_poll a) = Inr 9" "srv_slaves (snd (sample_polled a)) 9 = None" "msg_wf (sample_poll a)" "dummy (snd (sample_polled a)) = 1"
  "Message_function (sample_poll a) = Inr ReadInputRegisters" "Message_quantity (sample_poll a) = Inr 2"
  "Message_startingAddress (sample_poll a) = Inr (word_be 0 a)" "net (sample_poll a) = Tcp" "pduBegin (sample_poll a) = 7"
  "length (adu (sample_poll a)) = 260" "Server_device (sample_polled a) = w_devices sample_world 0"
  by (simp_all add: sample_polled_def sample_poll_def server.extend_def msg_wf_def Message_function_def Message_byte_def
      Message_quantity_def Message_startingAddress_def Message_word_def vget_def function_of_byte_def word_be_def Message_slave_def
      Server_device_def Server_Private_def)

theorem callback_client_reads_counter_witness:
  "\<exists>m' n resp' st' mst'. Server_task libmodbus_values good_link sample_client sample_server_api (handler_callbacks good_link sample_api)
       (\<lambda>st. Inr (True, st)) 12 (sample_polled 0) = Inr (-1, st') \<and> dummy (snd st') = 3 \<and>
     Master_receiveResponse_msg
       (sample_master_api\<lparr>modbus_receive_confirmation := \<lambda>c. (frame_bytes m', int (aduSize m'), None, c)\<rparr>)
       (sample_world, \<lparr>m_dev = 0, m_slaves = Map.empty\<rparr>) (sample_poll 0) = Inr (n, resp', mst') \<and>
     Response_registerValues resp' 0 2 = Inr [1, 2]"
proof -
  let ?st = "sample_polled 0" and ?mst = "(sample_world, \<lparr>m_dev = 0, m_slaves = Map.empty\<rparr>)"
  have b: "in_buf (sample_poll 0) 2 (2 * uint (2 :: u16) + (if net (sample_poll 0) = Rtu then 2 else 0))"
    by (simp add: in_buf_def sample_poll_simps)
  obtain l where l: "dev_backend (Server_device ?st) = Some l" "nl_net l = Tcp"
    by (simp add: sample_poll_simps sample_world_def sample_device_def)
  have a: "Message_startingAddress (sample_poll 0) = Inr 0" by (simp add: sample_poll_simps)
  obtain m' st' where m': "same_shape ((sample_poll 0)\<lparr>isResponse := True\<rparr>) m'" "aduSize m' \<le> 260"
    "Server_task libmodbus_values good_link sample_client sample_server_api (handler_callbacks good_link sample_api)
       (\<lambda>st. Inr (True, st)) 12 ?st = Inr (-1, st')" "dummy (snd st') = 1 + 2"
    "\<forall>(MM :: nat modbus_master) mst resp. delivers MM mst m' resp \<longrightarrow>
      (\<exists>mst' resp'. Master_receiveResponse_msg MM mst resp = Inr (int (aduSize m'), resp', mst') \<and>
        Message_function resp' = Inr ReadInputRegisters \<and> Response_registerValues resp' 0 2 = Inr (dummies 1 2))"
    using callback_client_reads_counter [where ?'m = nat, OF sample_poll_simps(1,5,7,8) a _ l(1) _ _ _ b _ sample_poll_simps(2,3), of good_link 12 sample_api libmodbus_values
        sample_client sample_server_api "\<lambda>st. Inr (True, st)"] l(2)
    by (auto simp: sample_poll_simps good_link_def)
  let ?MM = "sample_master_api\<lparr>modbus_receive_confirmation := \<lambda>c. (frame_bytes m', int (aduSize m'), None, c)\<rparr>"
  have "delivers ?MM ?mst m' (sample_poll 0)"
    using m'(2) same_shapeD [OF m'(1)]
    by (auto simp: delivers_def sample_poll_simps Master_device_def sample_world_def sample_device_def)
  with m' show ?thesis by (fastforce simp: numeral_2_eq_2)
qed

theorem callback_takes_address_for_index_witness:
  "(\<exists>rsp d. build_response (sample_poll 1) 1 = Inr (rsp, d) \<and> Response_registerValue rsp 0 = Inr 256) \<and>
   messageHandler good_link sample_api (sample_polled 125) = Inl Undefined_behaviour"
proof
  have w: "uint (word_be 0 1) = 1" "word_be 0 1 \<noteq> 0" "uint (word_be 0 125) = 125" "0 < word_be 0 125"
    by (simp_all add: word_be_def)
  show "\<exists>rsp d. build_response (sample_poll 1) 1 = Inr (rsp, d) \<and> Response_registerValue rsp 0 = Inr 256"
    using callback_takes_address_for_index [OF sample_poll_simps(1,5,7,8,9), of 1 good_link sample_api] w
    by (auto simp: sample_poll_simps in_buf_def word_less_nat_alt)
      (auto simp: sample_poll_def Message_word_def vget_def word_be_def)
  show "messageHandler good_link sample_api (sample_polled 125) = Inl Undefined_behaviour"
    using callback_takes_address_for_index [OF sample_poll_simps(1,5,7,8,9), of 125 good_link sample_api] w
    by (auto simp: sample_poll_simps in_buf_def)
qed

end
