(* ===== verification/Program_Lines.thy ===== *)
theory Program_Lines
  imports Popl_Reach Modbus_Types
begin

text \<open>
  The command lines of \<open>clock-server\<close> and \<open>router-simple\<close>: the options that they declare with
  \<open>popl.h\<close>, and what they do with the result of the parse. A local variable of type \<open>string\<close> that
  an option is assigned to has an address; the values are strings only.
\<close>

section \<open>Declaring options\<close>

type_synonym line_state = "unit parser_state"

text \<open>\<open>CmdLine.add<T> (...)\<close> makes the option and adds it as an optional one.\<close>

definition cmd_add ::
    "(unit variables \<Rightarrow> (unit variables \<times> unit popl_option) popl) \<Rightarrow> line_state \<Rightarrow> (nat \<times> line_state) popl" where
  "cmd_add mk st =
     and_then (mk (fst st)) (\<lambda>(vars, o1).
     and_then (OptionParser_add_optional (snd st) o1) (\<lambda>(i, P). Inr (i, vars, P)))"

definition help_option :: "unit variables \<Rightarrow> (unit variables \<times> unit popl_option) popl" where
  "help_option vars = Switch_new vars ''h'' ''help'' ''produce help message'' None"

definition text_option ::
    "string \<Rightarrow> string \<Rightarrow> string \<Rightarrow> string \<Rightarrow> nat \<Rightarrow> unit variables \<Rightarrow> (unit variables \<times> unit popl_option) popl" where
  "text_option short long desc dflt x vars = Value_new_default Value_class vars None short long desc (StringV dflt) (Some x)"

fun cmd_adds ::
    "(unit variables \<Rightarrow> (unit variables \<times> unit popl_option) popl) list \<Rightarrow> line_state \<Rightarrow> line_state popl" where
  "cmd_adds [] st = Inr st"
| "cmd_adds (mk # mks) st = and_then (cmd_add mk st) (\<lambda>(_, st1). cmd_adds mks st1)"

definition cmd_line :: line_state where
  "cmd_line = (\<lambda>_. StringV [], OptionParser_new ''Allowed options'')"

definition text_at :: "unit variables \<Rightarrow> nat \<Rightarrow> string" where
  "text_at vars x = (case vars x of StringV s \<Rightarrow> s | _ \<Rightarrow> [])"

section \<open>clock-server\<close>

text \<open>\<open>mode\<close>, \<open>connection\<close> and \<open>settings\<close> are at the addresses 0, 1 and 2.\<close>

definition clock_options :: "(unit variables \<Rightarrow> (unit variables \<times> unit popl_option) popl) list" where
  "clock_options =
     [help_option,
      text_option ''m'' ''mode'' ''mode (rtu or tcp)'' ''tcp'' 0,
      text_option ''c'' ''connection'' (''host or serial port when using ModBus protocol'' @ newline @
        ''(e.g. /dev/ttyS1 for RTU, 127.0.0.1 for TCP)'') ''127.0.0.1'' 1,
      text_option ''s'' ''settings'' (''connection settings'' @ newline @
        ''(e.g. 38400E1 for RTU, 1502 port for TCP)'') ''1502'' 2]"

datatype clock_command = Clock_help | Clock_bad_mode string | Clock_serve Net string string

definition clock_line :: "string list \<Rightarrow> clock_command popl" where
  "clock_line argv =
     and_then (cmd_adds clock_options cmd_line) (\<lambda>st.
     and_then (OptionParser_parse st argv) (\<lambda>(vars, P).
     let mode = text_at vars 0; connection = text_at vars 1; settings = text_at vars 2
     in Inr (if Value_count (op_options P ! 0) = 1 then Clock_help
             else if mode = ''rtu'' then Clock_serve Rtu connection settings
             else if mode = ''tcp'' then Clock_serve Tcp connection settings
             else Clock_bad_mode mode)))"

section \<open>router-simple\<close>

definition router_options :: "(unit variables \<Rightarrow> (unit variables \<times> unit popl_option) popl) list" where
  "router_options =
     [help_option,
      text_option ''H'' ''host'' ''listening address of the server'' ''127.0.0.1'' 0,
      text_option ''p'' ''port'' ''server listening port'' ''1502'' 1,
      text_option ''P'' ''serial'' ''serial port'' ''/dev/ttyUSB0'' 2,
      text_option ''s'' ''settings'' ''serial port settings'' ''38400E1'' 3,
      (\<lambda>vars. Switch_new vars ''R'' ''rs485'' ''RS-485 mode (/RTS on (0) after sending)'' None)]"

text \<open>The host, the port, the serial port with its settings, and whether it is RS-485.\<close>

datatype router_command = Router_help | Router_route string string string string bool

definition router_line :: "string list \<Rightarrow> router_command popl" where
  "router_line argv =
     and_then (cmd_adds router_options cmd_line) (\<lambda>st.
     and_then (OptionParser_parse st argv) (\<lambda>(vars, P).
     Inr (if Value_count (op_options P ! 0) = 1 then Router_help
          else Router_route (text_at vars 0) (text_at vars 1) (text_at vars 2) (text_at vars 3)
            (Value_count (op_options P ! 5) = 1))))"

section \<open>Lines\<close>

lemmas add_simps = cmd_add_def help_option_def text_option_def Switch_new_def Value_new_default_def Option_make_def
  Value_set_default_def Value_update_reference_def Value_value_def Value_is_set_def OptionParser_add_optional_def
  OptionParser_add_def Option_short_name_def Option_long_name_def Option_set_attribute_def

lemmas line_simps = clock_line_def clock_options_def router_line_def router_options_def cmd_line_def OptionParser_new_def
  add_simps newline_def nul_def run_simps text_at_def eval_nat_numeral

lemma clock_default: "clock_line [prog] = Inr (Clock_serve Tcp ''127.0.0.1'' ''1502'')"
  by (simp add: line_simps)

lemma clock_given:
  assumes "c \<noteq> []" and "s \<noteq> []"
  shows "clock_line [prog, ''-m'', ''rtu'', ''-c'', c, ''-s'', s] = Inr (Clock_serve Rtu c s)"
  using assms by (simp add: line_simps Let_def)

lemma clock_mode:
  assumes "x \<notin> {[], ''rtu'', ''tcp''}"
  shows "clock_line [prog, ''-m'', x] = Inr (Clock_bad_mode x)"
  using assms by (simp add: line_simps Let_def)

lemma router_default:
  "router_line [prog] = Inr (Router_route ''127.0.0.1'' ''1502'' ''/dev/ttyUSB0'' ''38400E1'' False)"
  by (simp add: line_simps)

lemma router_given:
  assumes "c \<noteq> []" and "s \<noteq> []"
  shows "router_line [prog, ''-P'', c, ''-s'', s, ''-R''] = Inr (Router_route ''127.0.0.1'' ''1502'' c s True)"
  using assms by (simp add: line_simps Let_def)

text \<open>Help is printed for one \<open>-h\<close> only: two of them start the router.\<close>

lemma router_help:
  "router_line [prog, ''-h''] = Inr Router_help"
  "router_line [prog, ''-hh''] = router_line [prog]"
  by (simp_all add: line_simps Let_def)

end
