(* ===== verification/Server_Programs.thy ===== *)
theory Server_Programs
  imports Clock_Server Callback_Server Program_Lines Router_Model
begin

text \<open>
  The \<open>main\<close> functions of the servers and routers in \<open>examples\<close>: from the options or the file to an
  open server, and then the loop that lasts until the server is closed. The lists and numbers
  that end these functions stand for what happens while they run: the readings of the clock, or
  the turns of the thread that \<open>run\<close> starts. The result tells whether the server was closed.
\<close>

section \<open>Serving\<close>

text \<open>\<open>while (srv.isOpen()) sleep\<close>: the thread makes a turn whenever the program sleeps.\<close>

fun wait_closed :: "(('c, 'a) sstate \<Rightarrow> ('c, 'a) sstate res) \<Rightarrow> nat \<Rightarrow> ('c, 'a) sstate \<Rightarrow> (bool \<times> ('c, 'a) sstate) res" where
  "wait_closed turn 0 st = Inr (\<not> Server_isOpen st, st)"
| "wait_closed turn (Suc n) st =
     (if Server_isOpen st then and_then (turn st) (wait_closed turn n) else Inr (True, st))"

text \<open>\<open>if (srv.open ()) { srv.run(); while ... }\<close>; a server that could not be opened is closed.\<close>

definition open_and_run ::
    "(('c, 'a) sstate \<Rightarrow> (bool \<times> ('c, 'a) sstate) res) \<Rightarrow> (('c, 'a) sstate \<Rightarrow> ('c, 'a) sstate res) \<Rightarrow> nat \<Rightarrow>
     ('c, 'a) sstate \<Rightarrow> (bool \<times> ('c, 'a) sstate) res" where
  "open_and_run opn turn n st =
     and_then (opn st) (\<lambda>(ok, st1).
     if ok then and_then (Server_run st1) (\<lambda>(_, st2). wait_closed turn n st2) else Inr (True, st1))"

text \<open>\<open>setBackend\<close>, \<open>setDebug\<close> and \<open>setRecoveryLink\<close>.\<close>

definition set_up ::
    "mb_consts \<Rightarrow> 'c modbus_link \<Rightarrow> 'c rtu_api \<Rightarrow> 'c modbus_server \<Rightarrow> Net \<Rightarrow> string \<Rightarrow> string \<Rightarrow>
     ('c, 'a) sstate \<Rightarrow> ('c, 'a) sstate res" where
  "set_up K L R SV n conn s st =
     and_then (Server_setBackend K L R SV st n conn s) (\<lambda>(_, st1).
     and_then (server_call (\<lambda>s. Device_setDebug L s True) st1) (\<lambda>(_, st2).
     and_then (server_call (\<lambda>(e, d). case Device_setRecoveryLink d True of (ok, d') \<Rightarrow> Inr (ok, e, d')) st2) (\<lambda>(_, st3).
     Inr st3)))"

section \<open>clock-server and clock-server-json\<close>

text \<open>From the slave on: \<open>now0\<close> and \<open>t\<close> are what \<open>time\<close> and \<open>localtime\<close> give at the start.\<close>

definition clock_run ::
    "mb_consts \<Rightarrow> 'c modbus_link \<Rightarrow> 'c modbus_client \<Rightarrow> 'c modbus_server \<Rightarrow> int \<Rightarrow> tm \<Rightarrow> (int \<times> bool) list \<Rightarrow>
     'c ckstate \<Rightarrow> (bool \<times> 'c ckstate) res" where
  "clock_run K L M SV now0 t xs st =
     and_then (clock_init M now0 t st) (\<lambda>st1.
     and_then (Server_open K L SV st1) (\<lambda>(ok, st2).
     if ok then clock_loop K L M SV xs st2 else Inr (True, st2)))"

definition clock_main ::
    "mb_consts \<Rightarrow> 'c modbus_link \<Rightarrow> 'c rtu_api \<Rightarrow> 'c modbus_client \<Rightarrow> 'c modbus_server \<Rightarrow> memory \<Rightarrow> int \<Rightarrow> tm \<Rightarrow>
     (int \<times> bool) list \<Rightarrow> string list \<Rightarrow> 'c ckstate \<Rightarrow> (bool \<times> 'c ckstate) res option" where
  "clock_main K L R M SV A now0 t xs argv st =
     (case clock_line argv of
        Inr (Clock_serve n conn s) \<Rightarrow>
          Some (and_then (set_up K L R SV n conn s st) (\<lambda>st1.
                and_then (clock_slave M A st1) (clock_run K L M SV now0 t xs)))
      | _ \<Rightarrow> None)"

text \<open>The programs with a file: \<open>file\<close> is what is read from it.\<close>

definition configure ::
    "('j, 'd, 'l) json_api \<Rightarrow> 'd double_api \<Rightarrow> serial_consts \<Rightarrow> nat \<Rightarrow> memory \<Rightarrow> mb_consts \<Rightarrow> 'c modbus_link \<Rightarrow> 'c rtu_api \<Rightarrow>
     'c modbus_client \<Rightarrow> 'c modbus_server \<Rightarrow> 'j res option \<Rightarrow> ('c, 'a) sstate \<Rightarrow> ('c, 'a) sstate res" where
  "configure J F C ld A K L R M SV file st =
     and_then (Device_setConfig J (\<lambda>st. Device_isValid (Server_device st)) (Json_Server_setConfig J F C ld A K L R M SV)
       st file ''modbuspp-server'') (\<lambda>(_, st1). Inr st1)"

definition clock_json_main ::
    "('j, 'd, 'l) json_api \<Rightarrow> 'd double_api \<Rightarrow> serial_consts \<Rightarrow> nat \<Rightarrow> memory \<Rightarrow> mb_consts \<Rightarrow> 'c modbus_link \<Rightarrow> 'c rtu_api \<Rightarrow>
     'c modbus_client \<Rightarrow> 'c modbus_server \<Rightarrow> int \<Rightarrow> tm \<Rightarrow> (int \<times> bool) list \<Rightarrow> 'j res option \<Rightarrow> 'c ckstate \<Rightarrow> (bool \<times> 'c ckstate) res" where
  "clock_json_main J F C ld A K L R M SV now0 t xs file st =
     and_then (configure J F C ld A K L R M SV file st) (\<lambda>st1.
     and_then (Server_slave K st1 SlaveAddress) (\<lambda>_. clock_run K L M SV now0 t xs st1))"

section \<open>simple-server-json and callback-server-json\<close>

definition simple_json_main ::
    "('j, 'd, 'l) json_api \<Rightarrow> 'd double_api \<Rightarrow> serial_consts \<Rightarrow> nat \<Rightarrow> memory \<Rightarrow> mb_consts \<Rightarrow> 'c modbus_link \<Rightarrow> 'c rtu_api \<Rightarrow>
     'c modbus_client \<Rightarrow> 'c modbus_server \<Rightarrow> nat \<Rightarrow> 'j res option \<Rightarrow> ('c, unit) sstate \<Rightarrow> (bool \<times> ('c, unit) sstate) res" where
  "simple_json_main J F C ld A K L R M SV n file st =
     and_then (configure J F C ld A K L R M SV file st)
       (open_and_run (Server_open K L SV)
          (Server_loop_step K L M SV (\<lambda>_ st. Inl Undefined_behaviour) (Server_Private_open K L SV)) n)"

definition callback_json_main ::
    "('j, 'd, 'l) json_api \<Rightarrow> 'd double_api \<Rightarrow> serial_consts \<Rightarrow> nat \<Rightarrow> memory \<Rightarrow> mb_consts \<Rightarrow> 'c modbus_link \<Rightarrow> 'c rtu_api \<Rightarrow>
     'c modbus_client \<Rightarrow> 'c modbus_server \<Rightarrow> nat \<Rightarrow> 'j res option \<Rightarrow> 'c cbstate \<Rightarrow> (bool \<times> 'c cbstate) res" where
  "callback_json_main J F C ld A K L R M SV n file st =
     and_then (configure J F C ld A K L R M SV file st) (\<lambda>st1.
     open_and_run (Server_open K L SV)
       (Server_loop_step K L M SV (handler_callbacks L R) (Server_Private_open K L SV)) n
       (Server_setMessageCallback st1 (Some 0)))"

section \<open>router-simple and router-json\<close>

definition sensor_tables :: "int \<Rightarrow> (Table \<times> int) list" where
  "sensor_tables n = [(InputRegister, n), (HoldingRegister, 8)]"

text \<open>\<open>i\<close> is the address of the device of the master \<open>inside\<close>, to which the slaves point.\<close>

definition router_set_up ::
    "mb_consts \<Rightarrow> 'c modbus_link \<Rightarrow> 'c rtu_api \<Rightarrow> serial_consts \<Rightarrow> 'c modbus_client \<Rightarrow> 'c modbus_server \<Rightarrow> memory \<Rightarrow> nat \<Rightarrow>
     string \<Rightarrow> string \<Rightarrow> string \<Rightarrow> string \<Rightarrow> bool \<Rightarrow> 'c rstate \<Rightarrow> 'c rstate res" where
  "router_set_up K L R C M SV A i host port serial s rs485 st =
     and_then (set_up K L R SV Tcp host port st) (\<lambda>st1.
     and_then (Router_addMaster_net K L R M i st1 ''inside'' Rtu serial s) (\<lambda>st2.
     and_then (on_master ''inside'' (master_call (\<lambda>s. Device_setDebug L s True)) st2) (\<lambda>(_, st3).
     and_then (if rs485
               then and_then (on_master ''inside'' (master_call (rtu_call (\<lambda>l. RtuLayer_setRts R l (MODBUS_RTU_RTS_DOWN R)))) st3) (\<lambda>(_, st4).
                    and_then (on_master ''inside'' (master_call (rtu_call (\<lambda>l. RtuLayer_setSerialMode R l (MODBUS_RTU_RS485 C)))) st4) (\<lambda>(_, st5).
                    Inr st5))
               else Inr st3) (\<lambda>st5.
     and_then (add_slave_tables M A 33 (Some i) (sensor_tables 6) st5) (\<lambda>st6.
     add_slave_tables M A 32 (Some i) (sensor_tables 2) st6)))))"

definition router_run ::
    "mb_consts \<Rightarrow> 'c modbus_link \<Rightarrow> 'c modbus_client \<Rightarrow> 'c modbus_server \<Rightarrow> nat \<Rightarrow> 'c rstate \<Rightarrow> (bool \<times> 'c rstate) res" where
  "router_run K L M SV =
     open_and_run (Router_open K L SV)
       (Server_loop_step K L M SV (\<lambda>_ st. Inl Undefined_behaviour) (Router_Private_open K L SV))"

definition router_main ::
    "mb_consts \<Rightarrow> 'c modbus_link \<Rightarrow> 'c rtu_api \<Rightarrow> serial_consts \<Rightarrow> 'c modbus_client \<Rightarrow> 'c modbus_server \<Rightarrow> memory \<Rightarrow> nat \<Rightarrow> nat \<Rightarrow>
     string list \<Rightarrow> 'c rstate \<Rightarrow> (bool \<times> 'c rstate) res option" where
  "router_main K L R C M SV A i n argv st =
     (case router_line argv of
        Inr (Router_route host port serial s rs485) \<Rightarrow>
          Some (and_then (router_set_up K L R C M SV A i host port serial s rs485 st) (router_run K L M SV n))
      | _ \<Rightarrow> None)"

definition router_json_main ::
    "('j, 'd, 'l) json_api \<Rightarrow> 'd double_api \<Rightarrow> serial_consts \<Rightarrow> nat \<Rightarrow> memory \<Rightarrow> mb_consts \<Rightarrow> 'c modbus_link \<Rightarrow> 'c rtu_api \<Rightarrow>
     'c modbus_client \<Rightarrow> 'c modbus_master \<Rightarrow> 'c modbus_server \<Rightarrow> ('c rstate \<Rightarrow> nat) \<Rightarrow> nat \<Rightarrow> 'j res option \<Rightarrow> 'c rstate \<Rightarrow>
     (bool \<times> 'c rstate) res" where
  "router_json_main J F C ld A K L R M MM SV new n file st =
     and_then (Device_setConfig J (\<lambda>st. Device_isValid (Server_device st)) (Json_Router_setConfig J F C ld A K L R M MM SV new)
       st file ''modbuspp-router'') (\<lambda>(_, st1). router_run K L M SV n st1)"

section \<open>Lemmas\<close>

text \<open>Without options the clock listens on the port 1502 of this host, over TCP.\<close>

lemma clock_main_default:
  "clock_main K L R M SV A now0 t xs [prog] st =
     Some (and_then (set_up K L R SV Tcp ''127.0.0.1'' ''1502'' st) (\<lambda>st1.
           and_then (clock_slave M A st1) (clock_run K L M SV now0 t xs)))"
  by (simp add: clock_main_def clock_default)

lemma clock_main_bad_mode: "x \<notin> {[], ''rtu'', ''tcp''} \<Longrightarrow> clock_main K L R M SV A now0 t xs [prog, ''-m'', x] st = None"
  by (simp add: clock_main_def clock_mode)

text \<open>The wait ends only with a closed server.\<close>

lemma wait_closed_ends: "wait_closed turn n st = Inr (True, st') \<Longrightarrow> \<not> Server_isOpen st'"
  by (induction n arbitrary: st) (auto simp: and_then_eq_Inr split: if_splits)

section \<open>The slaves of router-simple\<close>

lemma server_call_slaves: "server_call f st = Inr (x, st') \<Longrightarrow> snd st' = snd st"
  by (auto simp: server_call_def and_then_eq_Inr)

lemma set_up_slaves: "set_up K L R SV n conn s st = Inr st' \<Longrightarrow> srv_slaves (snd st') = srv_slaves (snd st)"
  by (auto simp: set_up_def Server_setBackend_def Server_Private_setBackend_def and_then_eq_Inr
      dest!: server_call_slaves split: if_splits)

lemma on_master_slaves: "on_master name f st = Inr (x, st') \<Longrightarrow> srv_slaves (snd st') = srv_slaves (snd st)"
  by (auto simp: on_master_def and_then_eq_Inr)

lemma addMaster_slaves:
  "Router_addMaster_net K L R M i st name n conn s = Inr st' \<Longrightarrow> srv_slaves (snd st') = srv_slaves (snd st)"
  by (auto simp: Router_addMaster_net_def Router_addMaster_def Router_Private_addMaster_def Let_def and_then_eq_Inr
      dest!: on_master_slaves split: if_splits prod.splits)

text \<open>A slave as it comes out: its tables hold zeros, and its device is that of the master.\<close>

definition fresh_sensor :: "nat \<Rightarrow> int \<Rightarrow> bslave \<Rightarrow> bool" where
  "fresh_sensor i n s \<longleftrightarrow>
     slave_dev s = Some i \<and> beforeReplyCB s = None \<and> afterReplyCB s = None \<and> \<not> pduAddressing s \<and> map_ok (bmap s) \<and>
     map_input_registers (bmap s) = \<lparr>blk_start = 0, blk_nb = n, blk_tab = Some (replicate (nat n) 0)\<rparr> \<and>
     map_registers (bmap s) = \<lparr>blk_start = 0, blk_nb = 8, blk_tab = Some (replicate 8 0)\<rparr>"

lemma sensor_tables_set:
  assumes "memory_ok A" and "calloc_words A n \<noteq> None" and "calloc_words A 8 \<noteq> None" and "0 < n"
  shows "\<exists>s. set_tables A (sensor_tables n) (BufferedSlave_Private_at empty_mapping a (Some i)) = Inr s \<and>
    slave_id s = a \<and> fresh_sensor i n s"
proof -
  have "allocates (calloc_words A) (realloc_words A)" using assms(1) by (simp add: memory_ok_def)
  from set_block_new [OF this assms(4,2), of 2 0] set_block_new [OF this _ assms(3), of 2 0] assms(4)
  show ?thesis
    by (simp add: set_tables_def sensor_tables_def BufferedSlave_setBlock_def Let_def setInputRegisterBlock_def
        setHoldingRegisterBlock_def Slave_pduAddress_def fresh_sensor_def BufferedSlave_Private_at_def
        BufferedSlave_Private_def Slave_Private_def slave.extend_def empty_mapping_def map_ok_def)
      (simp add: block_ok_def empty_block_def)
qed

lemma add_slave_tables_new:
  assumes "add_slave_tables M A a dev ts st = Inr st'" and "srv_slaves (snd st) a = None"
  shows "\<exists>s. set_tables A ts (BufferedSlave_Private_at empty_mapping a dev) = Inr s \<and>
    srv_slaves (snd st') = (srv_slaves (snd st))(a \<mapsto> s)"
proof -
  obtain st1 where 1: "Server_addSlave M st a dev = Inr st1"
    and 2: "and_then (on_slave a (\<lambda>(w, s). and_then (set_tables A ts s) (\<lambda>s'. Inr ((), w, s'))) st1) (\<lambda>(_, st2). Inr st2) = Inr st'"
    using assms(1) unfolding add_slave_tables_def by (rule and_then_InrE)
  have "srv_slaves (snd st1) = (srv_slaves (snd st))(a \<mapsto> BufferedSlave_Private_at empty_mapping a dev)"
    using 1 assms(2)
    by (auto simp: Server_addSlave_def Server_Private_addSlave_def and_then_eq_Inr dest!: server_call_slaves split: if_splits)
  then show ?thesis
    using 2 by (auto simp: on_slave_def and_then_eq_Inr)
qed

text \<open>After the set-up, the router has the two sensors, over the link of its master.\<close>

lemma router_set_up_slaves:
  assumes "router_set_up K L R C M SV A i host port serial s rs485 st = Inr st'" and "srv_slaves (snd st) = Map.empty"
    and "memory_ok A" and "calloc_words A 2 \<noteq> None" and "calloc_words A 6 \<noteq> None" and "calloc_words A 8 \<noteq> None"
  shows "\<exists>press hum. srv_slaves (snd st') = [33 \<mapsto> press, 32 \<mapsto> hum] \<and> slave_id press = 33 \<and> slave_id hum = 32 \<and>
    fresh_sensor i 6 press \<and> fresh_sensor i 2 hum"
proof -
  obtain st5 st6 where 5: "srv_slaves (snd st5) = Map.empty"
    and 6: "add_slave_tables M A 33 (Some i) (sensor_tables 6) st5 = Inr st6"
    and 7: "add_slave_tables M A 32 (Some i) (sensor_tables 2) st6 = Inr st'"
    using assms(1,2)
    by (auto simp: router_set_up_def and_then_eq_Inr dest!: set_up_slaves addMaster_slaves on_master_slaves split: if_splits)
  obtain press where p: "set_tables A (sensor_tables 6) (BufferedSlave_Private_at empty_mapping 33 (Some i)) = Inr press"
    "srv_slaves (snd st6) = [33 \<mapsto> press]"
    using add_slave_tables_new [OF 6] 5 by auto
  obtain hum where h: "set_tables A (sensor_tables 2) (BufferedSlave_Private_at empty_mapping 32 (Some i)) = Inr hum"
    "srv_slaves (snd st') = [33 \<mapsto> press, 32 \<mapsto> hum]"
    using add_slave_tables_new [OF 7] p(2) by auto
  show ?thesis
    using sensor_tables_set [OF assms(3,5,6), of 33 i] sensor_tables_set [OF assms(3,4,6), of 32 i] p(1) h by auto
qed

end
