(* ===== verification/Spec2Isabelle.thy ===== *)
theory Spec2Isabelle
  imports Message_Ranges Message_Transport BufferedSlave_Spec BufferedSlave_Forward Object_Access Popl_Lines
    Router_Forward Master_Programs Server_Programs
begin

text \<open>
  A shallow embedding of libmodbuspp, the C++ library over libmodbus: messages and their framing,
  the layers of RTU and TCP, devices, slaves with and without an image of their tables, masters,
  servers, routers, and their configuration from JSON.

  \<^bold>\<open>The program and its theories.\<close>
  \<^item> \<^theory_text>\<open>Prelude\<close>, \<^theory_text>\<open>Modbus_Types\<close>: machine integers, the ways a call can fail (\<open>failure\<close>), calls in
    sequence (\<open>and_then\<close>), arrays whose accesses are checked; the enumerations of
    \<open>include/modbuspp/global.h\<close> and the constants of libmodbus (\<open>mb_consts\<close>).
  \<^item> \<^theory_text>\<open>Stores\<close>: the locale \<open>store\<close> of an indexed getter and setter, and the loops over them.
  \<^item> \<^theory_text>\<open>Crc16\<close>: the tables and the loop of \<open>RtuLayer::crc16\<close>, and the bitwise CRC as reference.
  \<^item> \<^theory_text>\<open>Message_Model\<close>, \<^theory_text>\<open>Request_Model\<close>, \<^theory_text>\<open>Response_Model\<close>, \<^theory_text>\<open>Message_New\<close>: \<open>src/message.cpp\<close>,
    \<open>request.cpp\<close>, \<open>response.cpp\<close>. A message is the record \<open>message\<close> of \<open>Message::Private\<close>.
    \<^theory_text>\<open>Message_Ranges\<close> has what the accessors of ranges mean for the message around them,
    \<^theory_text>\<open>Message_Transport\<close> a message from the layer of its sender to a master or a server.
  \<^item> \<^theory_text>\<open>Cxx_Strings\<close>, \<^theory_text>\<open>Net_Layer\<close>, \<^theory_text>\<open>Link_Model\<close>: the number parsers of the standard library,
    \<open>src/netlayer.cpp\<close>, \<open>rtulayer.cpp\<close>, \<open>tcplayer.cpp\<close> and \<open>timeout.cpp\<close>. One record \<open>netlayer\<close>
    stands for the three classes; a function of the base class is a case on the network.
  \<^item> \<^theory_text>\<open>Swap_Data\<close>, \<^theory_text>\<open>Data_Codec\<close>, \<^theory_text>\<open>Slave_Report\<close>: the templates of \<open>swap.h\<close>, \<open>data.h\<close>,
    \<open>slavereport.h\<close>, on the object representation of the value, a list of bytes.
  \<^item> \<^theory_text>\<open>Device_Model\<close>: \<open>src/device.cpp\<close>. A call is a function of \<open>errno\<close> and the record \<open>device\<close>.
  \<^item> \<^theory_text>\<open>Slave_Model\<close>: \<open>src/slave.cpp\<close> and the templates of \<open>slave.h\<close>. The record \<open>world\<close> has
    \<open>errno\<close> and the devices, by address; a slave points to one of them.
  \<^item> \<^theory_text>\<open>BufferedSlave_Model\<close>, \<^theory_text>\<open>BufferedSlave_Tables\<close>, \<^theory_text>\<open>BufferedSlave_Steps\<close>:
    \<open>src/bufferedslave.cpp\<close>. The record \<open>mapping\<close> is \<open>modbus_mapping_t\<close>, a table the record \<open>block\<close>.
    \<^theory_text>\<open>BufferedSlave_Spec\<close> has the abstract image, four partial functions, and the refinement;
    \<^theory_text>\<open>BufferedSlave_Forward\<close> what a write request becomes at the device behind the slave.
  \<^item> \<^theory_text>\<open>Master_Model\<close>, \<^theory_text>\<open>Server_Model\<close>, \<^theory_text>\<open>Server_Steps\<close>, \<^theory_text>\<open>Server_Props\<close>, \<^theory_text>\<open>Router_Model\<close>:
    \<open>src/master.cpp\<close>, \<open>server.cpp\<close>, \<open>router.cpp\<close>. An object is the pair of the world and its
    record; a router extends the record of a server, as its class does, and the functions that
    the code overrides (\<open>open\<close>, \<open>setBackend\<close>) are arguments where the base class calls them.
  \<^item> \<^theory_text>\<open>Json_Config\<close>, \<^theory_text>\<open>Json_Props\<close>: \<open>src/json_p.h\<close> and the \<open>setConfig\<close> functions of each class.
  \<^item> \<^theory_text>\<open>Object_Access\<close>: the other accessors, constructors and the destructors.
  \<^item> \<^theory_text>\<open>Popl_Options\<close>, \<^theory_text>\<open>Popl_Parser\<close>, \<^theory_text>\<open>Popl_Printers\<close>, \<^theory_text>\<open>Popl_Props\<close>, \<^theory_text>\<open>Popl_Reach\<close>, \<^theory_text>\<open>Popl_Lines\<close>:
    \<open>include/modbuspp/popl.h\<close>, the parser of command lines that the programs use. An option is the
    record \<open>popl_option\<close>, the parser \<open>option_parser\<close>; an assigned variable is an address of a memory.
  \<^item> \<^theory_text>\<open>Router_Forward\<close>: a read request through a router, over the device behind its slave to the answer.
  \<^item> \<^theory_text>\<open>Callback_Server\<close>, \<^theory_text>\<open>C_Time\<close>, \<^theory_text>\<open>Clock_Server\<close>: programs of \<open>examples/server\<close>, as
    compositions of the above: the handler of \<open>callback-server-json\<close>, and \<open>clock-server\<close> with its
    slave, start, tick and loop. A program is a record that extends that of its server with the
    variables that outlive a turn; the clock and \<open>localtime\<close> are arguments, \<open>gmtime\<close> is \<^theory_text>\<open>C_Time\<close>.
  \<^item> \<^theory_text>\<open>Master_Programs\<close>: the programs of \<open>examples/master\<close>, as their exit status and the values that
    they print. \<^theory_text>\<open>Program_Lines\<close>, \<^theory_text>\<open>Server_Programs\<close>: the command lines of \<open>clock-server\<close> and
    \<open>router-simple\<close>, and \<open>main\<close> of the servers and routers over them or over a file.

  \<^bold>\<open>How they interact.\<close> A request travels \<open>Server_receive\<close>, \<open>Server_task\<close>,
  \<open>BufferedSlave_readFromDevice\<close> (to the device behind the slave, if it is open),
  \<open>modbus_reply\<close> on the tables, \<open>BufferedSlave_writeToDevice\<close>. The world is passed through all of
  them, so that what two objects share, \<open>errno\<close> and a device, is shared in the model too.
  \<open>Server_poll\<close> and \<open>Server_loop_step\<close> are the two ways to run this; the code of another thread
  runs with an \<open>errno\<close> of its own (\<open>in_thread\<close>). The iterations of a thread are steps of a
  relation together with the calls of the program (\<open>srv_step\<close>).

  \<^bold>\<open>Conventions.\<close> A call that can throw, or can do what C++ leaves undefined, returns a sum:
  \<open>Inl\<close> the exception or \<open>Undefined_behaviour\<close>, \<open>Inr\<close> the result with the state. An exception ends
  a run, so the state that it leaves is not in the model. A machine integer that can wrap
  is a word, an \<open>int\<close> of the code that cannot in practice is an \<open>int\<close>. A \<open>bool\<close> array is a list
  of bytes. \<open>std::map\<close> is a partial function where its order does not matter and a list sorted
  by key in the router, which opens its masters in that order.

  \<^bold>\<open>What is a parameter.\<close> libmodbus and the calls of the system are records of functions on a
  context of the type \<open>'c\<close> (\<open>modbus_link\<close>, \<open>rtu_api\<close>, \<open>modbus_client\<close>, \<open>modbus_master\<close>,
  \<open>modbus_server\<close>); the allocator is \<open>memory\<close>, the JSON library \<open>json_api\<close>, the arithmetic of
  \<open>double\<close> \<open>double_api\<close>, the stream operators of a type of options \<open>stream_ops\<close>. What a theorem relies on them for is a named hypothesis:
  \<open>memory_ok\<close>, \<open>reply_ok\<close>, \<open>consts_ok\<close>, \<open>numbers_ok\<close>, \<open>reads_on\<close>. The callbacks of a program are
  a function too, of which \<open>callbacks_ok\<close> supposes that it leaves alone the link and the flags of
  the server's device, its thread and the set and numbers of its slaves, and keeps their tables in
  agreement with their sizes.

  \<^bold>\<open>What the lemmas show.\<close>
  \<^item> Framing: the CRC of the tables is the bitwise one; a frame has residue zero, and an error burst
    of two bytes does not; the header of a TCP frame; the own framing code of a message without
    a layer agrees with that of the layers, up to the identifier of a request. A message built on a
    layer or a network keeps the lengths of that network whatever the accessors do, and a size
    within them unless the program sets the size. What a layer frames is what a master or a server
    reads in its own message.
  \<^item> Values: the registers of a value in each order, and the way back; parsing of numbers.
  \<^item> Links and devices: invariants of the reachable states; after how many transmissions the loop of
    \<open>Device::sendRawMessage\<close> ends, and that it need not.
  \<^item> Tables: the interface of a table is the locales \<open>table_image\<close>, \<open>read_table\<close>, \<open>write_table\<close> and
    \<open>register_port\<close>, interpreted for the four tables; their lemmas give reading back, refreshing
    from the device, round trips of values, and the invariant of all calls (\<open>map_safe\<close>; the stronger
    \<open>map_ok\<close> as long as no \<open>setBlock\<close> fails). The calls of a slave are sorted by what they can change
    (\<open>slave_call\<close>), and the invariants say which kinds of calls each part of them needs to be absent.
    On a closed object any sequence of reads and writes implements the abstract image.
  \<^item> Requests and responses: a range that is set is read back and leaves the rest alone; the bits of
    a response lie on its function code.
  \<^item> Command lines: the locale \<open>parse_invariant\<close> is the contract of the loop with one option; its
    interpretations give what a parse may change, throw and assign. What settings write is read
    back; two hyphens do not end the options.
  \<^item> Masters and servers: invariants of the reachable states by rule induction, with one
    preservation lemma per operation (\<open>srv_frame\<close>, the collection \<open>server_frame\<close>), over the calls of
    the class, the ones that it inherits from \<open>Device\<close> and those on its slaves; the answer to
    a request; what the thread does on a bad frame.
  \<^item> Routers: the masters are all opened or all closed; a replaced master is still pointed to.
    A read goes to the wrong address of the device, and what the client then gets.
  \<^item> Programs: what a client reads from the counter and from the clock, as long as the loop runs; the
    date in the registers against the formula of POSIX; the hour too many in summer. The requests
    of a slave are the interface \<open>register_port\<close> once more, on a link to a device with registers.
    What the command lines give; the slaves that \<open>router-simple\<close> sets up.
  \<^item> Configuration: the bits of the values of a block; values that are strings; a block of
    holding registers is read back from the configured slave.

  \<^bold>\<open>Bounds.\<close> Loops of the code are structural recursions, on a list or on a counter. Only the
  transmission loop has fuel (\<open>Device_sendLoop\<close>, and \<open>Server_sendLoop\<close>, whose recovery is that of the
  server): one unit for each transmission, so that \<open>k + 1\<close> are enough, and needed, when the first \<open>k\<close>
  fail, and on a dead link none is enough; and the loop that reads the
  values of a string (\<open>read_values\<close>), where the length of the string is enough. The loop over the
  arguments of a command line ends because a round leaves fewer of them.
  \<open>Server::Private::loop\<close> has no bound and is the step \<open>Server_loop_step\<close>.

  \<^bold>\<open>Not modelled.\<close> Move constructors and assignments (the object moved from has no state),
  \<open>Message::operator==\<close> (it compares the addresses of two buffers), \<open>lastError\<close> and
  \<open>printError\<close> (texts of libmodbus on the terminal), the debug output of
  \<open>setConfigFromFile\<close>, the constant overloads of an accessor (equal to the others),
  interleavings inside a call of the server (a call and an iteration of the thread are one step, and
  so is \<open>terminate\<close> with its \<open>join\<close>: that it waits for a thread blocked in \<open>modbus_receive\<close> is not seen),
  the raw pointers behind \<open>PIMP_DECLARE_PRIVATE\<close>. Of the programs, the signal handlers and the texts of
  their output. The tests and the build files.
\<close>

end
